(* ===== verification/Erp_Prelude.thy ===== *)
theory Erp_Prelude
  imports Main "HOL-Library.Char_ord" "HOL-Library.List_Lexorder" "HOL-Library.Multiset"
begin

text \<open>
  What the components share: the outcomes of a Rust call (a value, an error, a panic), the
  operations of \<^verbatim>\<open>str\<close> that the sources use, ordered maps and sets (\<^verbatim>\<open>BTreeMap\<close>,
  \<^verbatim>\<open>BTreeSet\<close>) as sorted lists, decimal and hexadecimal printing, and the list lemmas
  that several components rely on.

  A Rust \<^verbatim>\<open>char\<close> is modelled by HOL's \<^typ>\<open>char\<close>, the scalar values U+0000 to U+00FF, and a
  \<^verbatim>\<open>str\<close> by \<^typ>\<open>string\<close>, the list of its characters.  On that range the order of \<^verbatim>\<open>str\<close>
  (bytewise, in UTF-8) is the lexicographic order of the characters, and
  \<^verbatim>\<open>str::len\<close> counts one byte below U+0080 and two from there on.
\<close>

named_theorems outcome_simps \<open>unfolding of the outcome operations\<close>
named_theorems str_simps \<open>unfolding of the string operations\<close>

section \<open>Outcomes\<close>

text \<open>
  A call returns a value (\<^verbatim>\<open>Ok\<close>, here \<open>Inr\<close>), an error (\<^verbatim>\<open>Err\<close>), panics
  (\<^verbatim>\<open>expect\<close>, \<^verbatim>\<open>unwrap\<close>), or, for a loop that is modelled with fuel, runs out of it.
\<close>

datatype 'e stop = Err 'e | Panic | OutOfFuel

type_synonym ('e, 'a) outcome = "'e stop + 'a"

definition bind_outcome ::
  "('e, 'a) outcome \<Rightarrow> ('a \<Rightarrow> ('e, 'b) outcome) \<Rightarrow> ('e, 'b) outcome" where
  "bind_outcome r k = (case r of Inl e \<Rightarrow> Inl e | Inr x \<Rightarrow> k x)"

definition guard_outcome :: "bool \<Rightarrow> 'e \<Rightarrow> ('e, unit) outcome" where
  "guard_outcome b e = (if b then Inr () else Inl (Err e))"

definition ok_or :: "'a option \<Rightarrow> 'e \<Rightarrow> ('e, 'a) outcome" where
  "ok_or x e = (case x of None \<Rightarrow> Inl (Err e) | Some v \<Rightarrow> Inr v)"

definition expect :: "'a option \<Rightarrow> ('e, 'a) outcome" where
  "expect x = (case x of None \<Rightarrow> Inl Panic | Some v \<Rightarrow> Inr v)"

text \<open>A traversal that stops at the first error, as \<^verbatim>\<open>for x in xs { f(x)?; }\<close> does.\<close>

fun each_outcome :: "('a \<Rightarrow> ('e, unit) outcome) \<Rightarrow> 'a list \<Rightarrow> ('e, unit) outcome" where
  "each_outcome f [] = Inr ()"
| "each_outcome f (x # xs) = bind_outcome (f x) (\<lambda>_. each_outcome f xs)"

fun map_outcome :: "('a \<Rightarrow> ('e, 'b) outcome) \<Rightarrow> 'a list \<Rightarrow> ('e, 'b list) outcome" where
  "map_outcome f [] = Inr []"
| "map_outcome f (x # xs) =
     bind_outcome (f x) (\<lambda>y. bind_outcome (map_outcome f xs) (\<lambda>ys. Inr (y # ys)))"

text \<open>\<^verbatim>\<open>iter.filter_map(f).collect()\<close>.\<close>

fun filter_map :: "('a \<Rightarrow> 'b option) \<Rightarrow> 'a list \<Rightarrow> 'b list" where
  "filter_map f [] = []"
| "filter_map f (x # xs) =
     (case f x of None \<Rightarrow> filter_map f xs | Some y \<Rightarrow> y # filter_map f xs)"

text \<open>\<^verbatim>\<open>iter.position(p)\<close> and \<^verbatim>\<open>iter.next()\<close>.\<close>

fun find_index :: "('a \<Rightarrow> bool) \<Rightarrow> 'a list \<Rightarrow> nat option" where
  "find_index P [] = None"
| "find_index P (x # xs) = (if P x then Some 0 else map_option Suc (find_index P xs))"

definition head_option :: "'a list \<Rightarrow> 'a option" where
  "head_option xs = (case xs of [] \<Rightarrow> None | x # _ \<Rightarrow> Some x)"

definition is_ok :: "('e, 'a) outcome \<Rightarrow> bool" where
  "is_ok r = (case r of Inl _ \<Rightarrow> False | Inr _ \<Rightarrow> True)"

text \<open>The call came back: with a value or with an error of its own, not by a panic.\<close>

definition returns :: "('e, 'a) outcome \<Rightarrow> bool" where
  "returns r = (case r of Inl (Err _) \<Rightarrow> True | Inl _ \<Rightarrow> False | Inr _ \<Rightarrow> True)"

lemma bind_outcome_simps [simp, outcome_simps]:
  "bind_outcome (Inl e) k = Inl e"
  "bind_outcome (Inr x) k = k x"
  by (simp_all add: bind_outcome_def)

lemma bind_outcome_eq_Inr:
  "bind_outcome r k = Inr y \<longleftrightarrow> (\<exists>x. r = Inr x \<and> k x = Inr y)"
  by (cases r) auto

lemma bind_outcome_eq_Inl:
  "bind_outcome r k = Inl e \<longleftrightarrow> r = Inl e \<or> (\<exists>x. r = Inr x \<and> k x = Inl e)"
  by (cases r) auto

lemma guard_outcome_simps [simp, outcome_simps]:
  "guard_outcome True e = Inr ()"
  "guard_outcome False e = Inl (Err e)"
  by (simp_all add: guard_outcome_def)

lemma guard_outcome_Inr [simp]: "guard_outcome b e = Inr u \<longleftrightarrow> b"
  by (simp add: guard_outcome_def)

lemma guard_outcome_Inl: "guard_outcome b e = Inl f \<longleftrightarrow> \<not> b \<and> f = Err e"
  by (auto simp add: guard_outcome_def)

lemma ok_or_simps [simp, outcome_simps]:
  "ok_or None e = Inl (Err e)" "ok_or (Some v) e = Inr v"
  by (simp_all add: ok_or_def)

lemma ok_or_eq_Inr [simp]: "ok_or x e = Inr v \<longleftrightarrow> x = Some v"
  by (cases x) auto

lemma expect_simps [simp, outcome_simps]:
  "expect None = Inl Panic" "expect (Some v) = Inr v"
  by (simp_all add: expect_def)

lemma returns_simps [simp]:
  "returns (Inl (Err e))" "\<not> returns (Inl Panic)" "\<not> returns (Inl OutOfFuel)" "returns (Inr x)"
  by (simp_all add: returns_def)

lemma returns_Inl: "returns (Inl s) \<longleftrightarrow> (\<exists>e. s = Err e)"
  by (cases s) auto

lemma is_ok_simps [simp]: "\<not> is_ok (Inl e)" "is_ok (Inr x)"
  by (simp_all add: is_ok_def)

lemma is_ok_iff: "is_ok r \<longleftrightarrow> (\<exists>x. r = Inr x)"
  by (cases r) auto

lemma returns_bind: "returns r \<Longrightarrow> (\<And>x. r = Inr x \<Longrightarrow> returns (k x)) \<Longrightarrow> returns (bind_outcome r k)"
  by (cases r) (auto simp: returns_Inl)

lemma returns_guard [simp]: "returns (guard_outcome b e)"
  by (simp add: guard_outcome_def)

lemma returns_ok_or [simp]: "returns (ok_or x e)"
  by (cases x) auto

lemma each_outcome_Inr: "each_outcome f xs = Inr u \<longleftrightarrow> (\<forall>x\<in>set xs. f x = Inr ())"
  by (induction xs) (auto simp: bind_outcome_eq_Inr)

lemma each_outcome_returns: "(\<And>x. x \<in> set xs \<Longrightarrow> returns (f x)) \<Longrightarrow> returns (each_outcome f xs)"
  by (induction xs) (auto intro!: returns_bind)

lemma map_outcome_Inr_iff:
  "map_outcome f xs = Inr ys \<longleftrightarrow> list_all2 (\<lambda>x y. f x = Inr y) xs ys"
  by (induction xs arbitrary: ys) (auto simp: bind_outcome_eq_Inr list_all2_Cons1)

lemma map_outcome_returns: "(\<And>x. x \<in> set xs \<Longrightarrow> returns (f x)) \<Longrightarrow> returns (map_outcome f xs)"
  by (induction xs) (auto intro!: returns_bind)

text \<open>The errors that a call can stop with.\<close>

definition fails_only :: "('e stop \<Rightarrow> bool) \<Rightarrow> ('e, 'a) outcome \<Rightarrow> bool" where
  "fails_only P r \<longleftrightarrow> (\<forall>x. r = Inl x \<longrightarrow> P x)"

lemma fails_only_Inr: "fails_only P (Inr x)"
  by (simp add: fails_only_def)

lemma fails_only_Inl: "P e \<Longrightarrow> fails_only P (Inl e)"
  by (simp add: fails_only_def)

lemma fails_only_bind:
  "fails_only P r \<Longrightarrow> (\<And>x. fails_only P (k x)) \<Longrightarrow> fails_only P (bind_outcome r k)"
  by (cases r) (auto simp: fails_only_def)

lemma fails_only_if: "fails_only P x \<Longrightarrow> fails_only P y \<Longrightarrow> fails_only P (if b then x else y)"
  by simp

lemma fails_only_list:
  "fails_only P a \<Longrightarrow> (\<And>c r. fails_only P (f c r)) \<Longrightarrow>
     fails_only P (case xs of [] \<Rightarrow> a | c # r \<Rightarrow> f c r)"
  by (cases xs) auto

lemma fails_only_option:
  "fails_only P a \<Longrightarrow> (\<And>x. fails_only P (f x)) \<Longrightarrow>
     fails_only P (case v of None \<Rightarrow> a | Some x \<Rightarrow> f x)"
  by (cases v) auto

lemma fails_only_pair: "(\<And>x y. fails_only P (f x y)) \<Longrightarrow> fails_only P (case p of (x, y) \<Rightarrow> f x y)"
  by (cases p) auto

lemma fails_only_guard: "P (Err e) \<Longrightarrow> fails_only P (guard_outcome b e)"
  by (auto simp: fails_only_def guard_outcome_Inl)

lemma fails_only_ok_or: "P (Err e) \<Longrightarrow> fails_only P (ok_or x e)"
  by (cases x) (auto simp: fails_only_def)

lemmas fails_only_intros = fails_only_Inr fails_only_bind fails_only_if fails_only_list
  fails_only_option fails_only_pair

lemma set_filter_map: "set (filter_map f xs) = {y. \<exists>x\<in>set xs. f x = Some y}"
  by (induction xs) (auto split: option.splits)

section \<open>Characters and strings\<close>

abbreviation code_of :: "char \<Rightarrow> nat" where
  "code_of c \<equiv> of_char c"

text \<open>\<^verbatim>\<open>char::is_whitespace\<close>: the Unicode property White\_Space, below U+0100.\<close>

definition is_whitespace :: "char \<Rightarrow> bool" where
  "is_whitespace c \<longleftrightarrow>
     9 \<le> code_of c \<and> code_of c \<le> 13 \<or> code_of c = 32 \<or> code_of c = 133 \<or> code_of c = 160"

text \<open>\<^verbatim>\<open>char::is_control\<close>: the general category Cc.\<close>

definition is_control :: "char \<Rightarrow> bool" where
  "is_control c \<longleftrightarrow> code_of c \<le> 31 \<or> 127 \<le> code_of c \<and> code_of c \<le> 159"

text \<open>\<^verbatim>\<open>char::is_ascii_whitespace\<close> leaves out the vertical tab.\<close>

definition is_ascii_whitespace :: "char \<Rightarrow> bool" where
  "is_ascii_whitespace c \<longleftrightarrow>
     code_of c = 32 \<or> code_of c = 9 \<or> code_of c = 10 \<or> code_of c = 12 \<or> code_of c = 13"

definition is_ascii_digit :: "char \<Rightarrow> bool" where
  "is_ascii_digit c \<longleftrightarrow> 48 \<le> code_of c \<and> code_of c \<le> 57"

definition is_ascii_lowercase :: "char \<Rightarrow> bool" where
  "is_ascii_lowercase c \<longleftrightarrow> 97 \<le> code_of c \<and> code_of c \<le> 122"

definition is_ascii_uppercase :: "char \<Rightarrow> bool" where
  "is_ascii_uppercase c \<longleftrightarrow> 65 \<le> code_of c \<and> code_of c \<le> 90"

definition is_ascii_alphabetic :: "char \<Rightarrow> bool" where
  "is_ascii_alphabetic c \<longleftrightarrow> is_ascii_lowercase c \<or> is_ascii_uppercase c"

definition is_ascii_alphanumeric :: "char \<Rightarrow> bool" where
  "is_ascii_alphanumeric c \<longleftrightarrow> is_ascii_alphabetic c \<or> is_ascii_digit c"

definition is_ascii_hexdigit :: "char \<Rightarrow> bool" where
  "is_ascii_hexdigit c \<longleftrightarrow>
     is_ascii_digit c \<or> 97 \<le> code_of c \<and> code_of c \<le> 102 \<or> 65 \<le> code_of c \<and> code_of c \<le> 70"

text \<open>
  \<^verbatim>\<open>char::is_alphanumeric\<close>: the properties Alphabetic and Numeric, below U+0100 (the
  superscripts, the ordinal indicators, the micro sign, the vulgar fractions and the Latin-1
  letters beside the ASCII ones).
\<close>

definition is_alphanumeric :: "char \<Rightarrow> bool" where
  "is_alphanumeric c \<longleftrightarrow>
     is_ascii_alphanumeric c
     \<or> code_of c \<in> {170, 178, 179, 181, 185, 186, 188, 189, 190}
     \<or> 192 \<le> code_of c \<and> code_of c \<noteq> 215 \<and> code_of c \<noteq> 247"

text \<open>ASCII lower case differs from upper case in the sixth bit.\<close>

fun ascii_lower :: "char \<Rightarrow> char" where
  "ascii_lower (Char b0 b1 b2 b3 b4 b5 b6 b7) =
     (if is_ascii_uppercase (Char b0 b1 b2 b3 b4 b5 b6 b7) then Char b0 b1 b2 b3 b4 True b6 b7
      else Char b0 b1 b2 b3 b4 b5 b6 b7)"

definition to_ascii_lowercase :: "string \<Rightarrow> string" where
  "to_ascii_lowercase s = map ascii_lower s"

definition eq_ignore_ascii_case :: "string \<Rightarrow> string \<Rightarrow> bool" where
  "eq_ignore_ascii_case s t \<longleftrightarrow> to_ascii_lowercase s = to_ascii_lowercase t"

definition trim_start :: "string \<Rightarrow> string" where
  "trim_start s = dropWhile is_whitespace s"

definition trim_end :: "string \<Rightarrow> string" where
  "trim_end s = rev (dropWhile is_whitespace (rev s))"

definition trim :: "string \<Rightarrow> string" where
  "trim s = trim_end (trim_start s)"

definition starts_with :: "string \<Rightarrow> string \<Rightarrow> bool" where
  "starts_with s p \<longleftrightarrow> take (length p) s = p"

definition str_len :: "string \<Rightarrow> nat" where
  "str_len s = sum_list (map (\<lambda>c. if code_of c < 128 then 1 else 2) s)"

text \<open>\<^verbatim>\<open>str::split\<close> at a character: always at least one piece.\<close>

fun split_char :: "char \<Rightarrow> string \<Rightarrow> string list" where
  "split_char d [] = [[]]"
| "split_char d (c # cs) =
     (if c = d then [] # split_char d cs
      else (case split_char d cs of [] \<Rightarrow> [[c]] | p # ps \<Rightarrow> (c # p) # ps))"

text \<open>\<^verbatim>\<open>str::split_once\<close> at a character.\<close>

fun split_once :: "char \<Rightarrow> string \<Rightarrow> (string \<times> string) option" where
  "split_once d [] = None"
| "split_once d (c # cs) =
     (if c = d then Some ([], cs)
      else map_option (\<lambda>(a, b). (c # a, b)) (split_once d cs))"

text \<open>\<^verbatim>\<open>split_whitespace().collect().join(" ")\<close>.\<close>

fun words_of :: "string \<Rightarrow> string \<Rightarrow> string list" where
  "words_of w [] = (if w = [] then [] else [rev w])"
| "words_of w (c # cs) =
     (if is_whitespace c then (if w = [] then words_of [] cs else rev w # words_of [] cs)
      else words_of (c # w) cs)"

fun join_with :: "string \<Rightarrow> string list \<Rightarrow> string" where
  "join_with sep [] = []"
| "join_with sep [w] = w"
| "join_with sep (w # v # ws) = w @ sep @ join_with sep (v # ws)"

lemmas char_class_defs [str_simps] =
  is_whitespace_def is_control_def is_ascii_whitespace_def is_ascii_digit_def
  is_ascii_lowercase_def is_ascii_uppercase_def is_ascii_alphabetic_def
  is_ascii_alphanumeric_def is_ascii_hexdigit_def is_alphanumeric_def

lemmas str_op_defs [str_simps] =
  to_ascii_lowercase_def eq_ignore_ascii_case_def trim_start_def trim_end_def trim_def
  starts_with_def str_len_def

subsection \<open>Trimming\<close>

lemma dropWhile_rev_dropWhile_idem:
  "dropWhile P (rev (dropWhile P (rev (dropWhile P xs)))) = rev (dropWhile P (rev (dropWhile P xs)))"
proof (cases "dropWhile P xs")
  case Nil
  show ?thesis unfolding Nil by simp
next
  case (Cons y ys)
  then have "\<not> P y"
    by (metis hd_dropWhile list.distinct(1) list.sel(1))
  have "dropWhile P (rev ys @ [y]) \<noteq> []"
    using \<open>\<not> P y\<close> by auto
  moreover have "last (dropWhile P (rev ys @ [y])) = y"
    using \<open>\<not> P y\<close> by (simp add: dropWhile_append)
  ultimately obtain zs where "dropWhile P (rev ys @ [y]) = zs @ [y]"
    by (metis append_butlast_last_id)
  with Cons \<open>\<not> P y\<close> show ?thesis by simp
qed

lemma dropWhile_idem [simp]: "dropWhile P (dropWhile P xs) = dropWhile P xs"
  by (induction xs) auto

lemma trim_trim [simp]: "trim (trim s) = trim s"
  by (simp add: trim_def trim_start_def trim_end_def dropWhile_rev_dropWhile_idem)

lemma trim_Nil [simp]: "trim [] = []"
  by (simp add: str_op_defs)

lemma set_trim: "set (trim s) \<subseteq> set s"
  by (auto simp: str_op_defs dest!: set_dropWhileD)

text \<open>A string with no white space at either end is its own trim.\<close>

lemma trim_id:
  assumes "\<And>c. c \<in> set s \<Longrightarrow> \<not> is_whitespace c"
  shows "trim s = s"
proof -
  have "dropWhile is_whitespace s = s"
    using assms by (cases s) auto
  moreover have "dropWhile is_whitespace (rev s) = rev s"
    using assms by (cases "rev s") (auto simp: dest: arg_cong [of "rev s" _ rev])
  ultimately show ?thesis
    by (simp add: str_op_defs)
qed

subsection \<open>Case folding\<close>

lemma ascii_lower_not_upper: "\<not> is_ascii_uppercase (ascii_lower c)"
  by (cases c) (auto simp: is_ascii_uppercase_def of_char_def)

lemma ascii_lower_idem [simp]: "ascii_lower (ascii_lower c) = ascii_lower c"
  using ascii_lower_not_upper [of c] by (cases "ascii_lower c") simp

lemma to_ascii_lowercase_idem [simp]:
  "to_ascii_lowercase (to_ascii_lowercase s) = to_ascii_lowercase s"
  by (simp add: to_ascii_lowercase_def)

lemma eq_ignore_ascii_case_refl [simp]: "eq_ignore_ascii_case s s"
  by (simp add: eq_ignore_ascii_case_def)

lemma eq_ignore_ascii_case_sym: "eq_ignore_ascii_case s t \<Longrightarrow> eq_ignore_ascii_case t s"
  by (simp add: eq_ignore_ascii_case_def)

lemma eq_ignore_ascii_case_lower [simp]:
  "eq_ignore_ascii_case (to_ascii_lowercase s) t = eq_ignore_ascii_case s t"
  by (simp add: eq_ignore_ascii_case_def)

end
