(* ===== verification/Erp_Text.thy ===== *)
theory Erp_Text
  imports Erp_Prelude
begin

text \<open>
  Integers at their width and their decimal texts: \<^verbatim>\<open>to_string\<close> of the integer types,
  the value of a run of digits, and the saturating and checked operations on \<^verbatim>\<open>i64\<close>.
\<close>

section \<open>Signed 64-bit integers\<close>

definition i64_max :: int where
  "i64_max = 9223372036854775807"

definition i64_min :: int where
  "i64_min = -9223372036854775808"

definition in_i64 :: "int \<Rightarrow> bool" where
  "in_i64 i \<longleftrightarrow> i64_min \<le> i \<and> i \<le> i64_max"

definition saturate_i64 :: "int \<Rightarrow> int" where
  "saturate_i64 i = max i64_min (min i64_max i)"

definition checked_i64 :: "int \<Rightarrow> int option" where
  "checked_i64 i = (if in_i64 i then Some i else None)"

text \<open>Plain \<^verbatim>\<open>+\<close> in a release build.\<close>

definition wrap_i64 :: "int \<Rightarrow> int" where
  "wrap_i64 i = (i + 9223372036854775808) mod 18446744073709551616 - 9223372036854775808"

lemma saturate_in_i64 [simp]: "in_i64 (saturate_i64 i)"
  by (auto simp: in_i64_def saturate_i64_def i64_max_def i64_min_def)

lemma saturate_id [simp]: "in_i64 i \<Longrightarrow> saturate_i64 i = i"
  by (auto simp: in_i64_def saturate_i64_def)

lemma wrap_id [simp]: "in_i64 i \<Longrightarrow> wrap_i64 i = i"
  by (simp add: in_i64_def wrap_i64_def i64_max_def i64_min_def)

lemma checked_i64_Some [simp]: "checked_i64 i = Some j \<longleftrightarrow> j = i \<and> in_i64 i"
  by (auto simp: checked_i64_def)

section \<open>Decimal texts\<close>

definition digit_char :: "nat \<Rightarrow> char" where
  "digit_char d = ''0123456789'' ! d"

function decimal_digits :: "int \<Rightarrow> string" where
  "decimal_digits n =
     (if n < 10 then [digit_char (nat n)]
      else decimal_digits (n div 10) @ [digit_char (nat (n mod 10))])"
  by auto
termination
  by (relation "measure nat") auto

declare decimal_digits.simps [simp del]

definition decimal_of_nat :: "nat \<Rightarrow> string" where
  "decimal_of_nat n = decimal_digits (int n)"

definition decimal_of_int :: "int \<Rightarrow> string" where
  "decimal_of_int i = (if i < 0 then CHR ''-'' # decimal_digits (- i) else decimal_digits i)"

definition digits_value :: "string \<Rightarrow> int" where
  "digits_value ds = foldl (\<lambda>n c. 10 * n + (of_char c - 48)) 0 ds"

lemma digit_cases:
  assumes "d < (10::nat)"
  shows "d = 0 \<or> d = 1 \<or> d = 2 \<or> d = 3 \<or> d = 4 \<or> d = 5 \<or> d = 6 \<or> d = 7 \<or> d = 8 \<or> d = 9"
  using assms by presburger

lemma digit_char_code: "d < 10 \<Longrightarrow> (of_char (digit_char d) :: int) = 48 + int d"
  by (drule digit_cases) (elim disjE; simp add: digit_char_def)

lemma digit_char_digit: "d < 10 \<Longrightarrow> is_ascii_digit (digit_char d)"
  by (drule digit_cases) (elim disjE; simp add: digit_char_def is_ascii_digit_def)

lemma digits_value_snoc: "digits_value (ds @ [c]) = 10 * digits_value ds + (of_char c - 48)"
  by (simp add: digits_value_def)

lemma digits_value_decimal: "0 \<le> n \<Longrightarrow> digits_value (decimal_digits n) = n"
proof (induction n rule: decimal_digits.induct)
  case (1 n)
  show ?case
  proof (cases "n < 10")
    case True
    with 1 show ?thesis
      by (simp add: decimal_digits.simps [of n] digits_value_def digit_char_code)
  next
    case False
    then have "digits_value (decimal_digits (n div 10)) = n div 10"
      using 1 by simp
    moreover have "10 * (n div 10) + n mod 10 = n"
      by (rule mult_div_mod_eq)
    moreover have "nat (n mod 10) < 10"
      by simp
    ultimately show ?thesis
      using False by (simp add: decimal_digits.simps [of n] digits_value_snoc digit_char_code)
  qed
qed

lemma decimal_of_nat_inject [simp]: "decimal_of_nat m = decimal_of_nat n \<longleftrightarrow> m = n"
  by (metis decimal_of_nat_def digits_value_decimal of_nat_0_le_iff of_nat_eq_iff)

lemma decimal_digits_digits: "0 \<le> n \<Longrightarrow> c \<in> set (decimal_digits n) \<Longrightarrow> is_ascii_digit c"
proof (induction n rule: decimal_digits.induct)
  case (1 n)
  have "is_ascii_digit c" if "c \<in> set (decimal_digits (n div 10))" "10 \<le> n"
    using 1 that by simp
  moreover have "nat (n mod 10) < 10"
    by simp
  ultimately show ?case
    using 1 by (auto simp: decimal_digits.simps [of n] digit_char_digit split: if_splits)
qed

lemma decimal_of_nat_digits: "c \<in> set (decimal_of_nat n) \<Longrightarrow> is_ascii_digit c"
  using decimal_digits_digits [of "int n" c] by (simp add: decimal_of_nat_def)

lemma decimal_of_nat_nonempty [simp]: "decimal_of_nat n \<noteq> []"
  by (simp add: decimal_of_nat_def decimal_digits.simps [of "int n"])

end
