(* ===== verification/Erp_Float.thy ===== *)
theory Erp_Float
  imports Erp_Text
begin

text \<open>
  The 64-bit floating point numbers of the sources: IEEE 754 binary64 with rounding to nearest,
  ties to even, which is the arithmetic of Rust's \<^verbatim>\<open>f64\<close>.  A finite number is a sign, a mantissa
  and a binary exponent; every operation computes the exact result as a ratio of integers and
  rounds it once.
\<close>

datatype f64 = NaN | Inf bool | Fin bool int int

abbreviation f64_zero :: f64 where
  "f64_zero \<equiv> Fin False 0 0"

text \<open>The number of binary digits of a positive integer.\<close>

function bit_length :: "int \<Rightarrow> int" where
  "bit_length n = (if n \<le> 0 then 0 else 1 + bit_length (n div 2))"
  by auto
termination
  by (relation "measure nat") auto

declare bit_length.simps [simp del]

text \<open>The exponent \<open>k\<close> with \<open>2^k \<le> n/d < 2^(k+1)\<close>.\<close>

definition ilog2_ratio :: "int \<Rightarrow> int \<Rightarrow> int" where
  "ilog2_ratio n d =
     (let k = bit_length n - bit_length d in
      if (if 0 \<le> k then d * 2 ^ nat k \<le> n else d \<le> n * 2 ^ nat (- k)) then k else k - 1)"

text \<open>The binary64 number nearest to \<open>n/d\<close>, with the given sign.\<close>

definition round_ratio :: "bool \<Rightarrow> int \<Rightarrow> int \<Rightarrow> f64" where
  "round_ratio neg n d =
     (if n = 0 then Fin neg 0 0
      else
        (let e = max (-1074) (ilog2_ratio n d - 52);
             a = (if 0 \<le> e then n else n * 2 ^ nat (- e));
             b = (if 0 \<le> e then d * 2 ^ nat e else d);
             q = a div b; r = a mod b;
             m = (if b < 2 * r \<or> b = 2 * r \<and> odd q then q + 1 else q);
             (m, e) = (if m = 2 ^ 53 then (2 ^ 52, e + 1) else (m, e)) in
         if m = 0 then Fin neg 0 0 else if 971 < e then Inf neg else Fin neg m e))"

text \<open>The exact value of a finite number, as a ratio.\<close>

definition signed_int :: "bool \<Rightarrow> int \<Rightarrow> int" where
  "signed_int neg m = (if neg then - m else m)"

definition scaled :: "int \<Rightarrow> int \<Rightarrow> int" where
  "scaled m e = m * 2 ^ nat e"

definition round_scaled :: "bool \<Rightarrow> int \<Rightarrow> int \<Rightarrow> f64" where
  "round_scaled neg m e =
     (if 0 \<le> e then round_ratio neg (scaled m e) 1 else round_ratio neg m (2 ^ nat (- e)))"

fun f64_neg :: "f64 \<Rightarrow> f64" where
  "f64_neg NaN = NaN"
| "f64_neg (Inf s) = Inf (\<not> s)"
| "f64_neg (Fin s m e) = Fin (\<not> s) m e"

fun f64_abs :: "f64 \<Rightarrow> f64" where
  "f64_abs NaN = NaN"
| "f64_abs (Inf s) = Inf False"
| "f64_abs (Fin s m e) = Fin False m e"

fun is_finite :: "f64 \<Rightarrow> bool" where
  "is_finite (Fin s m e) = True"
| "is_finite _ = False"

fun f64_add :: "f64 \<Rightarrow> f64 \<Rightarrow> f64" where
  "f64_add NaN y = NaN"
| "f64_add (Inf s) y =
     (case y of NaN \<Rightarrow> NaN | Inf t \<Rightarrow> (if s = t then Inf s else NaN) | Fin _ _ _ \<Rightarrow> Inf s)"
| "f64_add (Fin s m e) y =
     (case y of NaN \<Rightarrow> NaN | Inf t \<Rightarrow> Inf t
      | Fin t n f \<Rightarrow>
          (let g = min e f;
               v = signed_int s (scaled m (e - g)) + signed_int t (scaled n (f - g)) in
           if v = 0 then Fin (s \<and> t) 0 0 else round_scaled (v < 0) \<bar>v\<bar> g))"

definition f64_sub :: "f64 \<Rightarrow> f64 \<Rightarrow> f64" where
  "f64_sub x y = f64_add x (f64_neg y)"

fun f64_mul :: "f64 \<Rightarrow> f64 \<Rightarrow> f64" where
  "f64_mul NaN y = NaN"
| "f64_mul (Inf s) y =
     (case y of NaN \<Rightarrow> NaN | Inf t \<Rightarrow> Inf (s \<noteq> t)
      | Fin t n f \<Rightarrow> if n = 0 then NaN else Inf (s \<noteq> t))"
| "f64_mul (Fin s m e) y =
     (case y of NaN \<Rightarrow> NaN | Inf t \<Rightarrow> if m = 0 then NaN else Inf (s \<noteq> t)
      | Fin t n f \<Rightarrow> round_scaled (s \<noteq> t) (m * n) (e + f))"

fun f64_div :: "f64 \<Rightarrow> f64 \<Rightarrow> f64" where
  "f64_div NaN y = NaN"
| "f64_div (Inf s) y =
     (case y of NaN \<Rightarrow> NaN | Inf t \<Rightarrow> NaN | Fin t n f \<Rightarrow> Inf (s \<noteq> t))"
| "f64_div (Fin s m e) y =
     (case y of NaN \<Rightarrow> NaN | Inf t \<Rightarrow> Fin (s \<noteq> t) 0 0
      | Fin t n f \<Rightarrow>
          if n = 0 then (if m = 0 then NaN else Inf (s \<noteq> t))
          else if f \<le> e then round_ratio (s \<noteq> t) (scaled m (e - f)) n
          else round_ratio (s \<noteq> t) m (scaled n (f - e)))"

text \<open>Comparisons: false as soon as one side is not a number; the two zeros are equal.\<close>

fun f64_less :: "f64 \<Rightarrow> f64 \<Rightarrow> bool" where
  "f64_less NaN y = False"
| "f64_less (Inf s) y =
     (case y of NaN \<Rightarrow> False | Inf t \<Rightarrow> s \<and> \<not> t | Fin _ _ _ \<Rightarrow> s)"
| "f64_less (Fin s m e) y =
     (case y of NaN \<Rightarrow> False | Inf t \<Rightarrow> \<not> t
      | Fin t n f \<Rightarrow>
          (let g = min e f in
           signed_int s (scaled m (e - g)) < signed_int t (scaled n (f - g))))"

fun f64_eq :: "f64 \<Rightarrow> f64 \<Rightarrow> bool" where
  "f64_eq NaN y = False"
| "f64_eq (Inf s) y = (y = Inf s)"
| "f64_eq (Fin s m e) y =
     (case y of NaN \<Rightarrow> False | Inf t \<Rightarrow> False
      | Fin t n f \<Rightarrow>
          (let g = min e f in
           signed_int s (scaled m (e - g)) = signed_int t (scaled n (f - g))))"

definition f64_le :: "f64 \<Rightarrow> f64 \<Rightarrow> bool" where
  "f64_le x y \<longleftrightarrow> f64_less x y \<or> f64_eq x y"

text \<open>\<^verbatim>\<open>i as f64\<close> for an integer, and a literal written in decimal: an integer over a power
  of ten.\<close>

definition f64_of_int :: "int \<Rightarrow> f64" where
  "f64_of_int i = round_ratio (i < 0) \<bar>i\<bar> 1"

definition f64_of_decimal :: "int \<Rightarrow> nat \<Rightarrow> f64" where
  "f64_of_decimal digits scale = round_ratio False digits (10 ^ scale)"

definition f64_epsilon :: f64 where
  "f64_epsilon = Fin False (2 ^ 52) (-104)"

text \<open>\<^verbatim>\<open>value.is_finite() && value > 0.0\<close>, a guard that many of the sources share.\<close>

definition finite_positive :: "f64 \<Rightarrow> bool" where
  "finite_positive x \<longleftrightarrow> is_finite x \<and> f64_less f64_zero x"

lemmas f64_eval = round_ratio_def ilog2_ratio_def signed_int_def scaled_def round_scaled_def
  f64_sub_def f64_le_def f64_of_int_def f64_of_decimal_def f64_epsilon_def finite_positive_def
  Let_def

section \<open>Printing\<close>

text \<open>
  \<^verbatim>\<open>to_string\<close>: the shortest decimal that reads back as the same number, the closer one of
  two; written without an exponent.  \<open>p\<close> is the decimal exponent of the first digit.
\<close>

definition ten_ratio :: "int \<Rightarrow> int \<times> int" where
  "ten_ratio k = (if 0 \<le> k then (10 ^ nat k, 1) else (1, 10 ^ nat (- k)))"

definition decimal_candidate :: "int \<Rightarrow> int \<Rightarrow> int \<Rightarrow> int \<Rightarrow> f64 \<Rightarrow> int option" where
  "decimal_candidate n d k p x =
     (let (tn, td) = ten_ratio (p - k + 1);
          q = (n * td) div (d * tn);
          r = (n * td) mod (d * tn);
          back = (\<lambda>q. round_ratio False (q * tn) td = x) in
      if back q \<and> back (q + 1) then Some (if 2 * r < d * tn then q else q + 1)
      else if back q then Some q
      else if back (q + 1) then Some (q + 1)
      else None)"

function strip_zeros :: "int \<Rightarrow> int \<Rightarrow> int \<times> int" where
  "strip_zeros q e = (if 0 < q \<and> q mod 10 = 0 then strip_zeros (q div 10) (e + 1) else (q, e))"
  by auto
termination
  by (relation "measure (nat \<circ> fst)") auto

declare strip_zeros.simps [simp del]

definition shortest_decimal :: "int \<Rightarrow> int \<Rightarrow> int \<Rightarrow> f64 \<Rightarrow> int \<times> int" where
  "shortest_decimal n d p x =
     (case find (\<lambda>k. decimal_candidate n d k p x \<noteq> None) [1..17] of
        Some k \<Rightarrow> strip_zeros (the (decimal_candidate n d k p x)) (p - k + 1)
      | None \<Rightarrow> (0, 0))"

definition decimal_exponent :: "int \<Rightarrow> int \<Rightarrow> int" where
  "decimal_exponent n d =
     (let guess = (ilog2_ratio n d * 30103) div 100000;
          (tn, td) = ten_ratio (guess + 1) in
      if d * tn \<le> n * td then guess + 1
      else (case ten_ratio guess of (tn, td) \<Rightarrow> if d * tn \<le> n * td then guess else guess - 1))"

definition place_point :: "int \<Rightarrow> int \<Rightarrow> string" where
  "place_point q e =
     (let ds = decimal_digits q in
      if 0 \<le> e then ds @ replicate (nat e) CHR ''0''
      else if nat (- e) < length ds
      then take (length ds - nat (- e)) ds @ CHR ''.'' # drop (length ds - nat (- e)) ds
      else ''0.'' @ replicate (nat (- e) - length ds) CHR ''0'' @ ds)"

fun f64_to_string :: "f64 \<Rightarrow> string" where
  "f64_to_string NaN = ''NaN''"
| "f64_to_string (Inf s) = (if s then ''-inf'' else ''inf'')"
| "f64_to_string (Fin s m e) =
     (if s then [CHR ''-''] else []) @
     (if m = 0 then ''0''
      else
        (let (n, d) = (if 0 \<le> e then (scaled m e, 1) else (m, 2 ^ nat (- e)));
             (q, k) = shortest_decimal n d (decimal_exponent n d) (Fin False m e) in
         place_point q k))"

section \<open>Order and signs\<close>

lemma signed_int_simps [simp]: "signed_int False m = m" "signed_int True m = - m"
  by (simp_all add: signed_int_def)

lemma scaled_nonneg: "0 \<le> m \<Longrightarrow> 0 \<le> scaled m e"
  by (simp add: scaled_def)

lemma scaled_pos_iff [simp]: "0 < scaled m e \<longleftrightarrow> 0 < m"
  by (simp add: scaled_def zero_less_mult_iff)

lemma scaled_zero_iff [simp]: "scaled m e = 0 \<longleftrightarrow> m = 0"
  by (simp add: scaled_def)

lemma f64_less_irrefl [simp]: "\<not> f64_less x x"
  by (cases x) (auto simp: Let_def)

lemma finite_positive_cases:
  "finite_positive x \<longleftrightarrow> (\<exists>m e s. x = Fin s m e \<and> 0 < signed_int s m)"
  by (cases x) (auto simp: finite_positive_def Let_def signed_int_def scaled_def
      zero_less_mult_iff mult_less_0_iff min_def)

lemma finite_positive_not_zero: "finite_positive x \<Longrightarrow> \<not> f64_eq x f64_zero"
  by (auto simp: finite_positive_cases Let_def signed_int_def scaled_def split: if_splits)

lemma scaled_zero_left [simp]: "scaled 0 e = 0"
  by (simp add: scaled_def)

lemma signed_scaled_sign [simp]:
  "signed_int s (scaled m e) < 0 \<longleftrightarrow> signed_int s m < 0"
  "0 < signed_int s (scaled m e) \<longleftrightarrow> 0 < signed_int s m"
  "signed_int s (scaled m e) = 0 \<longleftrightarrow> signed_int s m = 0"
  by (auto simp: signed_int_def scaled_def mult_less_0_iff zero_less_mult_iff)

lemma positive_if_not_le_zero:
  "is_finite x \<Longrightarrow> \<not> f64_le x f64_zero \<Longrightarrow> finite_positive x"
  by (cases x) (auto simp: f64_le_def finite_positive_cases Let_def)

end
