(* ===== verification/Production_Errors.thy ===== *)
theory Production_Errors
  imports Erp_Prelude
begin

text \<open>
  The errors of the production map services (\<^verbatim>\<open>src/core/production_map/errors.rs\<close>): every
  variant from the head of the enum down to \<^verbatim>\<open>MoveNotAllowed\<close>, then those of the later ones that
  the modelled code raises, in the order of the source.  Variants of services that are not
  modelled (materials, molds, paddons, opening WIP) are left out.
\<close>

datatype production_map_error =
    ReactivationDenied string
  | TemplateIdentityConflict
  | PrintSideChanged
  | MissingId
  | MissingProductCode
  | MissingTitle
  | MissingStart
  | MissingEnd
  | DuplicateNode string
  | DuplicateOrderNumber
  | OrderNumberImmutable
  | OrderNumberExhausted
  | MissingEdgeNode string
  | Cycle
  | MissingFormulaTarget
  | MissingFormulaExpression
  | InvalidFormulaTarget string
  | InvalidFormulaExpression string
  | MapNotFound
  | InvalidOrderQty
  | InvalidPrintValSize
  | InvalidNodeQty string
  | InvalidLocation string
  | UnknownFormulaVariable string
  | FormulaDivisionByZero
  | MissingConditionBranch
  | MoveNotAllowed
  | StoreFailed
  | QueueActionNotAllowed
  | QueueReorderInvalid
  | QueueReorderConflict
  | QueueReorderFrozen
  | QueueReorderBlocked
  | QueueReorderIdempotencyConflict
  | OrderFreezeRequested
  | OrderFrozen
  | OrderControlActionNotAllowed
  | OrderFreezeTargetNotFound
  | OrderFreezeRequestMismatch
  | ApparatusNotAssigned
  | ProgressInputInvalid
  | InvalidRezkaFrameGroups
  | CapacityProfileInvalid
  | CapacityProfileNotFound
  | CapabilityNotSupported
  | CapabilityLevelInsufficient
  | CapacityConflict
  | CapacityNoWorkingWindow
  | CapacityUnavailable
  | ScheduleInputInvalid
  | ScheduleIdempotencyConflict
  | ScheduleReservationNotFound
  | ScheduleReservationLocked

type_synonym 'a pm_result = "(production_map_error, 'a) outcome"

end
