(* ===== verification/Formula.thy ===== *)
theory Formula
  imports Erp_Float Ordered_Maps Production_Errors
begin

text \<open>
  The formula language of a production map (\<^verbatim>\<open>compiler/formula_parser.rs\<close>,
  \<^verbatim>\<open>compiler/formula.rs\<close>): the recursive-descent parser that validates an expression, the
  evaluator that has the same shape, conditions, and the checks on targets and locations.

  The parser of the source keeps the whole input and a position; here a function takes the rest
  of the input and returns what it left.  The recursion of the source is bounded by fuel;
  \<^term>\<open>formula_fuel\<close> gives three calls per character and is shown to be enough for every input.
\<close>

section \<open>Tokens\<close>

definition skip_ws :: "string \<Rightarrow> string" where
  "skip_ws s = dropWhile is_ascii_whitespace s"

definition ident_start :: "char \<Rightarrow> bool" where
  "ident_start c \<longleftrightarrow> is_ascii_alphabetic c \<or> c = CHR ''_''"

definition ident_char :: "char \<Rightarrow> bool" where
  "ident_char c \<longleftrightarrow> is_ascii_alphanumeric c \<or> c = CHR ''_''"

definition is_identifier :: "string \<Rightarrow> bool" where
  "is_identifier v = (case v of [] \<Rightarrow> False | c # cs \<Rightarrow> ident_start c \<and> list_all ident_char cs)"

definition read_identifier :: "string \<Rightarrow> (string \<times> string) option" where
  "read_identifier s =
     (case s of
        [] \<Rightarrow> None
      | c # cs \<Rightarrow>
          if ident_start c then Some (c # takeWhile ident_char cs, dropWhile ident_char cs)
          else None)"

text \<open>\<^verbatim>\<open>str::parse::<f64>\<close> on digits with at most one point: a lone point is refused.\<close>

definition parse_f64 :: "string \<Rightarrow> string \<Rightarrow> f64 option" where
  "parse_f64 whole frac =
     (if whole = [] \<and> frac = [] then None
      else Some (f64_of_decimal (digits_value (whole @ frac)) (length frac)))"

definition read_number :: "string \<Rightarrow> (f64 \<times> string) option" where
  "read_number s =
     (let whole = takeWhile is_ascii_digit s; r = dropWhile is_ascii_digit s in
      case r of
        c # cs \<Rightarrow>
          if c = CHR ''.''
          then map_option (\<lambda>v. (v, dropWhile is_ascii_digit cs))
                 (parse_f64 whole (takeWhile is_ascii_digit cs))
          else map_option (\<lambda>v. (v, r)) (parse_f64 whole [])
      | [] \<Rightarrow> map_option (\<lambda>v. (v, r)) (parse_f64 whole []))"

section \<open>Validation\<close>

text \<open>
  The five mutually recursive positions of the grammar.  Each parser function takes the others
  through \<open>call\<close>; the loops of \<^verbatim>\<open>parse_expression\<close> and \<^verbatim>\<open>parse_term\<close> are calls of
  their own, and the loops of the evaluator carry the value so far.
\<close>

datatype 'v grammar_call = Expression | MoreTerms 'v | Term | MoreFactors 'v | Factor

definition parse_expression ::
  "(unit grammar_call \<Rightarrow> string \<Rightarrow> string pm_result) \<Rightarrow> string \<Rightarrow> string pm_result" where
  "parse_expression call s = bind_outcome (call Term s) (\<lambda>s. call (MoreTerms ()) s)"

definition parse_more_terms ::
  "(unit grammar_call \<Rightarrow> string \<Rightarrow> string pm_result) \<Rightarrow> string \<Rightarrow> string pm_result" where
  "parse_more_terms call s =
     (case skip_ws s of
        [] \<Rightarrow> Inr []
      | c # r \<Rightarrow>
          if c = CHR ''+'' \<or> c = CHR ''-''
          then bind_outcome (call Term r) (\<lambda>s. call (MoreTerms ()) s)
          else Inr (c # r))"

definition parse_term ::
  "(unit grammar_call \<Rightarrow> string \<Rightarrow> string pm_result) \<Rightarrow> string \<Rightarrow> string pm_result" where
  "parse_term call s = bind_outcome (call Factor s) (\<lambda>s. call (MoreFactors ()) s)"

definition parse_more_factors ::
  "(unit grammar_call \<Rightarrow> string \<Rightarrow> string pm_result) \<Rightarrow> string \<Rightarrow> string pm_result" where
  "parse_more_factors call s =
     (case skip_ws s of
        [] \<Rightarrow> Inr []
      | c # r \<Rightarrow>
          if c = CHR ''*'' \<or> c = CHR ''/''
          then bind_outcome (call Factor r) (\<lambda>s. call (MoreFactors ()) s)
          else Inr (c # r))"

definition close_paren :: "string \<Rightarrow> 'a \<Rightarrow> string \<Rightarrow> ('a \<times> string) pm_result" where
  "close_paren input v s =
     (case skip_ws s of
        [] \<Rightarrow> Inl (Err (InvalidFormulaExpression input))
      | d # q \<Rightarrow>
          if d = CHR '')'' then Inr (v, q) else Inl (Err (InvalidFormulaExpression input)))"

definition parse_factor ::
  "(unit grammar_call \<Rightarrow> string \<Rightarrow> string pm_result) \<Rightarrow> string \<Rightarrow> string \<Rightarrow> string pm_result" where
  "parse_factor call input s =
     (case skip_ws s of
        [] \<Rightarrow> Inl (Err (InvalidFormulaExpression input))
      | c # r \<Rightarrow>
          if c = CHR ''-'' then call Factor r
          else if c = CHR ''(''
          then bind_outcome (call Expression r)
                 (\<lambda>s. bind_outcome (close_paren input () s) (\<lambda>(_, q). Inr q))
          else
            (case read_identifier (c # r) of
               Some (_, q) \<Rightarrow> Inr q
             | None \<Rightarrow>
                 (case read_number (c # r) of
                    Some (_, q) \<Rightarrow> Inr q
                  | None \<Rightarrow> Inl (Err (InvalidFormulaExpression input)))))"

primrec parse_run ::
  "nat \<Rightarrow> string \<Rightarrow> unit grammar_call \<Rightarrow> string \<Rightarrow> string pm_result" where
  "parse_run 0 input = (\<lambda>call s. Inl OutOfFuel)"
| "parse_run (Suc n) input =
     (\<lambda>call s. case call of
        Expression \<Rightarrow> parse_expression (parse_run n input) s
      | MoreTerms _ \<Rightarrow> parse_more_terms (parse_run n input) s
      | Term \<Rightarrow> parse_term (parse_run n input) s
      | MoreFactors _ \<Rightarrow> parse_more_factors (parse_run n input) s
      | Factor \<Rightarrow> parse_factor (parse_run n input) input s)"

definition formula_fuel :: "string \<Rightarrow> nat" where
  "formula_fuel s = 3 * length s + 3"

definition validate_formula_expression :: "string \<Rightarrow> unit pm_result" where
  "validate_formula_expression expression =
     bind_outcome (parse_run (formula_fuel expression) expression Expression expression)
       (\<lambda>s. if skip_ws s = [] then Inr ()
            else Inl (Err (InvalidFormulaExpression expression)))"

section \<open>Evaluation\<close>

type_synonym formula_env = "(string, f64) btree_map"

type_synonym eval_call = "f64 grammar_call \<Rightarrow> string \<Rightarrow> (f64 \<times> string) pm_result"

definition evaluate_expression :: "eval_call \<Rightarrow> string \<Rightarrow> (f64 \<times> string) pm_result" where
  "evaluate_expression call s = bind_outcome (call Term s) (\<lambda>(v, s). call (MoreTerms v) s)"

definition evaluate_more_terms ::
  "eval_call \<Rightarrow> f64 \<Rightarrow> string \<Rightarrow> (f64 \<times> string) pm_result" where
  "evaluate_more_terms call v s =
     (case skip_ws s of
        [] \<Rightarrow> Inr (v, [])
      | c # r \<Rightarrow>
          if c = CHR ''+''
          then bind_outcome (call Term r) (\<lambda>(w, s). call (MoreTerms (f64_add v w)) s)
          else if c = CHR ''-''
          then bind_outcome (call Term r) (\<lambda>(w, s). call (MoreTerms (f64_sub v w)) s)
          else Inr (v, c # r))"

definition evaluate_term :: "eval_call \<Rightarrow> string \<Rightarrow> (f64 \<times> string) pm_result" where
  "evaluate_term call s = bind_outcome (call Factor s) (\<lambda>(v, s). call (MoreFactors v) s)"

definition evaluate_more_factors ::
  "eval_call \<Rightarrow> f64 \<Rightarrow> string \<Rightarrow> (f64 \<times> string) pm_result" where
  "evaluate_more_factors call v s =
     (case skip_ws s of
        [] \<Rightarrow> Inr (v, [])
      | c # r \<Rightarrow>
          if c = CHR ''*''
          then bind_outcome (call Factor r) (\<lambda>(w, s). call (MoreFactors (f64_mul v w)) s)
          else if c = CHR ''/''
          then bind_outcome (call Factor r)
                 (\<lambda>(w, s). if f64_eq w f64_zero then Inl (Err FormulaDivisionByZero)
                           else call (MoreFactors (f64_div v w)) s)
          else Inr (v, c # r))"

definition evaluate_factor ::
  "eval_call \<Rightarrow> string \<Rightarrow> formula_env \<Rightarrow> string \<Rightarrow> (f64 \<times> string) pm_result" where
  "evaluate_factor call input vars s =
     (case skip_ws s of
        [] \<Rightarrow> Inl (Err (InvalidFormulaExpression input))
      | c # r \<Rightarrow>
          if c = CHR ''-''
          then bind_outcome (call Factor r) (\<lambda>(v, s). Inr (f64_neg v, s))
          else if c = CHR ''(''
          then bind_outcome (call Expression r) (\<lambda>(v, s). close_paren input v s)
          else
            (case read_identifier (c # r) of
               Some (x, q) \<Rightarrow>
                 (case bt_get vars x of
                    Some v \<Rightarrow> Inr (v, q)
                  | None \<Rightarrow> Inl (Err (UnknownFormulaVariable x)))
             | None \<Rightarrow>
                 (case read_number (c # r) of
                    Some (v, q) \<Rightarrow> Inr (v, q)
                  | None \<Rightarrow> Inl (Err (InvalidFormulaExpression input)))))"

primrec evaluate_run :: "nat \<Rightarrow> string \<Rightarrow> formula_env \<Rightarrow> eval_call" where
  "evaluate_run 0 input vars = (\<lambda>call s. Inl OutOfFuel)"
| "evaluate_run (Suc n) input vars =
     (\<lambda>call s. case call of
        Expression \<Rightarrow> evaluate_expression (evaluate_run n input vars) s
      | MoreTerms v \<Rightarrow> evaluate_more_terms (evaluate_run n input vars) v s
      | Term \<Rightarrow> evaluate_term (evaluate_run n input vars) s
      | MoreFactors v \<Rightarrow> evaluate_more_factors (evaluate_run n input vars) v s
      | Factor \<Rightarrow> evaluate_factor (evaluate_run n input vars) input vars s)"

definition evaluate_formula :: "string \<Rightarrow> formula_env \<Rightarrow> f64 pm_result" where
  "evaluate_formula expression vars =
     bind_outcome (evaluate_run (formula_fuel expression) expression vars Expression expression)
       (\<lambda>(v, s). if skip_ws s = [] then Inr v
            else Inl (Err (InvalidFormulaExpression expression)))"

section \<open>Conditions, targets and locations\<close>

definition comparison_operators :: "string list" where
  "comparison_operators = [''>='', ''<='', ''=='', ''!='', ''>'', ''<'']"

text \<open>The operators tried, in this order, where both sides are not blank.\<close>

definition operator_at :: "string \<Rightarrow> string \<Rightarrow> (string \<times> string \<times> string) option" where
  "operator_at pre s =
     map_option (\<lambda>op. (trim pre, op, trim (drop (length op) s)))
       (find (\<lambda>op. starts_with s op \<and> trim pre \<noteq> [] \<and> trim (drop (length op) s) \<noteq> [])
         comparison_operators)"

text \<open>
  The scan of \<^verbatim>\<open>split_condition\<close> goes by bytes and slices the text at every byte outside
  parentheses: at the second byte of a character beyond ASCII the slice is not on a character
  boundary and Rust panics.
\<close>

fun split_condition_loop ::
  "string \<Rightarrow> nat \<Rightarrow> string \<Rightarrow> (string \<times> string \<times> string) option pm_result" where
  "split_condition_loop pre depth [] = Inr None"
| "split_condition_loop pre depth (c # cs) =
     (if c = CHR ''('' then split_condition_loop (pre @ [c]) (depth + 1) cs
      else if c = CHR '')'' then split_condition_loop (pre @ [c]) (depth - 1) cs
      else if depth = 0 then
        (case operator_at pre (c # cs) of
           Some r \<Rightarrow> Inr (Some r)
         | None \<Rightarrow>
             if code_of c < (128::nat) then split_condition_loop (pre @ [c]) depth cs
             else Inl Panic)
      else split_condition_loop (pre @ [c]) depth cs)"

definition split_condition :: "string \<Rightarrow> (string \<times> string \<times> string) option pm_result" where
  "split_condition expression = split_condition_loop [] 0 expression"

definition compare_f64 :: "string \<Rightarrow> string \<Rightarrow> f64 \<Rightarrow> f64 \<Rightarrow> bool pm_result" where
  "compare_f64 expression op l r =
     (if op = ''>'' then Inr (f64_less r l)
      else if op = ''>='' then Inr (f64_le r l)
      else if op = ''<'' then Inr (f64_less l r)
      else if op = ''<='' then Inr (f64_le l r)
      else if op = ''=='' then Inr (f64_less (f64_abs (f64_sub l r)) f64_epsilon)
      else if op = ''!='' then Inr (f64_le f64_epsilon (f64_abs (f64_sub l r)))
      else Inl (Err (InvalidFormulaExpression expression)))"

definition evaluate_condition :: "string \<Rightarrow> formula_env \<Rightarrow> bool pm_result" where
  "evaluate_condition expression vars =
     bind_outcome (split_condition expression)
       (\<lambda>split. case split of
          Some (left, op, right) \<Rightarrow>
            bind_outcome (evaluate_formula left vars)
              (\<lambda>l. bind_outcome (evaluate_formula right vars)
                (\<lambda>r. compare_f64 expression op l r))
        | None \<Rightarrow>
            bind_outcome (evaluate_formula expression vars)
              (\<lambda>v. Inr (\<not> f64_eq v f64_zero)))"

definition validate_condition_expression :: "string \<Rightarrow> unit pm_result" where
  "validate_condition_expression expression =
     (case evaluate_condition expression [] of
        Inr _ \<Rightarrow> Inr ()
      | Inl (Err (UnknownFormulaVariable _)) \<Rightarrow> Inr ()
      | Inl e \<Rightarrow> Inl e)"

definition validate_formula_target :: "string \<Rightarrow> unit pm_result" where
  "validate_formula_target target =
     guard_outcome (is_identifier (trim target)) (InvalidFormulaTarget target)"

definition location_char :: "char \<Rightarrow> bool" where
  "location_char c \<longleftrightarrow> is_alphanumeric c \<or> is_whitespace c \<or>
     c \<in> {CHR ''-'', CHR ''_'', CHR ''.'', CHR ''/'', CHR ''('', CHR '')''}"

definition validate_location_ref :: "string \<Rightarrow> unit pm_result" where
  "validate_location_ref location =
     (let location = trim location in
      if location = [] then Inr ()
      else guard_outcome
        (str_len location \<le> 120 \<and> list_ex is_alphanumeric location
           \<and> list_all location_char location)
        (InvalidLocation location))"

end
