(* ===== verification/Formula_Laws.thy ===== *)
theory Formula_Laws
  imports Formula
begin

text \<open>
  Validation and evaluation of formulas: the fuel is enough for every text, and both take the
  same path through it.  The locale \<open>descent\<close> states what a recursive-descent step must
  satisfy; the validator and the evaluator interpret it.
\<close>

section \<open>Fuel\<close>

fun need :: "'v grammar_call \<Rightarrow> string \<Rightarrow> nat" where
  "need Expression s = 3 * length s + 3"
| "need (MoreTerms v) s = 3 * length s + 3"
| "need Term s = 3 * length s + 2"
| "need (MoreFactors v) s = 3 * length s + 2"
| "need Factor s = 3 * length s + 1"

fun consumes_more :: "'v grammar_call \<Rightarrow> bool" where
  "consumes_more (MoreTerms v) = False"
| "consumes_more (MoreFactors v) = False"
| "consumes_more _ = True"

lemma need_pos: "0 < need c s"
  by (cases c) auto

text \<open>A call leaves no more than it was given; an expression, a term and a factor take at least
  one character.\<close>

definition consuming ::
  "('r \<Rightarrow> string) \<Rightarrow> ('v grammar_call \<Rightarrow> string \<Rightarrow> 'r pm_result) \<Rightarrow> bool" where
  "consuming left rec \<longleftrightarrow>
     (\<forall>c s r. rec c s = Inr r \<longrightarrow>
        length (left r) \<le> length s \<and> (consumes_more c \<longrightarrow> length (left r) < length s))"

lemma consumingD:
  assumes "consuming left rec" "rec c s = Inr r"
  shows "length (left r) \<le> length s" "consumes_more c \<Longrightarrow> length (left r) < length s"
  using assms by (auto simp: consuming_def)

lemma bind_outcome_cong:
  "r = r' \<Longrightarrow> (\<And>x. r' = Inr x \<Longrightarrow> k x = k' x) \<Longrightarrow> bind_outcome r k = bind_outcome r' k'"
  by (cases r') auto

lemma case_list_cong:
  "xs = ys \<Longrightarrow> (ys = [] \<Longrightarrow> a = a') \<Longrightarrow> (\<And>c r. ys = c # r \<Longrightarrow> f c r = f' c r) \<Longrightarrow>
     (case xs of [] \<Rightarrow> a | c # r \<Rightarrow> f c r) = (case ys of [] \<Rightarrow> a' | c # r \<Rightarrow> f' c r)"
  by (cases ys) auto

locale descent =
  fixes step :: "('v grammar_call \<Rightarrow> string \<Rightarrow> 'r pm_result) \<Rightarrow> 'v grammar_call \<Rightarrow> string \<Rightarrow> 'r pm_result"
    and left :: "'r \<Rightarrow> string"
    and run :: "nat \<Rightarrow> 'v grammar_call \<Rightarrow> string \<Rightarrow> 'r pm_result"
  assumes step_consuming: "consuming left rec \<Longrightarrow> consuming left (step rec)"
    and step_local: "consuming left rec \<Longrightarrow>
      (\<And>c' s'. need c' s' < need c s \<Longrightarrow> rec c' s' = rec' c' s') \<Longrightarrow> step rec c s = step rec' c s"
    and step_returns: "consuming left rec \<Longrightarrow>
      (\<And>c' s'. need c' s' < need c s \<Longrightarrow> returns (rec c' s')) \<Longrightarrow> returns (step rec c s)"
    and run_zero: "run 0 c s = Inl OutOfFuel"
    and run_Suc: "run (Suc n) = step (run n)"
begin

lemma run_consuming: "consuming left (run n)"
proof (induction n)
  case 0
  show ?case by (simp add: consuming_def run_zero)
next
  case (Suc n)
  then show ?case unfolding run_Suc by (rule step_consuming)
qed

lemma run_stable: "need c s \<le> n \<Longrightarrow> need c s \<le> m \<Longrightarrow> run n c s = run m c s"
proof (induction "need c s" arbitrary: c s n m rule: less_induct)
  case less
  obtain n' m' where nm: "n = Suc n'" "m = Suc m'"
    using less.prems need_pos [of c s] by (metis Suc_pred' less_le_trans)
  show ?case
    unfolding nm run_Suc
  proof (rule step_local [OF run_consuming])
    fix c' :: "'v grammar_call" and s'
    assume "need c' s' < need c s"
    with less.prems show "run n' c' s' = run m' c' s'"
      by (intro less.hyps) (simp_all add: nm)
  qed
qed

lemma run_returns: "need c s \<le> n \<Longrightarrow> returns (run n c s)"
proof (induction "need c s" arbitrary: c s n rule: less_induct)
  case less
  obtain n' where n: "n = Suc n'"
    using less.prems need_pos [of c s] by (metis Suc_pred' less_le_trans)
  show ?case
    unfolding n run_Suc
  proof (rule step_returns [OF run_consuming])
    fix c' :: "'v grammar_call" and s'
    assume "need c' s' < need c s"
    with less.prems show "returns (run n' c' s')"
      by (intro less.hyps) (simp_all add: n)
  qed
qed

text \<open>With enough fuel everywhere the recursion satisfies its own equation.\<close>

lemma run_unfold: "run (need c s) c s = step (\<lambda>c s. run (need c s) c s) c s"
proof -
  have "run (need c s) c s = run (Suc (need c s)) c s"
    by (rule run_stable) simp_all
  also have "\<dots> = step (run (need c s)) c s"
    by (simp add: run_Suc)
  also have "\<dots> = step (\<lambda>c s. run (need c s) c s) c s"
    by (rule step_local [OF run_consuming]) (auto intro: run_stable)
  finally show ?thesis .
qed

end

subsection \<open>Tokens\<close>

lemma skip_ws_length: "length (skip_ws s) \<le> length s"
  by (simp add: skip_ws_def length_dropWhile_le)

lemma skip_ws_Cons_length: "skip_ws s = c # r \<Longrightarrow> length r < length s"
  using skip_ws_length [of s] by simp

lemma read_identifier_length: "read_identifier s = Some (x, q) \<Longrightarrow> length q < length s"
  by (auto simp: read_identifier_def less_Suc_eq_le length_dropWhile_le split: list.splits if_splits)

lemma read_number_length:
  assumes "read_number s = Some (v, q)"
  shows "length q < length s"
proof -
  let ?r = "dropWhile is_ascii_digit s"
  have len: "length (takeWhile is_ascii_digit s) + length ?r = length s"
    by (metis length_append takeWhile_dropWhile_id)
  show ?thesis
  proof (cases "\<exists>cs. ?r = CHR ''.'' # cs")
    case True
    then obtain cs where r: "?r = CHR ''.'' # cs" by blast
    have "length q \<le> length cs"
      using assms r by (auto simp: read_number_def Let_def length_dropWhile_le)
    with r len show ?thesis by simp
  next
    case False
    with assms have "q = ?r" "takeWhile is_ascii_digit s \<noteq> []"
      by (auto simp: read_number_def Let_def parse_f64_def split: list.splits if_splits)
    then have "0 < length (takeWhile is_ascii_digit s)" by blast
    then have "length ?r < length s" using len by linarith
    with \<open>q = ?r\<close> show ?thesis by simp
  qed
qed

lemmas token_lengths = skip_ws_Cons_length read_identifier_length read_number_length

lemma close_paren_Inr:
  "close_paren input v s = Inr (w, q) \<longleftrightarrow> w = v \<and> skip_ws s = CHR '')'' # q"
  by (auto simp: close_paren_def split: list.splits)

lemma close_paren_returns [simp]: "returns (close_paren input v s)"
  by (simp add: close_paren_def split: list.splits)

subsection \<open>The two interpretations\<close>

definition parse_step ::
  "string \<Rightarrow> (unit grammar_call \<Rightarrow> string \<Rightarrow> string pm_result) \<Rightarrow> unit grammar_call \<Rightarrow> string
     \<Rightarrow> string pm_result" where
  "parse_step input rec c s =
     (case c of
        Expression \<Rightarrow> parse_expression rec s
      | MoreTerms _ \<Rightarrow> parse_more_terms rec s
      | Term \<Rightarrow> parse_term rec s
      | MoreFactors _ \<Rightarrow> parse_more_factors rec s
      | Factor \<Rightarrow> parse_factor rec input s)"

definition evaluate_step ::
  "string \<Rightarrow> formula_env \<Rightarrow> eval_call \<Rightarrow> eval_call" where
  "evaluate_step input vars rec c s =
     (case c of
        Expression \<Rightarrow> evaluate_expression rec s
      | MoreTerms v \<Rightarrow> evaluate_more_terms rec v s
      | Term \<Rightarrow> evaluate_term rec s
      | MoreFactors v \<Rightarrow> evaluate_more_factors rec v s
      | Factor \<Rightarrow> evaluate_factor rec input vars s)"

lemmas parse_step_defs = parse_step_def parse_expression_def parse_more_terms_def parse_term_def
  parse_more_factors_def parse_factor_def

lemmas evaluate_step_defs = evaluate_step_def evaluate_expression_def evaluate_more_terms_def
  evaluate_term_def evaluate_more_factors_def evaluate_factor_def

text \<open>Rules that follow the structure of a step.\<close>

definition shorter :: "('r \<Rightarrow> string) \<Rightarrow> nat \<Rightarrow> string \<Rightarrow> 'r pm_result \<Rightarrow> bool" where
  "shorter left d s r \<longleftrightarrow> (\<forall>x. r = Inr x \<longrightarrow> length (left x) + d \<le> length s)"

lemma consuming_shorter:
  "consuming left rec \<longleftrightarrow> (\<forall>c s. shorter left (if consumes_more c then 1 else 0) s (rec c s))"
  by (force simp: consuming_def shorter_def)

lemma shorter_Inl: "shorter left d s (Inl e)"
  by (simp add: shorter_def)

lemma shorter_Inr: "length (left x) + d \<le> length s \<Longrightarrow> shorter left d s (Inr x)"
  by (simp add: shorter_def)

lemma shorter_bind:
  "(\<And>x. r = Inr x \<Longrightarrow> shorter left d s (k x)) \<Longrightarrow> shorter left d s (bind_outcome r k)"
  by (cases r) (auto simp: shorter_def)

lemma shorter_if:
  "(b \<Longrightarrow> shorter left d s x) \<Longrightarrow> (\<not> b \<Longrightarrow> shorter left d s y) \<Longrightarrow> shorter left d s (if b then x else y)"
  by simp

lemma shorter_list:
  "(xs = [] \<Longrightarrow> shorter left d s a) \<Longrightarrow> (\<And>c r. xs = c # r \<Longrightarrow> shorter left d s (f c r)) \<Longrightarrow>
     shorter left d s (case xs of [] \<Rightarrow> a | c # r \<Rightarrow> f c r)"
  by (cases xs) auto

lemma shorter_option:
  "(v = None \<Longrightarrow> shorter left d s a) \<Longrightarrow> (\<And>x. v = Some x \<Longrightarrow> shorter left d s (f x)) \<Longrightarrow>
     shorter left d s (case v of None \<Rightarrow> a | Some x \<Rightarrow> f x)"
  by (cases v) auto

lemma shorter_pair:
  "(\<And>x y. p = (x, y) \<Longrightarrow> shorter left d s (f x y)) \<Longrightarrow> shorter left d s (case p of (x, y) \<Rightarrow> f x y)"
  by (cases p) auto

lemmas shorter_intros = shorter_Inl shorter_bind shorter_if shorter_list shorter_option shorter_pair

lemma shorter_call:
  assumes "consuming left rec" "length s' < length s"
  shows "shorter left 1 s (rec c s')"
  using consumingD(1) [OF assms(1)] assms(2) by (fastforce simp: shorter_def)

lemma shorter_call_weak:
  assumes "consuming left rec" "length s' \<le> length s"
  shows "shorter left 0 s (rec c s')"
  using consumingD(1) [OF assms(1)] assms(2) by (fastforce simp: shorter_def)

lemma parse_step_consuming:
  assumes rec: "consuming (\<lambda>r. r) rec"
  shows "consuming (\<lambda>r. r) (parse_step input rec)"
proof -
  note D = consumingD [OF rec]
  have "shorter (\<lambda>r. r) 1 s (parse_expression rec s)" for s
    unfolding parse_expression_def
    by (intro shorter_intros shorter_call [OF rec]) (auto dest: D)
  moreover have "shorter (\<lambda>r. r) 1 s (parse_term rec s)" for s
    unfolding parse_term_def
    by (intro shorter_intros shorter_call [OF rec]) (auto dest: D)
  moreover have "shorter (\<lambda>r. r) 0 s (parse_more_terms rec s)" for s
    unfolding parse_more_terms_def
    by (intro shorter_intros shorter_call_weak [OF rec] shorter_Inr)
      (auto dest!: D(1) skip_ws_Cons_length)
  moreover have "shorter (\<lambda>r. r) 0 s (parse_more_factors rec s)" for s
    unfolding parse_more_factors_def
    by (intro shorter_intros shorter_call_weak [OF rec] shorter_Inr)
      (auto dest!: D(1) skip_ws_Cons_length)
  moreover have "shorter (\<lambda>r. r) 1 s (parse_factor rec input s)" for s
    unfolding parse_factor_def
    by (intro shorter_intros shorter_call [OF rec] shorter_Inr)
      (auto simp: close_paren_Inr dest!: D(1) token_lengths)
  ultimately show ?thesis
    unfolding consuming_shorter parse_step_def by (auto split: grammar_call.split)
qed

lemma case_option_cong:
  "v = w \<Longrightarrow> (w = None \<Longrightarrow> a = a') \<Longrightarrow> (\<And>x. w = Some x \<Longrightarrow> f x = f' x) \<Longrightarrow>
     (case v of None \<Rightarrow> a | Some x \<Rightarrow> f x) = (case w of None \<Rightarrow> a' | Some x \<Rightarrow> f' x)"
  by (cases w) auto

lemma case_pair_cong:
  "(\<And>x y. p = (x, y) \<Longrightarrow> f x y = f' x y) \<Longrightarrow> (case p of (x, y) \<Rightarrow> f x y) = (case p of (x, y) \<Rightarrow> f' x y)"
  by (cases p) auto

lemma branch_cong:
  "(b \<Longrightarrow> x = x') \<Longrightarrow> (\<not> b \<Longrightarrow> y = y') \<Longrightarrow> (if b then x else y) = (if b then x' else y')"
  by simp

lemma call_list_cong:
  "(\<And>c r. xs = c # r \<Longrightarrow> f c r = f' c r) \<Longrightarrow>
     (case xs of [] \<Rightarrow> a | c # r \<Rightarrow> f c r) = (case xs of [] \<Rightarrow> a | c # r \<Rightarrow> f' c r)"
  by (cases xs) auto

lemmas local_intros = bind_outcome_cong branch_cong call_list_cong case_pair_cong

lemma parse_step_local:
  assumes rec: "consuming (\<lambda>r. r) rec"
    and eq: "\<And>c' s'. need c' s' < need c s \<Longrightarrow> rec c' s' = rec' c' s'"
  shows "parse_step input rec c s = parse_step input rec' c s"
proof -
  have D: "length r < length s" if "rec' c s = Inr r" "rec c s = rec' c s" "consumes_more c" for c s r
    using consumingD [OF rec] that by metis
  show ?thesis
  proof (cases c)
    case Expression
    then show ?thesis
      unfolding parse_step_def parse_expression_def Expression grammar_call.case
      by (intro local_intros eq) (auto dest!: D simp: eq Expression)
  next
    case (MoreTerms v)
    then show ?thesis
      unfolding parse_step_def parse_more_terms_def MoreTerms grammar_call.case
      by (intro local_intros eq refl) (auto dest!: skip_ws_Cons_length D simp: eq MoreTerms)
  next
    case Term
    then show ?thesis
      unfolding parse_step_def parse_term_def Term grammar_call.case
      by (intro local_intros eq) (auto dest!: D simp: eq Term)
  next
    case (MoreFactors v)
    then show ?thesis
      unfolding parse_step_def parse_more_factors_def MoreFactors grammar_call.case
      by (intro local_intros eq refl) (auto dest!: skip_ws_Cons_length D simp: eq MoreFactors)
  next
    case Factor
    then show ?thesis
      unfolding parse_step_def parse_factor_def Factor grammar_call.case
      by (intro local_intros eq refl) (auto dest!: skip_ws_Cons_length simp: eq Factor)
  qed
qed

lemma returns_if: "(b \<Longrightarrow> returns x) \<Longrightarrow> (\<not> b \<Longrightarrow> returns y) \<Longrightarrow> returns (if b then x else y)"
  by simp

lemma returns_list:
  "(xs = [] \<Longrightarrow> returns a) \<Longrightarrow> (\<And>c r. xs = c # r \<Longrightarrow> returns (f c r)) \<Longrightarrow>
     returns (case xs of [] \<Rightarrow> a | c # r \<Rightarrow> f c r)"
  by (cases xs) auto

lemma returns_option:
  "(v = None \<Longrightarrow> returns a) \<Longrightarrow> (\<And>x. v = Some x \<Longrightarrow> returns (f x)) \<Longrightarrow>
     returns (case v of None \<Rightarrow> a | Some x \<Rightarrow> f x)"
  by (cases v) auto

lemma returns_pair: "(\<And>x y. p = (x, y) \<Longrightarrow> returns (f x y)) \<Longrightarrow> returns (case p of (x, y) \<Rightarrow> f x y)"
  by (cases p) auto

lemmas returns_intros = returns_bind returns_if returns_list returns_option returns_pair
  returns_simps(1,4) close_paren_returns

lemma parse_step_returns:
  assumes rec: "consuming (\<lambda>r. r) rec"
    and ret: "\<And>c' s'. need c' s' < need c s \<Longrightarrow> returns (rec c' s')"
  shows "returns (parse_step input rec c s)"
proof -
  note D = consumingD(2) [OF rec]
  show ?thesis
  proof (cases c)
    case Expression
    show ?thesis
      unfolding parse_step_def parse_expression_def Expression grammar_call.case
      by (intro returns_intros ret) (auto simp: Expression dest!: D)
  next
    case (MoreTerms v)
    show ?thesis
      unfolding parse_step_def parse_more_terms_def MoreTerms grammar_call.case
      by (intro returns_intros ret) (auto simp: MoreTerms dest!: skip_ws_Cons_length D)
  next
    case Term
    show ?thesis
      unfolding parse_step_def parse_term_def Term grammar_call.case
      by (intro returns_intros ret) (auto simp: Term dest!: D)
  next
    case (MoreFactors v)
    show ?thesis
      unfolding parse_step_def parse_more_factors_def MoreFactors grammar_call.case
      by (intro returns_intros ret) (auto simp: MoreFactors dest!: skip_ws_Cons_length D)
  next
    case Factor
    show ?thesis
      unfolding parse_step_def parse_factor_def Factor grammar_call.case
      by (intro returns_intros ret) (auto simp: Factor dest!: skip_ws_Cons_length)
  qed
qed

interpretation validator: descent "parse_step input" "\<lambda>r. r" "\<lambda>n. parse_run n input" for input
proof
  fix n
  show "parse_run (Suc n) input = parse_step input (parse_run n input)"
    by (simp add: parse_step_def fun_eq_iff)
qed (fact parse_step_consuming, fact parse_step_local, fact parse_step_returns, simp)

lemma evaluate_step_consuming:
  assumes rec: "consuming snd rec"
  shows "consuming snd (evaluate_step input vars rec)"
proof -
  note D = consumingD [OF rec]
  have "shorter snd 1 s (evaluate_expression rec s)" for s
    unfolding evaluate_expression_def
    by (intro shorter_intros shorter_call [OF rec]) (auto dest: D)
  moreover have "shorter snd 1 s (evaluate_term rec s)" for s
    unfolding evaluate_term_def
    by (intro shorter_intros shorter_call [OF rec]) (auto dest: D)
  moreover have "shorter snd 0 s (evaluate_more_terms rec v s)" for v s
    unfolding evaluate_more_terms_def
    by (intro shorter_intros shorter_call_weak [OF rec] shorter_Inr)
      (auto dest!: D(1) skip_ws_Cons_length)
  moreover have "shorter snd 0 s (evaluate_more_factors rec v s)" for v s
    unfolding evaluate_more_factors_def
    by (intro shorter_intros shorter_call_weak [OF rec] shorter_Inr)
      (auto dest!: D(1) skip_ws_Cons_length)
  moreover have "shorter snd 1 s (evaluate_factor rec input vars s)" for s
    unfolding evaluate_factor_def close_paren_def
    by (intro shorter_intros shorter_call [OF rec] shorter_Inr)
      (auto dest!: D(1) token_lengths)
  ultimately show ?thesis
    unfolding consuming_shorter evaluate_step_def by (auto split: grammar_call.split)
qed

lemma evaluate_step_local:
  assumes rec: "consuming snd rec"
    and eq: "\<And>c' s'. need c' s' < need c s \<Longrightarrow> rec c' s' = rec' c' s'"
  shows "evaluate_step input vars rec c s = evaluate_step input vars rec' c s"
proof -
  have D: "length r < length s" if "rec' c s = Inr (v, r)" "rec c s = rec' c s" "consumes_more c"
    for c s v r
    using consumingD [OF rec] that by (metis snd_conv)
  show ?thesis
  proof (cases c)
    case Expression
    then show ?thesis
      unfolding evaluate_step_def evaluate_expression_def Expression grammar_call.case
      by (intro local_intros eq) (auto dest!: D simp: eq Expression)
  next
    case (MoreTerms v)
    then show ?thesis
      unfolding evaluate_step_def evaluate_more_terms_def MoreTerms grammar_call.case
      by (intro local_intros eq refl) (auto dest!: skip_ws_Cons_length D simp: eq MoreTerms)
  next
    case Term
    then show ?thesis
      unfolding evaluate_step_def evaluate_term_def Term grammar_call.case
      by (intro local_intros eq) (auto dest!: D simp: eq Term)
  next
    case (MoreFactors v)
    then show ?thesis
      unfolding evaluate_step_def evaluate_more_factors_def MoreFactors grammar_call.case
      by (intro local_intros eq refl) (auto dest!: skip_ws_Cons_length D simp: eq MoreFactors)
  next
    case Factor
    then show ?thesis
      unfolding evaluate_step_def evaluate_factor_def Factor grammar_call.case
      by (intro local_intros eq refl) (auto dest!: skip_ws_Cons_length simp: eq Factor)
  qed
qed

lemma evaluate_step_returns:
  assumes rec: "consuming snd rec"
    and ret: "\<And>c' s'. need c' s' < need c s \<Longrightarrow> returns (rec c' s')"
  shows "returns (evaluate_step input vars rec c s)"
proof -
  note D = consumingD(2) [OF rec]
  show ?thesis
  proof (cases c)
    case Expression
    show ?thesis
      unfolding evaluate_step_def evaluate_expression_def Expression grammar_call.case
      by (intro returns_intros ret) (auto simp: Expression dest!: D)
  next
    case (MoreTerms v)
    show ?thesis
      unfolding evaluate_step_def evaluate_more_terms_def MoreTerms grammar_call.case
      by (intro returns_intros ret) (auto simp: MoreTerms dest!: skip_ws_Cons_length D)
  next
    case Term
    show ?thesis
      unfolding evaluate_step_def evaluate_term_def Term grammar_call.case
      by (intro returns_intros ret) (auto simp: Term dest!: D)
  next
    case (MoreFactors v)
    show ?thesis
      unfolding evaluate_step_def evaluate_more_factors_def MoreFactors grammar_call.case
      by (intro returns_intros ret) (auto simp: MoreFactors dest!: skip_ws_Cons_length D)
  next
    case Factor
    show ?thesis
      unfolding evaluate_step_def evaluate_factor_def Factor grammar_call.case
      by (intro returns_intros ret) (auto simp: Factor dest!: skip_ws_Cons_length)
  qed
qed

interpretation evaluator: descent "evaluate_step input vars" snd "\<lambda>n. evaluate_run n input vars"
  for input vars
proof
  fix n
  show "evaluate_run (Suc n) input vars = evaluate_step input vars (evaluate_run n input vars)"
    by (simp add: evaluate_step_def fun_eq_iff)
qed (fact evaluate_step_consuming, fact evaluate_step_local, fact evaluate_step_returns, simp)

lemma formula_fuel_need: "formula_fuel s = need Expression s"
  by (simp add: formula_fuel_def)

lemma validate_formula_returns: "returns (validate_formula_expression e)"
  unfolding validate_formula_expression_def
  by (intro returns_intros validator.run_returns) (simp_all add: formula_fuel_def)

lemma evaluate_formula_returns: "returns (evaluate_formula e vars)"
  unfolding evaluate_formula_def
  by (intro returns_intros evaluator.run_returns) (simp_all add: formula_fuel_def)

section \<open>Validation and evaluation\<close>

text \<open>
  The evaluator takes the same path through the text as the validator.  It may stop earlier, at
  an unbound variable or a division by zero; it has no other error of its own.
\<close>

definition tracks :: "formula_env \<Rightarrow> string pm_result \<Rightarrow> (f64 \<times> string) pm_result \<Rightarrow> bool" where
  "tracks vars p e \<longleftrightarrow>
     (case e of
        Inr (v, s) \<Rightarrow> p = Inr s
      | Inl (Err (UnknownFormulaVariable x)) \<Rightarrow> bt_get vars x = None
      | Inl (Err FormulaDivisionByZero) \<Rightarrow> True
      | Inl f \<Rightarrow> p = Inl f)"

lemma tracks_simps [simp]:
  "tracks vars p (Inr (v, s)) \<longleftrightarrow> p = Inr s"
  "tracks vars p (Inl (Err (UnknownFormulaVariable x))) \<longleftrightarrow> bt_get vars x = None"
  "tracks vars p (Inl (Err FormulaDivisionByZero))"
  "tracks vars p (Inl (Err (InvalidFormulaExpression y))) \<longleftrightarrow> p = Inl (Err (InvalidFormulaExpression y))"
  "tracks vars p (Inl OutOfFuel) \<longleftrightarrow> p = Inl OutOfFuel"
  by (simp_all add: tracks_def)

lemma tracks_bind:
  assumes "tracks vars p e" and "\<And>v s. e = Inr (v, s) \<Longrightarrow> tracks vars (f s) (g v s)"
  shows "tracks vars (bind_outcome p f) (bind_outcome e (\<lambda>(v, s). g v s))"
proof (cases e)
  case (Inr r)
  with assms show ?thesis by (cases r) auto
next
  case (Inl x)
  with assms(1) show ?thesis
    by (auto simp: tracks_def split: stop.splits production_map_error.splits)
qed

lemma tracks_if:
  "(b \<Longrightarrow> tracks vars p e) \<Longrightarrow> (\<not> b \<Longrightarrow> tracks vars q f) \<Longrightarrow>
     tracks vars (if b then p else q) (if b then e else f)"
  by simp

lemma tracks_list:
  "(xs = [] \<Longrightarrow> tracks vars p e) \<Longrightarrow> (\<And>c r. xs = c # r \<Longrightarrow> tracks vars (q c r) (f c r)) \<Longrightarrow>
     tracks vars (case xs of [] \<Rightarrow> p | c # r \<Rightarrow> q c r) (case xs of [] \<Rightarrow> e | c # r \<Rightarrow> f c r)"
  by (cases xs) auto

lemma tracks_or:
  "(a \<Longrightarrow> tracks vars p e) \<Longrightarrow> (\<not> a \<Longrightarrow> b \<Longrightarrow> tracks vars p f) \<Longrightarrow>
     (\<not> a \<Longrightarrow> \<not> b \<Longrightarrow> tracks vars q g) \<Longrightarrow>
     tracks vars (if a \<or> b then p else q) (if a then e else if b then f else g)"
  by simp

lemma tracks_neg:
  "tracks vars p e \<Longrightarrow> tracks vars p (bind_outcome e (\<lambda>(v, s). Inr (f64_neg v, s)))"
  by (cases e) (auto simp: tracks_def split: prod.splits)

lemma tracks_paren:
  "tracks vars (bind_outcome (close_paren input () s) (\<lambda>(_, q). Inr q)) (close_paren input v s)"
  by (auto simp: close_paren_def split: list.splits)

fun erased :: "f64 grammar_call \<Rightarrow> unit grammar_call" where
  "erased Expression = Expression"
| "erased (MoreTerms v) = MoreTerms ()"
| "erased Term = Term"
| "erased (MoreFactors v) = MoreFactors ()"
| "erased Factor = Factor"

lemma run_tracks: "tracks vars (parse_run n input (erased c) s) (evaluate_run n input vars c s)"
proof (induction n arbitrary: c s)
  case 0
  then show ?case by simp
next
  case (Suc n)
  note IH = Suc.IH [of Term, simplified] Suc.IH [of "MoreTerms v" for v, simplified]
    Suc.IH [of Factor, simplified] Suc.IH [of "MoreFactors v" for v, simplified]
    Suc.IH [of Expression, simplified]
  show ?case
  proof (cases c)
    case Expression
    then show ?thesis
      by (simp add: parse_expression_def evaluate_expression_def) (intro tracks_bind IH)
  next
    case (MoreTerms v)
    then show ?thesis
      unfolding erased.simps parse_run.simps evaluate_run.simps grammar_call.case MoreTerms
        parse_more_terms_def evaluate_more_terms_def
      by (intro tracks_list tracks_or tracks_bind IH) simp_all
  next
    case Term
    then show ?thesis
      by (simp add: parse_term_def evaluate_term_def) (intro tracks_bind IH)
  next
    case (MoreFactors v)
    have quotient: "tracks vars (bind_outcome (parse_run n input Factor r) (parse_run n input (MoreFactors ())))
        (bind_outcome (evaluate_run n input vars Factor r)
          (\<lambda>(w, s). if f64_eq w f64_zero then Inl (Err FormulaDivisionByZero)
             else evaluate_run n input vars (MoreFactors (f64_div v w)) s))" for r
      by (intro tracks_bind IH) (simp add: IH)
    from MoreFactors show ?thesis
      unfolding erased.simps parse_run.simps evaluate_run.simps grammar_call.case MoreFactors
        parse_more_factors_def evaluate_more_factors_def
      by (intro tracks_list tracks_or quotient tracks_bind IH) simp_all
  next
    case Factor
    then show ?thesis
      unfolding erased.simps parse_run.simps evaluate_run.simps grammar_call.case Factor
        parse_factor_def evaluate_factor_def
      by (intro tracks_list tracks_if tracks_neg tracks_bind tracks_paren IH)
        (auto split: option.splits)
  qed
qed

lemma validate_tracks:
  "tracks vars (bind_outcome (validate_formula_expression e) (\<lambda>_. Inr []))
     (bind_outcome (evaluate_formula e vars) (\<lambda>v. Inr (v, [])))"
proof -
  have "tracks vars (parse_run (formula_fuel e) e Expression e)
      (evaluate_run (formula_fuel e) e vars Expression e)"
    using run_tracks [of vars "formula_fuel e" e Expression e] by simp
  then show ?thesis
    unfolding validate_formula_expression_def evaluate_formula_def
    by (cases "evaluate_run (formula_fuel e) e vars Expression e")
      (auto simp: tracks_def split: stop.splits production_map_error.splits)
qed

section \<open>The errors of evaluation\<close>

fun formula_stop :: "production_map_error stop \<Rightarrow> bool" where
  "formula_stop OutOfFuel = True"
| "formula_stop (Err (UnknownFormulaVariable x)) = True"
| "formula_stop (Err (InvalidFormulaExpression t)) = True"
| "formula_stop (Err FormulaDivisionByZero) = True"
| "formula_stop _ = False"

lemma evaluate_run_fails: "fails_only formula_stop (evaluate_run n input vars c s)"
proof (induction n arbitrary: c s)
  case 0
  then show ?case by (simp add: fails_only_def)
next
  case (Suc n)
  show ?case
    unfolding evaluate_run.simps evaluate_expression_def evaluate_more_terms_def evaluate_term_def
      evaluate_more_factors_def evaluate_factor_def close_paren_def
    by (cases c; simp only: grammar_call.case; intro fails_only_intros Suc.IH fails_only_Inl) simp_all
qed

text \<open>The errors a formula can raise when it is evaluated.\<close>

definition formula_error :: "production_map_error \<Rightarrow> bool" where
  "formula_error e \<longleftrightarrow> (\<exists>x. e = UnknownFormulaVariable x) \<or> e = FormulaDivisionByZero
     \<or> (\<exists>t. e = InvalidFormulaExpression t)"

lemma evaluate_formula_fails:
  assumes "evaluate_formula e vars = Inl x"
  shows "\<exists>err. x = Err err \<and> formula_error err"
proof -
  have "fails_only formula_stop (evaluate_formula e vars)"
    unfolding evaluate_formula_def
    by (intro fails_only_intros evaluate_run_fails fails_only_Inl) simp
  then have "formula_stop x"
    using assms by (simp add: fails_only_def)
  moreover have "x \<noteq> OutOfFuel"
    using evaluate_formula_returns [of e vars] assms by auto
  ultimately show ?thesis
    by (cases x rule: formula_stop.cases) (auto simp: formula_error_def)
qed

end
