(* ===== verification/Formula_Meaning.thy ===== *)
theory Formula_Meaning
  imports Formula_Laws
begin

text \<open>
  A formula means what its syntax tree means, with the usual precedence and associativity, and a
  condition compares the values of its two sides.
\<close>

section \<open>The meaning of a formula\<close>

text \<open>
  Syntax trees, their value, and how they are written: sums and products associate to the left,
  products bind tighter than sums, and parentheses are put only where they are needed.
\<close>

datatype syntax_tree =
    Number string string  \<comment> \<open>digits before and after the point\<close>
  | Variable string
  | Negated syntax_tree
  | Sum syntax_tree syntax_tree
  | Difference syntax_tree syntax_tree
  | Product syntax_tree syntax_tree
  | Quotient syntax_tree syntax_tree

fun tree_value :: "formula_env \<Rightarrow> syntax_tree \<Rightarrow> f64 pm_result" where
  "tree_value vars (Number w f) = Inr (f64_of_decimal (digits_value (w @ f)) (length f))"
| "tree_value vars (Variable x) = ok_or (bt_get vars x) (UnknownFormulaVariable x)"
| "tree_value vars (Negated a) = bind_outcome (tree_value vars a) (\<lambda>v. Inr (f64_neg v))"
| "tree_value vars (Sum a b) =
     bind_outcome (tree_value vars a) (\<lambda>v. bind_outcome (tree_value vars b) (\<lambda>w. Inr (f64_add v w)))"
| "tree_value vars (Difference a b) =
     bind_outcome (tree_value vars a) (\<lambda>v. bind_outcome (tree_value vars b) (\<lambda>w. Inr (f64_sub v w)))"
| "tree_value vars (Product a b) =
     bind_outcome (tree_value vars a) (\<lambda>v. bind_outcome (tree_value vars b) (\<lambda>w. Inr (f64_mul v w)))"
| "tree_value vars (Quotient a b) =
     bind_outcome (tree_value vars a) (\<lambda>v. bind_outcome (tree_value vars b)
       (\<lambda>w. if f64_eq w f64_zero then Inl (Err FormulaDivisionByZero) else Inr (f64_div v w)))"

fun well_written :: "syntax_tree \<Rightarrow> bool" where
  "well_written (Number w f) \<longleftrightarrow> w \<noteq> [] \<and> list_all is_ascii_digit (w @ f)"
| "well_written (Variable x) \<longleftrightarrow> is_identifier x"
| "well_written (Negated a) \<longleftrightarrow> well_written a"
| "well_written (Sum a b) \<longleftrightarrow> well_written a \<and> well_written b"
| "well_written (Difference a b) \<longleftrightarrow> well_written a \<and> well_written b"
| "well_written (Product a b) \<longleftrightarrow> well_written a \<and> well_written b"
| "well_written (Quotient a b) \<longleftrightarrow> well_written a \<and> well_written b"

fun is_sum :: "syntax_tree \<Rightarrow> bool" where
  "is_sum (Sum a b) = True" | "is_sum (Difference a b) = True" | "is_sum _ = False"

fun is_product :: "syntax_tree \<Rightarrow> bool" where
  "is_product (Product a b) = True" | "is_product (Quotient a b) = True" | "is_product _ = False"

definition in_parens :: "bool \<Rightarrow> string \<Rightarrow> string" where
  "in_parens b s = (if b then ''('' @ s @ '')'' else s)"

fun written :: "syntax_tree \<Rightarrow> string" where
  "written (Number w f) = w @ (if f = [] then [] else CHR ''.'' # f)"
| "written (Variable x) = x"
| "written (Negated a) = CHR ''-'' # in_parens (is_sum a \<or> is_product a) (written a)"
| "written (Sum a b) = written a @ '' + '' @ in_parens (is_sum b) (written b)"
| "written (Difference a b) = written a @ '' - '' @ in_parens (is_sum b) (written b)"
| "written (Product a b) =
     in_parens (is_sum a) (written a) @ '' * '' @ in_parens (is_sum b \<or> is_product b) (written b)"
| "written (Quotient a b) =
     in_parens (is_sum a) (written a) @ '' / '' @ in_parens (is_sum b \<or> is_product b) (written b)"

definition evaluated :: "string \<Rightarrow> formula_env \<Rightarrow> eval_call" where
  "evaluated input vars c s = evaluate_run (need c s) input vars c s"

lemma evaluated_unfold: "evaluated input vars c s = evaluate_step input vars (evaluated input vars) c s"
proof -
  have "evaluated input vars = (\<lambda>c s. evaluate_run (need c s) input vars c s)"
    by (simp add: evaluated_def fun_eq_iff)
  then show ?thesis
    using evaluator.run_unfold [of c s input vars] by simp
qed

lemma evaluated_Expression:
  "evaluated input vars Expression s =
     bind_outcome (evaluated input vars Term s) (\<lambda>(v, s). evaluated input vars (MoreTerms v) s)"
  by (subst evaluated_unfold) (simp add: evaluate_step_def evaluate_expression_def)

lemma evaluated_Term:
  "evaluated input vars Term s =
     bind_outcome (evaluated input vars Factor s) (\<lambda>(v, s). evaluated input vars (MoreFactors v) s)"
  by (subst evaluated_unfold) (simp add: evaluate_step_def evaluate_term_def)

lemma evaluated_MoreTerms:
  "evaluated input vars (MoreTerms v) s = evaluate_more_terms (evaluated input vars) v s"
  by (subst evaluated_unfold) (simp add: evaluate_step_def)

lemma evaluated_MoreFactors:
  "evaluated input vars (MoreFactors v) s = evaluate_more_factors (evaluated input vars) v s"
  by (subst evaluated_unfold) (simp add: evaluate_step_def)

lemma evaluated_Factor:
  "evaluated input vars Factor s = evaluate_factor (evaluated input vars) input vars s"
  by (subst evaluated_unfold) (simp add: evaluate_step_def)

lemma skip_ws_space [simp]: "skip_ws (CHR '' '' # s) = skip_ws s"
  by (simp add: skip_ws_def is_ascii_whitespace_def)

lemma evaluated_Factor_space: "evaluated input vars Factor (CHR '' '' # s) = evaluated input vars Factor s"
  by (simp add: evaluated_Factor evaluate_factor_def)

lemma evaluated_Term_space: "evaluated input vars Term (CHR '' '' # s) = evaluated input vars Term s"
  by (simp add: evaluated_Term evaluated_Factor_space)

text \<open>What may follow a factor, and what may follow a term.\<close>

definition ends_token :: "string \<Rightarrow> bool" where
  "ends_token rest = (case rest of [] \<Rightarrow> True
     | c # _ \<Rightarrow> \<not> ident_char c \<and> \<not> is_ascii_digit c \<and> c \<noteq> CHR ''.'')"

definition ends_term :: "string \<Rightarrow> bool" where
  "ends_term rest = (case skip_ws rest of [] \<Rightarrow> True | c # _ \<Rightarrow> c \<noteq> CHR ''*'' \<and> c \<noteq> CHR ''/'')"

lemma takeWhile_token: "list_all P xs \<Longrightarrow> (case rest of [] \<Rightarrow> True | c # _ \<Rightarrow> \<not> P c) \<Longrightarrow>
    takeWhile P (xs @ rest) = xs \<and> dropWhile P (xs @ rest) = rest"
  by (induction xs) (auto split: list.splits)

lemma read_identifier_written:
  assumes "is_identifier x" "ends_token rest"
  shows "read_identifier (x @ rest) = Some (x, rest)"
proof -
  from assms(1) obtain c cs where x: "x = c # cs" "ident_start c" "list_all ident_char cs"
    by (auto simp: is_identifier_def split: list.splits)
  have "takeWhile ident_char (cs @ rest) = cs \<and> dropWhile ident_char (cs @ rest) = rest"
    using x(3) assms(2) by (intro takeWhile_token) (auto simp: ends_token_def split: list.splits)
  with x show ?thesis
    by (simp add: read_identifier_def)
qed

lemma read_number_written:
  assumes "w \<noteq> []" "list_all is_ascii_digit (w @ f)" "ends_token rest"
  shows "read_number ((w @ (if f = [] then [] else CHR ''.'' # f)) @ rest) =
    Some (f64_of_decimal (digits_value (w @ f)) (length f), rest)"
proof (cases "f = []")
  case True
  have "takeWhile is_ascii_digit (w @ rest) = w \<and> dropWhile is_ascii_digit (w @ rest) = rest"
    using assms by (intro takeWhile_token) (auto simp: ends_token_def split: list.splits)
  with True assms show ?thesis
    by (auto simp: read_number_def parse_f64_def ends_token_def split: list.splits)
next
  case False
  have "takeWhile is_ascii_digit (w @ CHR ''.'' # f @ rest) = w \<and>
      dropWhile is_ascii_digit (w @ CHR ''.'' # f @ rest) = CHR ''.'' # f @ rest"
    using assms by (intro takeWhile_token) (auto simp: is_ascii_digit_def)
  moreover have "takeWhile is_ascii_digit (f @ rest) = f \<and> dropWhile is_ascii_digit (f @ rest) = rest"
    using assms by (intro takeWhile_token) (auto simp: ends_token_def split: list.splits)
  ultimately show ?thesis
    using False assms by (simp add: read_number_def parse_f64_def)
qed

lemma skip_ws_idem [simp]: "skip_ws (skip_ws s) = skip_ws s"
  by (simp add: skip_ws_def)

lemma skip_ws_plain [simp]: "\<not> is_ascii_whitespace c \<Longrightarrow> skip_ws (c # s) = c # s"
  by (simp add: skip_ws_def)

lemma MoreFactors_end:
  "ends_term rest \<Longrightarrow> evaluated input vars (MoreFactors v) rest = Inr (v, skip_ws rest)"
  by (auto simp: evaluated_MoreFactors evaluate_more_factors_def ends_term_def split: list.splits)

lemma MoreTerms_skip:
  "evaluated input vars (MoreTerms v) (skip_ws rest) = evaluated input vars (MoreTerms v) rest"
  by (simp add: evaluated_MoreTerms evaluate_more_terms_def)

definition factor_level :: "string \<Rightarrow> formula_env \<Rightarrow> syntax_tree \<Rightarrow> bool" where
  "factor_level input vars a \<longleftrightarrow>
     (\<forall>rest. ends_token rest \<longrightarrow>
        evaluated input vars Factor (in_parens (is_sum a \<or> is_product a) (written a) @ rest)
          = bind_outcome (tree_value vars a) (\<lambda>v. Inr (v, rest)))"

definition term_level :: "string \<Rightarrow> formula_env \<Rightarrow> syntax_tree \<Rightarrow> bool" where
  "term_level input vars a \<longleftrightarrow>
     (\<forall>rest. ends_token rest \<longrightarrow>
        evaluated input vars Term (in_parens (is_sum a) (written a) @ rest)
          = bind_outcome (tree_value vars a) (\<lambda>v. evaluated input vars (MoreFactors v) rest))"

definition expression_level :: "string \<Rightarrow> formula_env \<Rightarrow> syntax_tree \<Rightarrow> bool" where
  "expression_level input vars a \<longleftrightarrow>
     (\<forall>rest. ends_token rest \<longrightarrow> ends_term rest \<longrightarrow>
        evaluated input vars Expression (written a @ rest)
          = bind_outcome (tree_value vars a) (\<lambda>v. evaluated input vars (MoreTerms v) rest))"

lemma bind_outcome_assoc:
  "bind_outcome (bind_outcome r f) g = bind_outcome r (\<lambda>x. bind_outcome (f x) g)"
  by (cases r) auto

lemma factor_in_parens:
  assumes "expression_level input vars a" "is_sum a \<or> is_product a"
  shows "factor_level input vars a"
  unfolding factor_level_def
proof (intro allI impI)
  fix rest
  have close: "ends_token (CHR '')'' # rest)" "ends_term (CHR '')'' # rest)"
    by (simp_all add: ends_token_def ends_term_def ident_char_def skip_ws_def char_class_defs)
  have "evaluated input vars Factor (in_parens (is_sum a \<or> is_product a) (written a) @ rest) =
      bind_outcome (evaluated input vars Expression (written a @ CHR '')'' # rest))
        (\<lambda>(v, s). close_paren input v s)"
    using assms(2)
    by (simp add: in_parens_def evaluated_Factor evaluate_factor_def is_ascii_whitespace_def)
  also have "\<dots> = bind_outcome (tree_value vars a) (\<lambda>v. Inr (v, rest))"
    using assms(1) close
    by (simp add: expression_level_def bind_outcome_assoc evaluated_MoreTerms evaluate_more_terms_def
        is_ascii_whitespace_def close_paren_def)
  finally show "evaluated input vars Factor (in_parens (is_sum a \<or> is_product a) (written a) @ rest) =
      bind_outcome (tree_value vars a) (\<lambda>v. Inr (v, rest))" .
qed

lemma term_of_factor:
  "factor_level input vars a \<Longrightarrow> \<not> is_product a \<Longrightarrow> term_level input vars a"
  by (simp add: factor_level_def term_level_def evaluated_Term bind_outcome_assoc)

lemma expression_of_term:
  "term_level input vars a \<Longrightarrow> \<not> is_sum a \<Longrightarrow> expression_level input vars a"
  by (simp add: term_level_def expression_level_def evaluated_Expression bind_outcome_assoc
      in_parens_def MoreFactors_end MoreTerms_skip)

lemma levels_of_factor:
  assumes "factor_level input vars a" "\<not> is_sum a" "\<not> is_product a"
  shows "factor_level input vars a \<and> term_level input vars a \<and> expression_level input vars a"
  using assms term_of_factor expression_of_term by blast

lemma levels_of_term:
  assumes "term_level input vars a" "\<not> is_sum a" "is_product a"
  shows "factor_level input vars a \<and> term_level input vars a \<and> expression_level input vars a"
  using assms factor_in_parens expression_of_term by blast

lemma levels_of_expression:
  assumes "expression_level input vars a" "is_sum a" "\<not> is_product a"
  shows "factor_level input vars a \<and> term_level input vars a \<and> expression_level input vars a"
  using assms factor_in_parens term_of_factor by blast

lemma spaced_ends [simp]: "ends_token (CHR '' '' # s)"
  by (simp add: ends_token_def ident_char_def char_class_defs)

lemma sum_ends_term [simp]:
  "ends_term (CHR '' '' # CHR ''+'' # s)" "ends_term (CHR '' '' # CHR ''-'' # s)"
  by (simp_all add: ends_term_def is_ascii_whitespace_def)

lemma MoreTerms_operator:
  "evaluated input vars (MoreTerms v) (CHR '' '' # CHR ''+'' # CHR '' '' # s) =
     bind_outcome (evaluated input vars Term s)
       (\<lambda>(w, s). evaluated input vars (MoreTerms (f64_add v w)) s)"
  "evaluated input vars (MoreTerms v) (CHR '' '' # CHR ''-'' # CHR '' '' # s) =
     bind_outcome (evaluated input vars Term s)
       (\<lambda>(w, s). evaluated input vars (MoreTerms (f64_sub v w)) s)"
  by (simp_all add: evaluated_MoreTerms [of _ _ _ "CHR '' '' # _"] evaluate_more_terms_def
      is_ascii_whitespace_def evaluated_Term_space)

lemma MoreFactors_operator:
  "evaluated input vars (MoreFactors v) (CHR '' '' # CHR ''*'' # CHR '' '' # s) =
     bind_outcome (evaluated input vars Factor s)
       (\<lambda>(w, s). evaluated input vars (MoreFactors (f64_mul v w)) s)"
  "evaluated input vars (MoreFactors v) (CHR '' '' # CHR ''/'' # CHR '' '' # s) =
     bind_outcome (evaluated input vars Factor s)
       (\<lambda>(w, s). if f64_eq w f64_zero then Inl (Err FormulaDivisionByZero)
          else evaluated input vars (MoreFactors (f64_div v w)) s)"
  by (simp_all add: evaluated_MoreFactors [of _ _ _ "CHR '' '' # _"] evaluate_more_factors_def
      is_ascii_whitespace_def evaluated_Factor_space)

lemma digit_plain:
  assumes "is_ascii_digit c"
  shows "\<not> is_ascii_whitespace c" "c \<noteq> CHR ''-''" "c \<noteq> CHR ''(''" "\<not> ident_start c"
  using assms by (auto simp: char_class_defs ident_start_def)

lemma ident_start_plain:
  assumes "ident_start c"
  shows "\<not> is_ascii_whitespace c" "c \<noteq> CHR ''-''" "c \<noteq> CHR ''(''"
  using assms by (auto simp: char_class_defs ident_start_def)

lemma factor_number:
  assumes "well_written (Number w f)"
  shows "factor_level input vars (Number w f)"
  unfolding factor_level_def
proof (intro allI impI)
  fix rest
  assume rest: "ends_token rest"
  from assms obtain d ds where w: "w = d # ds" and d: "is_ascii_digit d"
    by (cases w) auto
  let ?t = "(w @ (if f = [] then [] else CHR ''.'' # f)) @ rest"
  obtain r where t: "?t = d # r"
    by (simp add: w)
  have "read_number ?t = Some (f64_of_decimal (digits_value (w @ f)) (length f), rest)"
    using assms by (intro read_number_written [OF _ _ rest]) auto
  then have "read_number (d # r) = Some (f64_of_decimal (digits_value (w @ f)) (length f), rest)"
    by (simp only: t)
  moreover have "read_identifier (d # r) = None"
    using digit_plain [OF d] by (simp add: read_identifier_def)
  ultimately have "evaluated input vars Factor (d # r) =
      bind_outcome (tree_value vars (Number w f)) (\<lambda>v. Inr (v, rest))"
    using digit_plain [OF d] by (simp add: evaluated_Factor [of _ _ "d # r"] evaluate_factor_def)
  moreover have "in_parens (is_sum (Number w f) \<or> is_product (Number w f)) (written (Number w f)) @ rest = d # r"
    using t by (simp only: in_parens_def written.simps is_sum.simps is_product.simps simp_thms if_False)
  ultimately show "evaluated input vars Factor
      (in_parens (is_sum (Number w f) \<or> is_product (Number w f)) (written (Number w f)) @ rest) =
      bind_outcome (tree_value vars (Number w f)) (\<lambda>v. Inr (v, rest))"
    by (simp only:)
qed

lemma factor_variable:
  assumes "well_written (Variable x)"
  shows "factor_level input vars (Variable x)"
  unfolding factor_level_def
proof (intro allI impI)
  fix rest
  assume rest: "ends_token rest"
  from assms obtain c cs where x: "x = c # cs" and c: "ident_start c"
    by (auto simp: is_identifier_def split: list.splits)
  have "read_identifier (c # cs @ rest) = Some (x, rest)"
    using read_identifier_written [OF _ rest, of x] assms by (simp add: x)
  then show "evaluated input vars Factor
      (in_parens (is_sum (Variable x) \<or> is_product (Variable x)) (written (Variable x)) @ rest) =
      bind_outcome (tree_value vars (Variable x)) (\<lambda>v. Inr (v, rest))"
    using ident_start_plain [OF c]
    by (simp add: evaluated_Factor evaluate_factor_def in_parens_def x ok_or_def split: option.splits)
qed

lemma factor_negated:
  assumes "factor_level input vars a"
  shows "factor_level input vars (Negated a)"
  using assms
  by (simp add: factor_level_def in_parens_def evaluated_Factor [of _ _ "CHR ''-'' # _"]
      evaluate_factor_def is_ascii_whitespace_def bind_outcome_assoc)

lemma written_levels:
  "well_written a \<Longrightarrow>
     factor_level input vars a \<and> term_level input vars a \<and> expression_level input vars a"
proof (induction a)
  case (Number w f)
  then show ?case by (intro levels_of_factor factor_number) simp_all
next
  case (Variable x)
  then show ?case by (intro levels_of_factor factor_variable) simp_all
next
  case (Negated a)
  then show ?case by (intro levels_of_factor factor_negated) simp_all
next
  case (Sum a b)
  then have "expression_level input vars (Sum a b)"
    by (simp add: expression_level_def term_level_def bind_outcome_assoc MoreTerms_operator
        MoreFactors_end MoreTerms_skip)
  then show ?case by (intro levels_of_expression) simp_all
next
  case (Difference a b)
  then have "expression_level input vars (Difference a b)"
    by (simp add: expression_level_def term_level_def bind_outcome_assoc MoreTerms_operator
        MoreFactors_end MoreTerms_skip)
  then show ?case by (intro levels_of_expression) simp_all
next
  case (Product a b)
  then have "term_level input vars (Product a b)"
    by (simp add: term_level_def factor_level_def bind_outcome_assoc MoreFactors_operator
        in_parens_def [of False])
  then show ?case by (intro levels_of_term) simp_all
next
  case (Quotient a b)
  then have "term_level input vars (Quotient a b)"
    by (auto simp: term_level_def factor_level_def bind_outcome_assoc MoreFactors_operator
        in_parens_def [of False] intro!: bind_outcome_cong)
  then show ?case by (intro levels_of_term) simp_all
qed

lemma evaluate_written:
  assumes "well_written a"
  shows "evaluate_formula (written a) vars = tree_value vars a"
proof -
  let ?e = "written a"
  have "evaluated ?e vars Expression (?e @ []) =
      bind_outcome (tree_value vars a) (\<lambda>v. evaluated ?e vars (MoreTerms v) [])"
    using written_levels [OF assms, of ?e vars]
    by (simp add: expression_level_def ends_token_def ends_term_def skip_ws_def del: append_Nil2)
  moreover have "evaluated ?e vars (MoreTerms v) [] = Inr (v, [])" for v
    by (simp add: evaluated_MoreTerms evaluate_more_terms_def skip_ws_def)
  ultimately have "evaluate_run (formula_fuel ?e) ?e vars Expression ?e =
      bind_outcome (tree_value vars a) (\<lambda>v. Inr (v, []))"
    by (simp add: formula_fuel_def evaluated_def)
  then show ?thesis
    by (cases "tree_value vars a") (simp_all add: evaluate_formula_def skip_ws_def)
qed

section \<open>Conditions\<close>

definition comparison_char :: "char \<Rightarrow> bool" where
  "comparison_char c \<longleftrightarrow> c = CHR ''<'' \<or> c = CHR ''>'' \<or> c = CHR ''='' \<or> c = CHR ''!''"

lemma operator_at_none: "\<not> comparison_char c \<Longrightarrow> operator_at pre (c # cs) = None"
  by (auto simp: operator_at_def comparison_operators_def starts_with_def comparison_char_def
      split: if_splits)

definition plain_char :: "char \<Rightarrow> bool" where
  "plain_char c \<longleftrightarrow> \<not> comparison_char c \<and> c \<noteq> CHR ''('' \<and> c \<noteq> CHR '')'' \<and> code_of c < (128::nat)"

text \<open>The scan passes over a text without looking into it.\<close>

definition passed_over :: "string \<Rightarrow> bool" where
  "passed_over p \<longleftrightarrow>
     (\<forall>pre depth s. split_condition_loop pre depth (p @ s) = split_condition_loop (pre @ p) depth s)"

lemma passed_over_plain: "list_all plain_char p \<Longrightarrow> passed_over p"
proof (induction p)
  case Nil
  then show ?case by (simp add: passed_over_def)
next
  case (Cons c p)
  then have "passed_over p" and c: "plain_char c" by simp_all
  moreover have "split_condition_loop pre depth (c # s) = split_condition_loop (pre @ [c]) depth s"
    for pre depth s
    using c by (auto simp: plain_char_def operator_at_none)
  ultimately show ?case
    by (simp add: passed_over_def del: split_condition_loop.simps)
qed

lemma passed_over_append: "passed_over p \<Longrightarrow> passed_over q \<Longrightarrow> passed_over (p @ q)"
  by (simp add: passed_over_def)

lemma passed_over_parens: "passed_over p \<Longrightarrow> passed_over (in_parens b p)"
  by (simp add: passed_over_def in_parens_def)

lemma ident_chars_plain: "is_identifier x \<Longrightarrow> list_all plain_char x"
proof -
  have "plain_char c" if "ident_char c" for c
    using that by (auto simp: ident_char_def plain_char_def comparison_char_def char_class_defs)
  moreover have "ident_char c" if "ident_start c" for c
    using that by (auto simp: ident_char_def ident_start_def char_class_defs)
  ultimately show "is_identifier x \<Longrightarrow> list_all plain_char x"
    by (auto simp: is_identifier_def list_all_iff split: list.splits)
qed

lemma digit_chars_plain: "list_all is_ascii_digit x \<Longrightarrow> list_all plain_char x"
  by (auto simp: list_all_iff plain_char_def comparison_char_def char_class_defs)

lemma plain_operator_char:
  "plain_char CHR '' ''" "plain_char CHR ''+''" "plain_char CHR ''-''" "plain_char CHR ''*''"
  "plain_char CHR ''/''" "plain_char CHR ''.''"
  by (simp_all add: plain_char_def comparison_char_def)

lemma passed_over_binary:
  "passed_over p \<Longrightarrow> list_all plain_char m \<Longrightarrow> passed_over q \<Longrightarrow> passed_over (p @ m @ q)"
  by (simp add: passed_over_append passed_over_plain)

lemma passed_over_written: "well_written a \<Longrightarrow> passed_over (written a)"
proof (induction a)
  case (Number w f)
  then have "list_all plain_char w" "list_all plain_char f"
    by (simp_all add: digit_chars_plain)
  then show ?case
    by (auto intro!: passed_over_plain simp: plain_operator_char)
next
  case (Variable x)
  then show ?case
    by (simp add: passed_over_plain ident_chars_plain)
next
  case (Negated a)
  then have "passed_over ([] @ ''-'' @ in_parens (is_sum a \<or> is_product a) (written a))"
    by (intro passed_over_binary passed_over_parens) (simp_all add: plain_operator_char passed_over_def)
  then show ?case by simp
next
  case (Sum a b)
  then show ?case
    unfolding written.simps well_written.simps
    by (intro passed_over_binary passed_over_parens) (simp_all add: plain_operator_char)
next
  case (Difference a b)
  then show ?case
    unfolding written.simps well_written.simps
    by (intro passed_over_binary passed_over_parens) (simp_all add: plain_operator_char)
next
  case (Product a b)
  then show ?case
    unfolding written.simps well_written.simps
    by (intro passed_over_binary passed_over_parens) (simp_all add: plain_operator_char)
next
  case (Quotient a b)
  then show ?case
    unfolding written.simps well_written.simps
    by (intro passed_over_binary passed_over_parens) (simp_all add: plain_operator_char)
qed

definition tight :: "string \<Rightarrow> bool" where
  "tight s \<longleftrightarrow> s \<noteq> [] \<and> \<not> is_whitespace (hd s) \<and> \<not> is_whitespace (last s)"

lemma tight_append: "tight p \<Longrightarrow> tight q \<Longrightarrow> tight (p @ m @ q)"
  by (auto simp: tight_def)

lemma tight_parens: "tight p \<Longrightarrow> tight (in_parens b p)"
  by (auto simp: tight_def in_parens_def is_whitespace_def)

lemma tight_Cons: "tight p \<Longrightarrow> \<not> is_whitespace c \<Longrightarrow> tight (c # p)"
  by (auto simp: tight_def)

lemma tight_solid: "s \<noteq> [] \<Longrightarrow> (\<And>c. c \<in> set s \<Longrightarrow> \<not> is_whitespace c) \<Longrightarrow> tight s"
  by (auto simp: tight_def)

lemma tight_written: "well_written a \<Longrightarrow> tight (written a)"
proof (induction a)
  case (Number w f)
  have "\<not> is_whitespace c" if "is_ascii_digit c \<or> c = CHR ''.''" for c
    using that by (auto simp: char_class_defs)
  with Number show ?case
    by (intro tight_solid) (auto simp: list_all_iff split: if_splits)
next
  case (Variable x)
  have "\<not> is_whitespace c" if "c \<in> set x" for c
    using Variable that
    by (auto simp: is_identifier_def list_all_iff ident_start_def ident_char_def char_class_defs
        split: list.splits)
  then show ?case
    using Variable by (intro tight_solid) (auto simp: is_identifier_def)
next
  case (Negated a)
  then show ?case
    by (auto intro!: tight_Cons tight_parens simp: is_whitespace_def)
next
  case (Sum a b)
  then show ?case
    unfolding written.simps well_written.simps by (intro tight_append tight_parens) simp_all
next
  case (Difference a b)
  then show ?case
    unfolding written.simps well_written.simps by (intro tight_append tight_parens) simp_all
next
  case (Product a b)
  then show ?case
    unfolding written.simps well_written.simps by (intro tight_append tight_parens) simp_all
next
  case (Quotient a b)
  then show ?case
    unfolding written.simps well_written.simps by (intro tight_append tight_parens) simp_all
qed

lemma trim_tight: "tight s \<Longrightarrow> trim (s @ '' '') = s" "tight s \<Longrightarrow> trim ('' '' @ s) = s"
  "tight s \<Longrightarrow> trim s = s"
proof -
  have start: "trim_start (s @ t) = s @ t" if "tight s" for s t
    using that by (cases s) (auto simp: tight_def trim_start_def)
  have end_: "trim_end s = s" if "tight s" for s
    using that by (cases s rule: rev_cases) (auto simp: tight_def trim_end_def)
  assume "tight s"
  then show "trim (s @ '' '') = s" "trim ('' '' @ s) = s" "trim s = s"
    using start [of s "[]"] start [of s "'' ''"] end_ [of s]
    by (simp_all add: trim_def trim_end_def trim_start_def is_whitespace_def)
qed

lemma operator_at_written:
  assumes "op \<in> set comparison_operators" "L \<noteq> []" "R \<noteq> []"
    and "trim (L @ '' '') = L" "trim ('' '' @ R) = R"
  shows "operator_at (L @ '' '') (op @ '' '' @ R) = Some (L, op, R)"
proof -
  from assms(1) consider "op = ''>=''" | "op = ''<=''" | "op = ''==''" | "op = ''!=''"
    | "op = ''>''" | "op = ''<''"
    unfolding comparison_operators_def by auto
  then show ?thesis
    by cases (insert assms(2-), simp_all add: operator_at_def comparison_operators_def starts_with_def)
qed

lemma split_condition_written:
  assumes "well_written l" "well_written r" "op \<in> set comparison_operators"
  shows "split_condition (written l @ '' '' @ op @ '' '' @ written r)
    = Inr (Some (written l, op, written r))"
proof -
  have pass: "passed_over (written l @ '' '')"
    using assms(1) by (intro passed_over_append passed_over_written passed_over_plain)
      (simp_all add: plain_operator_char)
  have "written l \<noteq> []" "written r \<noteq> []"
    using tight_written assms(1,2) by (auto simp: tight_def)
  moreover have "trim (written l @ '' '') = written l" "trim ('' '' @ written r) = written r"
    using trim_tight tight_written assms(1,2) by blast+
  ultimately have at: "operator_at (written l @ '' '') (op @ '' '' @ written r)
      = Some (written l, op, written r)"
    using assms(3) operator_at_written by blast
  obtain c cs where c: "op = c # cs" "c \<noteq> CHR ''(''" "c \<noteq> CHR '')''"
    using assms(3) by (auto simp: comparison_operators_def)
  from at c have found: "split_condition_loop (written l @ '' '') 0 (op @ '' '' @ written r)
      = Inr (Some (written l, op, written r))"
    by simp
  have "split_condition (written l @ '' '' @ op @ '' '' @ written r)
      = split_condition_loop ([] @ written l @ '' '') 0 (op @ '' '' @ written r)"
    using pass [unfolded passed_over_def, rule_format, of "[]" 0 "op @ '' '' @ written r"]
    by (simp add: split_condition_def del: split_condition_loop.simps)
  with found show ?thesis
    by simp
qed

lemma split_condition_none:
  assumes "well_written a"
  shows "split_condition (written a) = Inr None"
proof -
  have "split_condition (written a @ []) = split_condition_loop ([] @ written a) 0 []"
    using passed_over_written [OF assms, unfolded passed_over_def, rule_format, of "[]" 0 "[]"]
    by (simp add: split_condition_def)
  then show ?thesis by simp
qed

section \<open>Properties\<close>

text \<open>C16: A formula is evaluated as mathematics reads it: for every syntax tree, written with
  left-associative operators, products before sums and parentheses where needed, the evaluator
  returns the value of the tree in binary64 arithmetic, or the error of the first unbound
  variable or zero divisor from the left.\<close>

theorem formula_means_its_tree:
  assumes "well_written a"
  shows "evaluate_formula (written a) vars = tree_value vars a"
  using assms by (rule evaluate_written)

theorem formula_means_its_tree_witness:
  "evaluate_formula ''qty / (a - 2) * -3'' [(''a'', f64_of_int 5), (''qty'', f64_of_int 7)] =
     Inr (f64_mul (f64_div (f64_of_int 7) (f64_sub (f64_of_int 5) (f64_of_decimal 2 0)))
       (f64_neg (f64_of_decimal 3 0)))"
proof -
  let ?t = "Product (Quotient (Variable ''qty'') (Difference (Variable ''a'') (Number ''2'' [])))
      (Negated (Number ''3'' []))"
  have wf: "well_written ?t"
    by (simp add: is_identifier_def ident_start_def ident_char_def char_class_defs)
  have shown: "written ?t = ''qty / (a - 2) * -3''"
    by (simp add: in_parens_def)
  have "\<not> f64_eq (f64_sub (f64_of_int 5) (f64_of_decimal 2 0)) f64_zero"
    by code_simp
  then have "tree_value [(''a'', f64_of_int 5), (''qty'', f64_of_int 7)] ?t =
     Inr (f64_mul (f64_div (f64_of_int 7) (f64_sub (f64_of_int 5) (f64_of_decimal 2 0)))
       (f64_neg (f64_of_decimal 3 0)))"
    by (simp add: digits_value_def)
  then show ?thesis
    using formula_means_its_tree [OF wf] shown by metis
qed

text \<open>C29: Validation and evaluation of a formula agree on every text, and both return.  A text that
  validates evaluates to a number under every binding of variables unless one of its variables
  is unbound or a divisor is zero; a text that evaluates under some binding validates; and the
  fuel of the model is never exhausted.\<close>

theorem validated_formula_evaluates:
  "returns (evaluate_formula e vars) \<and> returns (validate_formula_expression e) \<and>
   (case evaluate_formula e vars of
      Inr v \<Rightarrow> validate_formula_expression e = Inr ()
    | Inl (Err (UnknownFormulaVariable x)) \<Rightarrow> bt_get vars x = None
    | Inl (Err FormulaDivisionByZero) \<Rightarrow> True
    | Inl f \<Rightarrow> validate_formula_expression e = Inl f)"
proof -
  have "tracks vars (bind_outcome (validate_formula_expression e) (\<lambda>_. Inr []))
     (bind_outcome (evaluate_formula e vars) (\<lambda>v. Inr (v, [])))"
    by (rule validate_tracks)
  then show ?thesis
    using evaluate_formula_returns [of e vars] validate_formula_returns [of e]
    by (cases "evaluate_formula e vars"; cases "validate_formula_expression e")
      (auto simp: tracks_def split: stop.splits production_map_error.splits)
qed

text \<open>A condition compares the values of its two sides with the operator between them, for all
  six operators; equality holds within the machine epsilon.  A text without an operator is true
  when its value is not zero.\<close>

theorem condition_compares_its_sides:
  assumes "well_written l" and "well_written r" and "op \<in> set comparison_operators"
  shows "let text = written l @ '' '' @ op @ '' '' @ written r in
      evaluate_condition text vars =
        bind_outcome (tree_value vars l) (\<lambda>x. bind_outcome (tree_value vars r)
          (\<lambda>y. compare_f64 text op x y)) \<and>
      evaluate_condition (written l) vars =
        bind_outcome (tree_value vars l) (\<lambda>v. Inr (\<not> f64_eq v f64_zero))"
  unfolding Let_def
proof
  show "evaluate_condition (written l @ '' '' @ op @ '' '' @ written r) vars =
      bind_outcome (tree_value vars l) (\<lambda>x. bind_outcome (tree_value vars r)
        (\<lambda>y. compare_f64 (written l @ '' '' @ op @ '' '' @ written r) op x y))"
    using split_condition_written [OF assms] evaluate_written assms(1,2)
    by (simp add: evaluate_condition_def)
  show "evaluate_condition (written l) vars =
      bind_outcome (tree_value vars l) (\<lambda>v. Inr (\<not> f64_eq v f64_zero))"
    using split_condition_none evaluate_written assms(1)
    by (simp add: evaluate_condition_def)
qed

section \<open>Two defects of condition validation\<close>


text \<open>C40: The scan for the operator of a condition slices the text at every byte outside
  parentheses, also inside a character of several bytes: a condition that starts with a letter
  beyond ASCII panics instead of being refused.\<close>

theorem condition_scan_panics_beyond_ascii:
  assumes "128 \<le> (of_char c :: nat)"
  shows "validate_condition_expression (c # rest) = Inl Panic"
proof -
  have "operator_at [] (c # rest) = None"
    by (simp add: operator_at_def comparison_operators_def)
  moreover have "c \<noteq> CHR ''(''" "c \<noteq> CHR '')''"
    using assms by auto
  ultimately have "split_condition (c # rest) = Inl Panic"
    using assms by (simp add: split_condition_def)
  then show ?thesis
    by (simp add: validate_condition_expression_def evaluate_condition_def)
qed

theorem condition_scan_panics_beyond_ascii_witness:
  "128 \<le> (of_char (CHR 0xE9) :: nat) \<and> validate_condition_expression (CHR 0xE9 # '' > 1'') = Inl Panic"
  using condition_scan_panics_beyond_ascii [of "CHR 0xE9"] by simp

end
