(* ===== verification/Order_Layout.thy ===== *)
theory Order_Layout
  imports Erp_Float
begin

text \<open>
  The product layout of an order (\<^verbatim>\<open>src/core/order_layout.rs\<close>): its blocks of products, the
  validation of a layout, the physical lanes and their grouping into frames.
\<close>

section \<open>The product layout of an order\<close>

record order_product =
  op_id :: string
  op_item_code :: string
  op_product :: string
  frame_product_size_mm :: f64
  op_frame_count :: int

record order_lane =
  lane_id :: string
  lane_product_id :: string
  lane_order_number :: string
  lane_item_code :: string
  lane_product :: string
  lane_width_mm :: f64

text \<open>The messages of \<^verbatim>\<open>validate_products\<close>, by what they report; an index counts from one.\<close>

datatype layout_error = TooManyProducts | ChooseProduct nat | InvalidFrames nat | InvalidTotals

definition product_id_char :: "char \<Rightarrow> bool" where
  "product_id_char c \<longleftrightarrow> is_ascii_alphanumeric c \<or> c = CHR ''-'' \<or> c = CHR ''_''"

definition useful_width :: "order_product list \<Rightarrow> f64" where
  "useful_width products =
     foldl (\<lambda>total p. f64_add total
       (f64_mul (frame_product_size_mm p) (f64_of_int (op_frame_count p)))) f64_zero products"

fun validate_products_loop ::
  "nat \<Rightarrow> string set \<Rightarrow> int \<Rightarrow> order_product list \<Rightarrow> (layout_error, int) outcome" where
  "validate_products_loop i ids frames [] = Inr frames"
| "validate_products_loop i ids frames (p # ps) =
     (if op_id p = [] \<or> 100 < str_len (op_id p) \<or> \<not> list_all product_id_char (op_id p)
         \<or> op_id p \<in> ids \<or> trim (op_item_code p) = [] \<or> trim (op_product p) = []
      then Inl (Err (ChooseProduct (i + 1)))
      else if \<not> is_finite (frame_product_size_mm p)
         \<or> f64_le (frame_product_size_mm p) f64_zero
         \<or> \<not> (1 \<le> op_frame_count p \<and> op_frame_count p \<le> 1024)
      then Inl (Err (InvalidFrames (i + 1)))
      else validate_products_loop (i + 1) (insert (op_id p) ids) (frames + op_frame_count p) ps)"

definition validate_products :: "order_product list \<Rightarrow> (layout_error, unit) outcome" where
  "validate_products products =
     (if 64 < length products then Inl (Err TooManyProducts)
      else bind_outcome (validate_products_loop 0 {} 0 products)
        (\<lambda>frames. guard_outcome
           (frames \<le> 1024 \<and> is_finite (useful_width products)) InvalidTotals))"

definition layout_frame_count :: "order_product list \<Rightarrow> int" where
  "layout_frame_count products =
     foldl (\<lambda>total p. saturate_i64 (total + op_frame_count p)) 0 products"

definition layout_title :: "order_product list \<Rightarrow> string" where
  "layout_title products = join_with '' + '' (map (\<lambda>p. trim (op_product p)) products)"

definition product_lanes ::
  "string \<Rightarrow> string \<Rightarrow> nat \<Rightarrow> order_product \<Rightarrow> order_lane list" where
  "product_lanes order_id order_number index p =
     map (\<lambda>frame.
       \<lparr> lane_id = op_id p @ '':'' @ decimal_of_nat (frame + 1),
         lane_product_id = order_id @ '':product:'' @ op_id p,
         lane_order_number = order_number @ ''/'' @ decimal_of_nat (index + 1),
         lane_item_code = op_item_code p,
         lane_product = op_product p,
         lane_width_mm = frame_product_size_mm p \<rparr>)
       [0..<nat (op_frame_count p)]"

definition lanes :: "order_product list \<Rightarrow> string \<Rightarrow> string \<Rightarrow> order_lane list" where
  "lanes products order_id order_number =
     concat (map (\<lambda>(index, p). product_lanes order_id order_number index p)
       (List.enumerate 0 products))"

fun group_widths_loop :: "f64 list \<Rightarrow> nat \<Rightarrow> int list \<Rightarrow> (nat \<times> f64 list) option" where
  "group_widths_loop ws offset [] = Some (offset, [])"
| "group_widths_loop ws offset (n # groups) =
     (if n \<le> 0 \<or> length ws < offset + nat n then None
      else map_option
        (\<lambda>(final, widths).
           (final, foldl f64_add f64_zero (take (nat n) (drop offset ws)) # widths))
        (group_widths_loop ws (offset + nat n) groups))"

definition group_widths :: "f64 list \<Rightarrow> int list \<Rightarrow> f64 list option" where
  "group_widths ws groups =
     (let groups = (if groups = [] then replicate (length ws) 1 else groups) in
      case group_widths_loop ws 0 groups of
        None \<Rightarrow> None
      | Some (offset, widths) \<Rightarrow> if offset = length ws then Some widths else None)"

section \<open>Laws of the layout\<close>

lemma validated_blocks:
  "validate_products_loop i ids frames ps = Inr sum_frames \<Longrightarrow>
     distinct (map op_id ps) \<and> set (map op_id ps) \<inter> ids = {} \<and>
     sum_frames = frames + sum_list (map op_frame_count ps) \<and>
     (\<forall>p\<in>set ps. list_all product_id_char (op_id p) \<and> 1 \<le> op_frame_count p
        \<and> finite_positive (frame_product_size_mm p))"
proof (induction ps arbitrary: i ids frames)
  case Nil
  then show ?case by simp
next
  case (Cons p ps)
  from Cons.prems have rest: "validate_products_loop (i + 1) (insert (op_id p) ids)
      (frames + op_frame_count p) ps = Inr sum_frames"
    and p: "op_id p \<notin> ids" "list_all product_id_char (op_id p)" "1 \<le> op_frame_count p"
      "is_finite (frame_product_size_mm p)" "\<not> f64_le (frame_product_size_mm p) f64_zero"
    by (auto split: if_splits)
  from p(4,5) have "finite_positive (frame_product_size_mm p)"
    by (rule positive_if_not_le_zero)
  with Cons.IH [OF rest] p show ?case
    by auto
qed

lemma length_lanes:
  "length (lanes ps oid num) = sum_list (map (\<lambda>p. nat (op_frame_count p)) ps)"
proof -
  have "length (concat (map (\<lambda>(i, p). product_lanes oid num i p) (List.enumerate k ps)))
      = sum_list (map (\<lambda>p. nat (op_frame_count p)) ps)" for k
    by (induction ps arbitrary: k) (simp_all add: product_lanes_def)
  then show ?thesis
    by (simp add: lanes_def)
qed

lemma lane_ids:
  "map lane_id (lanes ps oid num) =
     concat (map (\<lambda>p. map (\<lambda>f. op_id p @ '':'' @ decimal_of_nat (f + 1)) [0..<nat (op_frame_count p)]) ps)"
proof -
  have "map lane_id (concat (map (\<lambda>(i, p). product_lanes oid num i p) (List.enumerate k ps)))
      = concat (map (\<lambda>p. map (\<lambda>f. op_id p @ '':'' @ decimal_of_nat (f + 1)) [0..<nat (op_frame_count p)]) ps)"
    for k
    by (induction ps arbitrary: k) (simp_all add: product_lanes_def)
  then show ?thesis
    by (simp add: lanes_def)
qed

lemma sum_frames_int:
  "\<forall>p\<in>set ps. 1 \<le> op_frame_count p \<Longrightarrow>
     int (sum_list (map (\<lambda>p. nat (op_frame_count p)) ps)) = sum_list (map op_frame_count ps)"
  by (induction ps) simp_all

text \<open>A colon does not occur in a product id, so a lane id splits in one way.\<close>

lemma colon_split:
  "c \<notin> set a \<Longrightarrow> c \<notin> set b \<Longrightarrow> a @ c # x = b @ c # y \<longleftrightarrow> a = b \<and> x = y"
proof (induction a arbitrary: b)
  case Nil
  then show ?case by (cases b) auto
next
  case (Cons d a)
  then show ?case by (cases b) auto
qed

lemma no_colon: "list_all product_id_char s \<Longrightarrow> CHR '':'' \<notin> set s"
  by (auto simp: list_all_iff product_id_char_def char_class_defs)

lemma distinct_lane_ids:
  assumes "distinct (map op_id ps)" "\<And>p. p \<in> set ps \<Longrightarrow> list_all product_id_char (op_id p)"
  shows "distinct (concat (map (\<lambda>p. map (\<lambda>f. op_id p @ '':'' @ decimal_of_nat (f + 1))
    [0..<nat (op_frame_count p)]) ps))"
  using assms
proof (induction ps)
  case Nil
  then show ?case by simp
next
  case (Cons p ps)
  have own: "distinct (map (\<lambda>f. op_id p @ '':'' @ decimal_of_nat (f + 1)) [0..<nat (op_frame_count p)])"
    by (auto simp: distinct_map inj_on_def)
  have "op_id p @ '':'' @ decimal_of_nat (f + 1) \<noteq> op_id q @ '':'' @ decimal_of_nat (g + 1)"
    if "q \<in> set ps" for q f g
  proof
    assume "op_id p @ '':'' @ decimal_of_nat (f + 1) = op_id q @ '':'' @ decimal_of_nat (g + 1)"
    moreover have "CHR '':'' \<notin> set (op_id p)" "CHR '':'' \<notin> set (op_id q)"
      using no_colon Cons.prems(2) that by (meson list.set_intros)+
    ultimately have "op_id p = op_id q"
      by (simp add: colon_split)
    with Cons.prems(1) that show False by auto
  qed
  with own Cons show ?case
    by auto
qed

text \<open>The cut of a list into consecutive pieces of given lengths.\<close>

fun slices :: "nat list \<Rightarrow> 'a list \<Rightarrow> 'a list list" where
  "slices [] xs = []"
| "slices (n # ns) xs = take n xs # slices ns (drop n xs)"

lemma concat_slices: "sum_list ns = length xs \<Longrightarrow> concat (slices ns xs) = xs"
  by (induction ns arbitrary: xs) auto

lemma length_slices: "sum_list ns \<le> length xs \<Longrightarrow> map length (slices ns xs) = ns"
  by (induction ns arbitrary: xs) auto

lemma slices_ones: "concat (slices (replicate (length xs) 1) xs) = xs"
  by (simp add: concat_slices sum_list_replicate)

definition lane_sum :: "f64 list \<Rightarrow> f64" where
  "lane_sum ws = foldl f64_add f64_zero ws"

lemma group_widths_loop_Some:
  "group_widths_loop ws offset groups = Some (final, widths) \<longleftrightarrow>
     (\<forall>g\<in>set groups. 0 < g) \<and> final = offset + sum_list (map nat groups) \<and>
     (groups \<noteq> [] \<longrightarrow> final \<le> length ws) \<and>
     widths = map lane_sum (slices (map nat groups) (drop offset ws))"
proof (induction groups arbitrary: offset widths)
  case Nil
  then show ?case by auto
next
  case (Cons n groups)
  show ?case
  proof (cases "0 < n \<and> offset + nat n \<le> length ws")
    case True
    have "group_widths_loop ws offset (n # groups) = Some (final, widths) \<longleftrightarrow>
        (\<exists>rest. group_widths_loop ws (offset + nat n) groups = Some (final, rest) \<and>
           widths = lane_sum (take (nat n) (drop offset ws)) # rest)"
      using True by (auto simp: lane_sum_def)
    then show ?thesis
      using True by (auto simp: Cons.IH add.commute add.left_commute)
  next
    case False
    then have "group_widths_loop ws offset (n # groups) = None"
      by auto
    moreover have "\<not> (0 < n \<and> offset + nat n + sum_list (map nat groups) \<le> length ws)"
      using False by auto
    ultimately show ?thesis
      by (auto simp: add.assoc)
  qed
qed

text \<open>A validated layout has as many lanes as its blocks have frames, at most 1024, and no two
  lanes share an id.\<close>

theorem validated_layout_lanes:
  assumes "validate_products ps = Inr u"
  shows "int (length (lanes ps oid num)) = sum_list (map op_frame_count ps) \<and>
    length (lanes ps oid num) \<le> 1024 \<and> distinct (map lane_id (lanes ps oid num)) \<and>
    (\<forall>l\<in>set (lanes ps oid num). finite_positive (lane_width_mm l))"
proof -
  from assms obtain sum_frames where loop: "validate_products_loop 0 {} 0 ps = Inr sum_frames"
    and bound: "sum_frames \<le> 1024"
    by (auto simp: validate_products_def bind_outcome_eq_Inr split: if_splits)
  note blocks = validated_blocks [OF loop]
  have "int (sum_list (map (\<lambda>p. nat (op_frame_count p)) ps)) = sum_list (map op_frame_count ps)"
    using blocks by (intro sum_frames_int) blast
  moreover have "distinct (map lane_id (lanes ps oid num))"
    unfolding lane_ids using blocks by (intro distinct_lane_ids) auto
  moreover have "finite_positive (lane_width_mm l)" if "l \<in> set (lanes ps oid num)" for l
  proof -
    from that obtain p where "p \<in> set ps" "lane_width_mm l = frame_product_size_mm p"
      by (force simp: lanes_def product_lanes_def in_set_enumerate_eq)
    with blocks show ?thesis by auto
  qed
  ultimately show ?thesis
    using blocks bound by (auto simp: length_lanes)
qed

text \<open>C30: The frames of a layout are consecutive physical lanes: grouping succeeds exactly when every
  group is positive and the groups use up the lanes, and each width is the sum of the lanes of
  its group, which follow one another without gap or overlap.\<close>

theorem group_widths_correct:
  assumes "gs = (if groups = [] then replicate (length ws) 1 else groups)"
  shows "(group_widths ws groups = Some r \<longleftrightarrow>
      (\<forall>g\<in>set gs. 0 < g) \<and> sum_list (map nat gs) = length ws \<and>
      r = map lane_sum (slices (map nat gs) ws)) \<and>
    (group_widths ws groups \<noteq> None \<longrightarrow>
      concat (slices (map nat gs) ws) = ws \<and> map length (slices (map nat gs) ws) = map nat gs)"
proof -
  have iff: "group_widths ws groups = Some r \<longleftrightarrow>
      (\<forall>g\<in>set gs. 0 < g) \<and> sum_list (map nat gs) = length ws \<and>
      r = map lane_sum (slices (map nat gs) ws)" for r
  proof -
    have "group_widths ws groups = Some r \<longleftrightarrow> group_widths_loop ws 0 gs = Some (length ws, r)"
      by (auto simp: group_widths_def assms split: option.splits)
    also have "\<dots> \<longleftrightarrow> (\<forall>g\<in>set gs. 0 < g) \<and> sum_list (map nat gs) = length ws \<and>
        r = map lane_sum (slices (map nat gs) ws)"
      unfolding group_widths_loop_Some by auto
    finally show ?thesis .
  qed
  then show ?thesis
    by (auto simp: concat_slices length_slices)
qed

theorem group_widths_correct_witness:
  "group_widths [f64_of_int 1, f64_of_int 2, f64_of_int 4] [1, 2] = Some [f64_of_int 1, f64_of_int 6] \<and>
   concat (slices (map nat [1, 2]) [f64_of_int 1, f64_of_int 2, f64_of_int 4])
     = [f64_of_int 1, f64_of_int 2, f64_of_int 4]"
proof -
  have "group_widths [f64_of_int 1, f64_of_int 2, f64_of_int 4] [1, 2]
      = Some [f64_of_int 1, f64_of_int 6]"
    by code_simp
  then show ?thesis
    using group_widths_correct [of "[1, 2]" "[1, 2]" "[f64_of_int 1, f64_of_int 2, f64_of_int 4]"]
    by auto
qed

end
