(* ===== verification/Apparatus_Identity.thy ===== *)
theory Apparatus_Identity
  imports Erp_Prelude
begin

text \<open>
  The identity of an apparatus: \<^verbatim>\<open>ApparatusId\<close> of
  \<^verbatim>\<open>crates/mini_rs_apparatus_contract/src/identity.rs\<close> and its users in
  \<^verbatim>\<open>queue/apparatus_identity.rs\<close>.  The shape check is shown to accept exactly the texts
  \<open>apparatus:<namespace>:<key>\<close> over the permitted characters.
\<close>

datatype apparatus_id_error = IdEmpty | InvalidShape | InvalidCharacters

definition apparatus_id_prefix :: string where
  "apparatus_id_prefix = ''apparatus:''"

definition max_id_length :: nat where
  "max_id_length = 128"

definition id_char :: "char \<Rightarrow> bool" where
  "id_char c \<longleftrightarrow> is_ascii_lowercase c \<or> is_ascii_digit c \<or> c = CHR ''-'' \<or> c = CHR ''_'' \<or> c = CHR ''.''"

definition validate_shape :: "string \<Rightarrow> (apparatus_id_error, unit) outcome" where
  "validate_shape value =
     (if trim value = [] then Inl (Err IdEmpty)
      else if value \<noteq> trim value \<or> list_ex (\<lambda>c. is_whitespace c \<or> is_control c) value
      then Inl (Err InvalidCharacters)
      else if max_id_length < str_len value \<or> \<not> starts_with value apparatus_id_prefix
      then Inl (Err InvalidShape)
      else
        (case split_char CHR '':'' (drop (length apparatus_id_prefix) value) of
           [namespace, opaque_key] \<Rightarrow>
             if namespace = [] \<or> opaque_key = [] then Inl (Err InvalidShape)
             else if list_ex (\<lambda>segment. list_ex (\<lambda>c. \<not> id_char c) segment) [namespace, opaque_key]
             then Inl (Err InvalidShape)
             else Inr ()
         | _ \<Rightarrow> Inl (Err InvalidShape)))"

definition is_valid :: "string \<Rightarrow> bool" where
  "is_valid value \<longleftrightarrow> is_ok (validate_shape value)"

definition is_canonical_apparatus_id :: "string \<Rightarrow> bool" where
  "is_canonical_apparatus_id value \<longleftrightarrow> is_valid (trim value)"

definition apparatus_ids_match :: "string \<Rightarrow> string \<Rightarrow> bool" where
  "apparatus_ids_match left right \<longleftrightarrow>
     (let left = trim left; right = trim right in left = right \<and> is_valid left)"

definition apparatus_matches_assigned :: "string \<Rightarrow> string list \<Rightarrow> bool" where
  "apparatus_matches_assigned apparatus assigned \<longleftrightarrow>
     (let apparatus = trim apparatus in
      is_valid apparatus \<and> list_ex (\<lambda>item. trim item = apparatus) assigned)"

definition apparatus_search_key :: "string \<Rightarrow> string" where
  "apparatus_search_key value =
     (let value = trim value in if is_canonical_apparatus_id value then value else [])"

section \<open>The shape of an identity\<close>

lemma split_char_plain: "CHR '':'' \<notin> set s \<Longrightarrow> split_char CHR '':'' s = [s]"
  by (induction s) auto

lemma split_char_nonempty: "split_char d s \<noteq> []"
  by (induction s) (auto split: list.splits)

lemma split_char_append:
  "d \<notin> set p \<Longrightarrow> split_char d (p @ d # s) = p # split_char d s"
  by (induction p) (auto split: list.splits)

lemma split_char_pieces:
  "split_char d s = ps \<Longrightarrow> p \<in> set ps \<Longrightarrow> d \<notin> set p"
  by (induction s arbitrary: ps p) (auto split: if_splits list.splits)

lemma split_char_one: "split_char d s = [p] \<Longrightarrow> s = p"
  by (induction s arbitrary: p) (auto simp: split_char_nonempty split: if_splits list.splits)

lemma split_char_two: "split_char d s = [p, q] \<Longrightarrow> s = p @ d # q"
proof (induction s arbitrary: p)
  case Nil
  then show ?case by simp
next
  case (Cons c s)
  then show ?case
    by (auto split: if_splits list.splits dest: split_char_one)
qed

lemma id_char_plain:
  assumes "id_char c"
  shows "\<not> is_whitespace c" "\<not> is_control c" "c \<noteq> CHR '':''" "code_of c < (128::nat)"
  using assms by (auto simp: id_char_def char_class_defs)

text \<open>The texts that have the canonical shape.\<close>

definition canonical_id :: "string \<Rightarrow> string \<Rightarrow> string" where
  "canonical_id namespace key = apparatus_id_prefix @ namespace @ CHR '':'' # key"

definition id_segment :: "string \<Rightarrow> bool" where
  "id_segment s \<longleftrightarrow> s \<noteq> [] \<and> list_all id_char s"

lemma prefix_plain: "c \<in> set apparatus_id_prefix \<Longrightarrow>
    \<not> is_whitespace c \<and> \<not> is_control c \<and> code_of c < (128::nat)"
  by (auto simp: apparatus_id_prefix_def char_class_defs)

lemma canonical_id_plain:
  assumes "id_segment namespace" "id_segment key" "c \<in> set (canonical_id namespace key)"
  shows "\<not> is_whitespace c \<and> \<not> is_control c \<and> code_of c < (128::nat)"
proof -
  from assms(3) consider "c \<in> set apparatus_id_prefix" | "c = CHR '':''" | "id_char c"
    using assms(1,2) by (auto simp: canonical_id_def id_segment_def list_all_iff)
  then show ?thesis
  proof cases
    case 1
    then show ?thesis by (rule prefix_plain)
  next
    case 2
    then show ?thesis by (simp add: char_class_defs)
  next
    case 3
    then show ?thesis by (simp add: id_char_plain)
  qed
qed

lemma str_len_ascii: "(\<And>c. c \<in> set s \<Longrightarrow> code_of c < (128::nat)) \<Longrightarrow> str_len s = length s"
  by (induction s) (auto simp: str_len_def)

lemma validate_shape_split:
  "is_valid v \<longleftrightarrow>
     trim v \<noteq> [] \<and> v = trim v \<and> list_all (\<lambda>c. \<not> is_whitespace c \<and> \<not> is_control c) v \<and>
     str_len v \<le> max_id_length \<and> starts_with v apparatus_id_prefix \<and>
     (\<exists>ns key. split_char CHR '':'' (drop (length apparatus_id_prefix) v) = [ns, key] \<and>
        id_segment ns \<and> id_segment key)"
  by (auto simp: is_valid_def validate_shape_def id_segment_def list_ex_iff list_all_iff
      split: list.splits)

lemma is_valid_canonical:
  assumes "id_segment ns" "id_segment key" "length (canonical_id ns key) \<le> max_id_length"
  shows "is_valid (canonical_id ns key)"
proof -
  let ?v = "canonical_id ns key"
  have plain: "\<And>c. c \<in> set ?v \<Longrightarrow> \<not> is_whitespace c \<and> \<not> is_control c \<and> code_of c < (128::nat)"
    using canonical_id_plain assms(1,2) by blast
  have "trim ?v = ?v"
    using plain by (intro trim_id) blast
  moreover have "?v \<noteq> []"
    by (simp add: canonical_id_def)
  moreover have "str_len ?v = length ?v"
    using plain by (intro str_len_ascii) blast
  moreover have "CHR '':'' \<notin> set ns" "CHR '':'' \<notin> set key"
    using assms(1,2) by (auto simp: id_segment_def list_all_iff dest: id_char_plain(3))
  then have "split_char CHR '':'' (drop (length apparatus_id_prefix) ?v) = [ns, key]"
    by (simp add: canonical_id_def split_char_append split_char_plain)
  moreover have "starts_with ?v apparatus_id_prefix"
    by (simp add: canonical_id_def starts_with_def)
  moreover have "list_all (\<lambda>c. \<not> is_whitespace c \<and> \<not> is_control c) ?v"
    using plain by (simp add: list_all_iff)
  ultimately show ?thesis
    using assms by (simp add: validate_shape_split)
qed

lemma is_valid_shape:
  assumes "is_valid v"
  obtains ns key where "id_segment ns" "id_segment key" "v = canonical_id ns key"
    "length v \<le> max_id_length"
proof -
  from assms obtain ns key where
    s: "split_char CHR '':'' (drop (length apparatus_id_prefix) v) = [ns, key]"
    and seg: "id_segment ns" "id_segment key"
    and pre: "take (length apparatus_id_prefix) v = apparatus_id_prefix"
    and len: "str_len v \<le> max_id_length"
    by (auto simp: validate_shape_split starts_with_def)
  have v: "v = canonical_id ns key"
    using pre split_char_two [OF s] append_take_drop_id [of "length apparatus_id_prefix" v]
    by (simp add: canonical_id_def)
  have "str_len v = length v"
    unfolding v using canonical_id_plain [OF seg] by (intro str_len_ascii) blast
  then show thesis
    using that seg v len by simp
qed

lemma canonical_id_inject:
  assumes "id_segment ns" "id_segment key" "id_segment ns'" "id_segment key'"
    and "canonical_id ns key = canonical_id ns' key'"
  shows "ns = ns' \<and> key = key'"
proof -
  have colon: "CHR '':'' \<notin> set s" if "id_segment s" for s
    using that by (auto simp: id_segment_def list_all_iff dest: id_char_plain(3))
  from assms(5) have "ns @ CHR '':'' # key = ns' @ CHR '':'' # key'"
    by (simp add: canonical_id_def)
  then have "split_char CHR '':'' (ns @ CHR '':'' # key) = split_char CHR '':'' (ns' @ CHR '':'' # key')"
    by simp
  then show ?thesis
    using colon assms(1-4) by (simp add: split_char_append split_char_plain)
qed

lemma is_valid_trim: "is_valid v \<Longrightarrow> trim v = v"
  by (simp add: validate_shape_split)

lemma apparatus_ids_match_iff:
  "apparatus_ids_match l r \<longleftrightarrow> trim l = trim r \<and> is_valid (trim l)"
  by (simp add: apparatus_ids_match_def Let_def)

text \<open>C31: The identity check accepts exactly the texts \<open>apparatus:<namespace>:<key>\<close> of at most
  128 bytes whose two segments are nonempty and made of lower-case letters, digits, dash,
  underscore and dot; the namespace and the key can be read back from the text, and the search
  key of an accepted text is the text itself.\<close>

theorem apparatus_identity_grammar:
  "(is_valid v \<longleftrightarrow>
      (\<exists>!p. id_segment (fst p) \<and> id_segment (snd p) \<and>
        v = canonical_id (fst p) (snd p) \<and> length v \<le> max_id_length)) \<and>
   apparatus_search_key v = (if is_valid (trim v) then trim v else [])"
proof
  show "is_valid v \<longleftrightarrow>
      (\<exists>!p. id_segment (fst p) \<and> id_segment (snd p) \<and>
        v = canonical_id (fst p) (snd p) \<and> length v \<le> max_id_length)"
  proof
    assume "is_valid v"
    then obtain ns key where p: "id_segment ns" "id_segment key" "v = canonical_id ns key"
      "length v \<le> max_id_length"
      by (rule is_valid_shape)
    show "\<exists>!p. id_segment (fst p) \<and> id_segment (snd p) \<and>
        v = canonical_id (fst p) (snd p) \<and> length v \<le> max_id_length"
    proof (rule ex1I [of _ "(ns, key)"])
      show "id_segment (fst (ns, key)) \<and> id_segment (snd (ns, key)) \<and>
          v = canonical_id (fst (ns, key)) (snd (ns, key)) \<and> length v \<le> max_id_length"
        using p by simp
    next
      fix q
      assume "id_segment (fst q) \<and> id_segment (snd q) \<and>
          v = canonical_id (fst q) (snd q) \<and> length v \<le> max_id_length"
      then have "fst q = ns \<and> snd q = key"
        using p by (intro canonical_id_inject) simp_all
      then show "q = (ns, key)"
        by (simp add: prod_eq_iff)
    qed
  next
    assume "\<exists>!p. id_segment (fst p) \<and> id_segment (snd p) \<and>
        v = canonical_id (fst p) (snd p) \<and> length v \<le> max_id_length"
    then obtain p where "id_segment (fst p)" "id_segment (snd p)" "v = canonical_id (fst p) (snd p)"
      "length v \<le> max_id_length"
      by blast
    then show "is_valid v"
      by (simp add: is_valid_canonical)
  qed
  show "apparatus_search_key v = (if is_valid (trim v) then trim v else [])"
    by (simp add: apparatus_search_key_def is_canonical_apparatus_id_def Let_def)
qed

end
