(* ===== verification/Map_Definition.thy ===== *)
theory Map_Definition
  imports Order_Layout Apparatus_Identity
begin

text \<open>
  The definition of a production map (\<^verbatim>\<open>catalog/definition.rs\<close>): its nodes, edges and
  formulas, and the program compiled from it.  Fields whose names several types share carry a
  prefix; \<^verbatim>\<open>i64\<close> fields are integers.
\<close>

section \<open>Production maps\<close>

record combo_reference =
  combo_id :: string
  combo_item_code :: string
  combo_name :: string
  combo_revision :: int
  combo_layout_fingerprint :: string

datatype production_map_node_kind =
  NkStart | NkLocation | NkMaterial | NkApparatus | NkKkProduct | NkFormula | NkCondition
  | NkTask | NkWait | NkOutput | NkEnd

record production_formula =
  target :: string
  expression :: string

record production_map_node =
  node_id :: string
  kind :: production_map_node_kind
  node_title :: string
  apparatus_id :: string
  formula :: "production_formula option"
  role_code :: string
  item_code :: string
  qty_formula :: string
  from_location :: string
  to_location :: string
  alternative_group_id :: string
  alternative_group_label :: string
  alternative_assigned_title :: string
  alternative_assigned_apparatus_id :: string
  rezka_kadr_count :: "int option"
  rezka_frame_groups :: "int list"
  rezka_label_length :: "f64 option"
  node_x :: f64
  node_y :: f64

record production_map_edge =
  edge_from :: string
  edge_to :: string
  branch :: string

record production_map_definition =
  combo :: "combo_reference option"
  products :: "order_product list"
  map_id :: string
  product_code :: string
  map_title :: string
  map_code :: string
  order_number :: string
  customer_name :: string
  image_id :: string
  roll_count :: "int option"
  width_mm :: "f64 option"
  print_val_size_mm :: "f64 option"
  order_kg :: "f64 option"
  base_length :: "f64 option"
  duplicate_rezka_labels :: "bool option"
  include_bobina_in_net :: "bool option"
  standard_print_side :: "bool option"
  nodes :: "production_map_node list"
  edges :: "production_map_edge list"

record production_map_operation =
  op_order :: nat
  op_node_id :: string
  op_code :: string
  op_args :: "(string \<times> string) list"

record production_map_program =
  program_map_id :: string
  program_product_code :: string
  operations :: "production_map_operation list"

definition canonical_apparatus_id :: "production_map_node \<Rightarrow> string option" where
  "canonical_apparatus_id node =
     (let assigned = trim (alternative_assigned_apparatus_id node);
          v = (if assigned = [] then trim (apparatus_id node) else assigned) in
      if is_valid v then Some v else None)"

definition base_apparatus_id :: "production_map_node \<Rightarrow> string option" where
  "base_apparatus_id node =
     (if is_valid (trim (apparatus_id node)) then Some (trim (apparatus_id node)) else None)"

definition layout_lanes :: "production_map_definition \<Rightarrow> order_lane list" where
  "layout_lanes m = lanes (products m) (map_id m) (order_number m)"

definition layout_widths :: "production_map_definition \<Rightarrow> f64 list" where
  "layout_widths m = map lane_width_mm (layout_lanes m)"

definition useful_width_mm :: "production_map_definition \<Rightarrow> f64 option" where
  "useful_width_mm m = (if products m = [] then width_mm m else Some (useful_width (products m)))"

definition print_compatibility_width_mm :: "production_map_definition \<Rightarrow> f64 option" where
  "print_compatibility_width_mm m =
     (case print_val_size_mm m of Some w \<Rightarrow> Some w | None \<Rightarrow> width_mm m)"

end
