(* ===== verification/Map_Compiler.thy ===== *)
theory Map_Compiler
  imports Map_Definition Formula
begin

text \<open>
  The compiler of production maps (\<^verbatim>\<open>compiler/normalize.rs\<close>, \<^verbatim>\<open>validation.rs\<close>,
  \<^verbatim>\<open>graph.rs\<close>, \<^verbatim>\<open>operation.rs\<close>, \<^verbatim>\<open>mod.rs\<close>): the normal form of a map, its
  validation, the topological order of its nodes and the program compiled from it.  The loop of
  the topological order has fuel for one round per node and one more, which is shown to be enough;
  the \<^verbatim>\<open>expect\<close> calls of the source are the outcome \<^const>\<open>Panic\<close>.
\<close>

section \<open>Normal form\<close>

definition normalize_branch :: "string \<Rightarrow> string" where
  "normalize_branch b =
     (let b = trim b in
      if b = ''1'' \<or> eq_ignore_ascii_case b ''ha'' \<or> eq_ignore_ascii_case b ''yes''
         \<or> eq_ignore_ascii_case b ''true''
      then ''true''
      else if b = ''0'' \<or> eq_ignore_ascii_case b (''yo'' @ CHR 0x27 # ''q'')
         \<or> eq_ignore_ascii_case b ''yoq'' \<or> eq_ignore_ascii_case b ''no''
         \<or> eq_ignore_ascii_case b ''false''
      then ''false''
      else to_ascii_lowercase b)"

definition normalize_formula :: "production_formula \<Rightarrow> production_formula" where
  "normalize_formula f = \<lparr> target = trim (target f), expression = trim (expression f) \<rparr>"

definition normalize_node :: "production_map_node \<Rightarrow> production_map_node" where
  "normalize_node n = n \<lparr>
     node_id := to_ascii_lowercase (trim (node_id n)),
     node_title := trim (node_title n),
     apparatus_id := trim (apparatus_id n),
     role_code := trim (role_code n),
     item_code := trim (item_code n),
     qty_formula := trim (qty_formula n),
     from_location := trim (from_location n),
     to_location := trim (to_location n),
     alternative_group_id := trim (alternative_group_id n),
     alternative_group_label := trim (alternative_group_label n),
     alternative_assigned_title := trim (alternative_assigned_title n),
     alternative_assigned_apparatus_id := trim (alternative_assigned_apparatus_id n),
     node_x := (if is_finite (node_x n) then node_x n else f64_zero),
     node_y := (if is_finite (node_y n) then node_y n else f64_zero),
     formula := map_option normalize_formula (formula n) \<rparr>"

definition normalize_edge :: "production_map_edge \<Rightarrow> production_map_edge" where
  "normalize_edge e =
     \<lparr> edge_from = to_ascii_lowercase (trim (edge_from e)),
       edge_to = to_ascii_lowercase (trim (edge_to e)),
       branch = normalize_branch (branch e) \<rparr>"

definition normalize_map :: "production_map_definition \<Rightarrow> production_map_definition" where
  "normalize_map m = m \<lparr>
     map_id := to_ascii_lowercase (trim (map_id m)),
     product_code := trim (product_code m),
     map_title := trim (map_title m),
     map_code := trim (map_code m),
     order_number := trim (order_number m),
     roll_count := (case roll_count m of Some v \<Rightarrow> if v \<le> 0 then None else Some v | None \<Rightarrow> None),
     width_mm := (case width_mm m of
        Some v \<Rightarrow> if \<not> is_finite v \<or> f64_le v f64_zero then None else Some v | None \<Rightarrow> None),
     nodes := map normalize_node (nodes m),
     edges := map normalize_edge (edges m) \<rparr>"

definition reject_order_number_immutable ::
  "(string, production_map_definition) btree_map \<Rightarrow> production_map_definition \<Rightarrow> unit pm_result" where
  "reject_order_number_immutable maps next =
     (let i = trim (map_id next); number = trim (order_number next) in
      if \<not> starts_with i ''zakaz-'' then Inr ()
      else if number = [] then Inr ()
      else
        (case bt_get maps i of
           None \<Rightarrow> Inr ()
         | Some existing \<Rightarrow>
             (let existing_number = trim (order_number existing) in
              if existing_number \<noteq> [] \<and> existing_number \<noteq> number
              then Inl (Err OrderNumberImmutable) else Inr ())))"

section \<open>Validation\<close>

fun sum_groups :: "int \<Rightarrow> int list \<Rightarrow> int pm_result" where
  "sum_groups total_count [] = Inr total_count"
| "sum_groups total_count (g # gs) =
     (if g \<le> 0 then Inl (Err InvalidRezkaFrameGroups)
      else bind_outcome (ok_or (checked_i64 (total_count + g)) InvalidRezkaFrameGroups)
        (\<lambda>t. sum_groups t gs))"

definition validate_rezka_frame_groups :: "production_map_node \<Rightarrow> unit pm_result" where
  "validate_rezka_frame_groups node =
     (if rezka_frame_groups node = [] then Inr ()
      else
        (case rezka_kadr_count node of
           Some expected \<Rightarrow>
             if expected \<le> 0 then Inl (Err InvalidRezkaFrameGroups)
             else bind_outcome (sum_groups 0 (rezka_frame_groups node))
               (\<lambda>t. guard_outcome (t = expected) InvalidRezkaFrameGroups)
         | None \<Rightarrow> Inl (Err InvalidRezkaFrameGroups)))"

definition validate_apparatus_identity ::
  "production_map_definition \<Rightarrow> production_map_node \<Rightarrow> unit pm_result" where
  "validate_apparatus_identity m node =
     (let own = trim (apparatus_id node);
          assigned = trim (alternative_assigned_apparatus_id node);
          group = trim (alternative_group_id node) in
      if own = [] \<or> \<not> is_valid own then Inl (Err MissingId)
      else if assigned = []
      then (if trim (alternative_assigned_title node) \<noteq> [] then Inl (Err MissingId) else Inr ())
      else if \<not> is_valid assigned then Inl (Err MissingId)
      else if group = [] \<or> \<not> list_ex (\<lambda>candidate.
          kind candidate = NkApparatus \<and> trim (alternative_group_id candidate) = group
          \<and> trim (apparatus_id candidate) = assigned) (nodes m)
      then Inl (Err MissingId)
      else Inr ())"

definition validate_qty_formula :: "production_map_node \<Rightarrow> unit pm_result" where
  "validate_qty_formula node =
     (if trim (qty_formula node) \<noteq> [] then validate_formula_expression (qty_formula node)
      else Inr ())"

definition validate_node_kind ::
  "production_map_definition \<Rightarrow> production_map_node \<Rightarrow> unit pm_result" where
  "validate_node_kind m node =
     (case kind node of
        NkFormula \<Rightarrow>
          (case formula node of
             None \<Rightarrow> Inl (Err MissingFormulaExpression)
           | Some f \<Rightarrow>
               if trim (target f) = [] then Inl (Err MissingFormulaTarget)
               else if trim (expression f) = [] then Inl (Err MissingFormulaExpression)
               else bind_outcome (validate_formula_target (target f))
                 (\<lambda>_. validate_formula_expression (expression f)))
      | NkCondition \<Rightarrow>
          (case formula node of
             None \<Rightarrow> Inl (Err MissingFormulaExpression)
           | Some f \<Rightarrow>
               if trim (expression f) = [] then Inl (Err MissingFormulaExpression)
               else validate_condition_expression (expression f))
      | NkApparatus \<Rightarrow>
          bind_outcome (validate_apparatus_identity m node)
            (\<lambda>_. bind_outcome (validate_rezka_frame_groups node)
              (\<lambda>_. validate_qty_formula node))
      | NkStart \<Rightarrow> Inr ()
      | NkEnd \<Rightarrow> Inr ()
      | NkLocation \<Rightarrow> Inr ()
      | _ \<Rightarrow> validate_qty_formula node)"

definition validate_node ::
  "production_map_definition \<Rightarrow> production_map_node \<Rightarrow> unit pm_result" where
  "validate_node m node =
     bind_outcome (validate_node_kind m node)
       (\<lambda>_. bind_outcome (validate_location_ref (from_location node))
         (\<lambda>_. validate_location_ref (to_location node)))"

fun validate_nodes ::
  "production_map_definition \<Rightarrow> string set \<Rightarrow> production_map_node list \<Rightarrow> unit pm_result" where
  "validate_nodes m ids [] = Inr ()"
| "validate_nodes m ids (n # ns) =
     (if node_id n \<in> ids then Inl (Err (DuplicateNode (node_id n)))
      else bind_outcome (validate_node m n)
        (\<lambda>_. validate_nodes m (insert (node_id n) ids) ns))"

definition count_kind :: "production_map_node_kind \<Rightarrow> production_map_node list \<Rightarrow> nat" where
  "count_kind k ns = length (filter (\<lambda>n. kind n = k) ns)"

definition validate_edge :: "string list \<Rightarrow> production_map_edge \<Rightarrow> unit pm_result" where
  "validate_edge ids e =
     (if edge_from e \<notin> set ids then Inl (Err (MissingEdgeNode (edge_from e)))
      else if edge_to e \<notin> set ids then Inl (Err (MissingEdgeNode (edge_to e)))
      else Inr ())"

definition validate_branches ::
  "production_map_definition \<Rightarrow> production_map_node \<Rightarrow> unit pm_result" where
  "validate_branches m node =
     (if kind node \<noteq> NkCondition then Inr ()
      else
        (let branches = map (\<lambda>e. normalize_branch (branch e))
               (filter (\<lambda>e. edge_from e = node_id node) (edges m)) in
         guard_outcome (''true'' \<in> set branches \<and> ''false'' \<in> set branches)
           MissingConditionBranch))"

definition validate_combo :: "production_map_definition \<Rightarrow> unit pm_result" where
  "validate_combo m =
     (case combo m of
        None \<Rightarrow> Inr ()
      | Some c \<Rightarrow>
          guard_outcome (\<not> (products m = [] \<or> combo_revision c < 1 \<or> combo_id c = []
              \<or> product_code m \<noteq> combo_item_code c \<or> map_title m \<noteq> combo_name c))
            ProgressInputInvalid)"

definition validate_layout :: "production_map_definition \<Rightarrow> unit pm_result" where
  "validate_layout m =
     guard_outcome (is_ok (validate_products (products m))) ProgressInputInvalid"

definition validate_print_val_size :: "production_map_definition \<Rightarrow> unit pm_result" where
  "validate_print_val_size m =
     (case print_val_size_mm m of
        None \<Rightarrow> Inr ()
      | Some v \<Rightarrow>
          guard_outcome (\<not> (\<not> is_finite v \<or> f64_le v f64_zero)) InvalidPrintValSize)"

definition validate_map :: "production_map_definition \<Rightarrow> unit pm_result" where
  "validate_map m =
     bind_outcome (validate_combo m) (\<lambda>_.
     bind_outcome (validate_layout m) (\<lambda>_.
     bind_outcome (validate_print_val_size m) (\<lambda>_.
     bind_outcome (guard_outcome (trim (map_id m) \<noteq> []) MissingId) (\<lambda>_.
     bind_outcome (guard_outcome (trim (product_code m) \<noteq> []) MissingProductCode) (\<lambda>_.
     bind_outcome (guard_outcome (trim (map_title m) \<noteq> []) MissingTitle) (\<lambda>_.
     bind_outcome (validate_nodes m {} (nodes m)) (\<lambda>_.
     bind_outcome (guard_outcome (count_kind NkStart (nodes m) = 1) MissingStart) (\<lambda>_.
     bind_outcome (guard_outcome (count_kind NkEnd (nodes m) = 1) MissingEnd) (\<lambda>_.
     bind_outcome (each_outcome (validate_edge (map node_id (nodes m))) (edges m)) (\<lambda>_.
     each_outcome (validate_branches m) (nodes m)))))))))))"

section \<open>The topological order\<close>

type_synonym indegrees = "(string, nat) btree_map"
type_synonym adjacency = "(string, string list) btree_map"

definition initial_indegree :: "production_map_node list \<Rightarrow> indegrees" where
  "initial_indegree ns = bt_collect (map (\<lambda>n. (node_id n, 0)) ns)"

definition initial_outgoing :: "production_map_node list \<Rightarrow> adjacency" where
  "initial_outgoing ns = bt_collect (map (\<lambda>n. (node_id n, [])) ns)"

fun count_edges ::
  "production_map_edge list \<Rightarrow> indegrees \<Rightarrow> adjacency \<Rightarrow> (indegrees \<times> adjacency) pm_result" where
  "count_edges [] indegree outgoing = Inr (indegree, outgoing)"
| "count_edges (e # es) indegree outgoing =
     bind_outcome (expect (bt_get indegree (edge_to e))) (\<lambda>n.
     bind_outcome (expect (bt_get outgoing (edge_from e))) (\<lambda>children.
     count_edges es (bt_insert (edge_to e) (n + 1) indegree)
       (bt_insert (edge_from e) (children @ [edge_to e]) outgoing)))"

fun relax_children ::
  "string list \<Rightarrow> indegrees \<Rightarrow> string list \<Rightarrow> (indegrees \<times> string list) pm_result" where
  "relax_children [] indegree queue = Inr (indegree, queue)"
| "relax_children (child # children) indegree queue =
     bind_outcome (expect (bt_get indegree child)) (\<lambda>n.
     relax_children children (bt_insert child (n - 1) indegree)
       (if n - 1 = 0 then queue @ [child] else queue))"

fun topological_loop ::
  "nat \<Rightarrow> adjacency \<Rightarrow> indegrees \<Rightarrow> string list \<Rightarrow> string list \<Rightarrow> string list pm_result" where
  "topological_loop fuel outgoing indegree [] order = Inr order"
| "topological_loop 0 outgoing indegree (i # queue) order = Inl OutOfFuel"
| "topological_loop (Suc fuel) outgoing indegree (i # queue) order =
     bind_outcome
       (relax_children (case bt_get outgoing i of None \<Rightarrow> [] | Some cs \<Rightarrow> cs) indegree queue)
       (\<lambda>(indegree, queue). topological_loop fuel outgoing indegree queue (order @ [i]))"

definition topological_order :: "production_map_definition \<Rightarrow> string list pm_result" where
  "topological_order m =
     bind_outcome
       (count_edges (edges m) (initial_indegree (nodes m)) (initial_outgoing (nodes m)))
       (\<lambda>(indegree, outgoing).
          bind_outcome
            (topological_loop (length (nodes m)) outgoing indegree
              (map fst (filter (\<lambda>(i, n). n = 0) indegree)) [])
            (\<lambda>order. if length order \<noteq> length (nodes m) then Inl (Err Cycle) else Inr order))"

section \<open>The program\<close>

definition put_if :: "bool \<Rightarrow> string \<Rightarrow> string \<Rightarrow> (string, string) btree_map \<Rightarrow> (string, string) btree_map"
where
  "put_if b k v args = (if b then bt_insert k v args else args)"

definition put_nonempty ::
  "string \<Rightarrow> string \<Rightarrow> (string, string) btree_map \<Rightarrow> (string, string) btree_map" where
  "put_nonempty k v args = put_if (v \<noteq> []) k v args"

definition node_args :: "production_map_node \<Rightarrow> (string, string) btree_map" where
  "node_args node =
     (let args = bt_insert ''title'' (node_title node) [];
          args = put_if (kind node = NkApparatus) ''apparatus_id'' (apparatus_id node) args;
          args = put_nonempty ''role_code'' (role_code node) args;
          args = put_nonempty ''item_code'' (item_code node) args;
          args = put_nonempty ''qty_formula'' (qty_formula node) args;
          args = put_nonempty ''from_location'' (from_location node) args;
          args = put_nonempty ''to_location'' (to_location node) args;
          args = put_nonempty ''alternative_group_id'' (alternative_group_id node) args;
          args = put_nonempty ''alternative_group_label'' (alternative_group_label node) args;
          args = put_nonempty ''alternative_assigned_title'' (alternative_assigned_title node) args;
          args = put_nonempty ''alternative_assigned_apparatus_id''
                   (alternative_assigned_apparatus_id node) args;
          args = (case rezka_kadr_count node of
                    Some v \<Rightarrow> bt_insert ''rezka_kadr_count'' (decimal_of_int v) args | None \<Rightarrow> args) in
      case rezka_label_length node of
        Some v \<Rightarrow> bt_insert ''rezka_label_length'' (f64_to_string v) args | None \<Rightarrow> args)"

fun op_code_of :: "production_map_node_kind \<Rightarrow> string" where
  "op_code_of NkStart = ''start''"
| "op_code_of NkLocation = ''warehouse_location''"
| "op_code_of NkMaterial = ''require_material''"
| "op_code_of NkApparatus = ''apparatus''"
| "op_code_of NkKkProduct = ''kk_product''"
| "op_code_of NkFormula = ''calculate''"
| "op_code_of NkCondition = ''condition''"
| "op_code_of NkTask = ''create_task''"
| "op_code_of NkWait = ''wait_dependency''"
| "op_code_of NkOutput = ''produce_output''"
| "op_code_of NkEnd = ''end''"

definition compile_node ::
  "nat \<Rightarrow> production_map_node \<Rightarrow> production_map_operation pm_result" where
  "compile_node n node =
     bind_outcome
       (if kind node = NkFormula then
          (case formula node of
             None \<Rightarrow> Inl (Err MissingFormulaExpression)
           | Some f \<Rightarrow> Inr (bt_insert ''expression'' (expression f)
               (bt_insert ''target'' (target f) (node_args node))))
        else if kind node = NkCondition then
          (case formula node of
             None \<Rightarrow> Inl (Err MissingFormulaExpression)
           | Some f \<Rightarrow> Inr (bt_insert ''expression'' (expression f) (node_args node)))
        else Inr (node_args node))
       (\<lambda>args. Inr \<lparr> op_order = n, op_node_id = node_id node, op_code = op_code_of (kind node),
          op_args = args \<rparr>)"

definition node_by_id ::
  "production_map_definition \<Rightarrow> (string, production_map_node) btree_map" where
  "node_by_id m = bt_collect (map (\<lambda>n. (node_id n, n)) (nodes m))"

definition compile_map :: "production_map_definition \<Rightarrow> production_map_program pm_result" where
  "compile_map m =
     bind_outcome (validate_map m) (\<lambda>_.
     bind_outcome (topological_order m) (\<lambda>order.
     bind_outcome
       (map_outcome
         (\<lambda>(index, i). bind_outcome (expect (bt_get (node_by_id m) i))
            (\<lambda>node. compile_node (index + 1) node))
         (List.enumerate 0 order))
       (\<lambda>ops. Inr \<lparr> program_map_id = map_id m, program_product_code = product_code m,
          operations = ops \<rparr>)))"

end
