(* ===== verification/Map_Runner.thy ===== *)
theory Map_Runner
  imports Map_Compiler
begin

text \<open>
  Running a production map for an ordered quantity (\<^verbatim>\<open>compiler/runner.rs\<close>): the walk from
  the start node, formulas that bind variables, conditions that choose a branch, and the task
  drafts with their quantities.  The loop has fuel for one round per node and one more.
\<close>

record production_task_draft =
  task_order :: nat
  task_node_id :: string
  task_kind :: string
  task_title :: string
  task_role_code :: string
  task_item_code :: string
  task_from_location :: string
  task_to_location :: string
  task_qty :: f64

record production_map_run_result =
  run_map_id :: string
  run_product_code :: string
  run_order_qty :: f64
  run_variables :: formula_env
  run_tasks :: "production_task_draft list"
  visited_node_ids :: "string list"
  awaiting_node_id :: string
  awaiting_variable :: string
  awaiting_expression :: string

definition input_variables :: "f64 \<Rightarrow> formula_env \<Rightarrow> formula_env" where
  "input_variables order_qty vars = bt_insert ''order_qty'' order_qty vars"

definition node_qty :: "production_map_node \<Rightarrow> f64 \<Rightarrow> formula_env \<Rightarrow> f64 pm_result" where
  "node_qty node order_qty vars =
     bind_outcome
       (if trim (qty_formula node) = [] then Inr order_qty
        else evaluate_formula (qty_formula node) vars)
       (\<lambda>qty. if finite_positive qty then Inr qty else Inl (Err (InvalidNodeQty (node_id node))))"

definition run_result ::
  "production_map_definition \<Rightarrow> f64 \<Rightarrow> formula_env \<Rightarrow> production_task_draft list \<Rightarrow> string list
     \<Rightarrow> string \<Rightarrow> string \<Rightarrow> string \<Rightarrow> production_map_run_result" where
  "run_result m order_qty vars tasks path node variable expr =
     \<lparr> run_map_id = map_id m, run_product_code = product_code m, run_order_qty = order_qty,
       run_variables = vars, run_tasks = tasks, visited_node_ids = path,
       awaiting_node_id = node, awaiting_variable = variable, awaiting_expression = expr \<rparr>"

text \<open>A node is done, or it is a condition that waits for a variable.\<close>

datatype visit = Done formula_env "production_task_draft list" | Awaiting string string

definition task_of ::
  "production_map_node \<Rightarrow> nat \<Rightarrow> string \<Rightarrow> f64 \<Rightarrow> production_task_draft" where
  "task_of node n k qty =
     \<lparr> task_order = n, task_node_id = node_id node, task_kind = k, task_title = node_title node,
       task_role_code = role_code node, task_item_code = item_code node,
       task_from_location = from_location node, task_to_location = to_location node,
       task_qty = qty \<rparr>"

definition visit_node ::
  "production_map_node \<Rightarrow> f64 \<Rightarrow> formula_env \<Rightarrow> production_task_draft list \<Rightarrow> visit pm_result" where
  "visit_node node order_qty vars tasks =
     (case kind node of
        NkFormula \<Rightarrow>
          (case formula node of
             None \<Rightarrow> Inl (Err MissingFormulaExpression)
           | Some f \<Rightarrow>
               bind_outcome (evaluate_formula (expression f) vars)
                 (\<lambda>v. Inr (Done (bt_insert (target f) v vars) tasks)))
      | NkCondition \<Rightarrow>
          (case formula node of
             None \<Rightarrow> Inl (Err MissingFormulaExpression)
           | Some f \<Rightarrow>
               (case evaluate_condition (expression f) vars of
                  Inr result \<Rightarrow>
                    Inr (Done (bt_insert (node_id node)
                      (if result then f64_of_int 1 else f64_zero) vars) tasks)
                | Inl (Err (UnknownFormulaVariable x)) \<Rightarrow> Inr (Awaiting x (expression f))
                | Inl e \<Rightarrow> Inl e))
      | NkLocation \<Rightarrow> Inr (Done vars tasks)
      | NkStart \<Rightarrow> Inr (Done vars tasks)
      | NkEnd \<Rightarrow> Inr (Done vars tasks)
      | _ \<Rightarrow>
          bind_outcome (node_qty node order_qty vars) (\<lambda>qty.
          bind_outcome (compile_node (length tasks + 1) node) (\<lambda>operation.
          Inr (Done vars (tasks @ [task_of node (length tasks + 1) (op_code operation) qty])))))"

definition outgoing_edges :: "production_map_definition \<Rightarrow> string \<Rightarrow> production_map_edge list" where
  "outgoing_edges m i = filter (\<lambda>e. edge_from e = i) (edges m)"

definition next_node ::
  "production_map_definition \<Rightarrow> production_map_node \<Rightarrow> formula_env \<Rightarrow> string option pm_result" where
  "next_node m node vars =
     (let es = outgoing_edges m (node_id node) in
      if kind node = NkCondition then
        (let truth = (case bt_get vars (node_id node) of None \<Rightarrow> f64_zero | Some v \<Rightarrow> v);
             wanted = (if f64_eq truth f64_zero then ''false'' else ''true'') in
         case find (\<lambda>e. normalize_branch (branch e) = wanted) es of
           None \<Rightarrow> Inl (Err MissingConditionBranch)
         | Some e \<Rightarrow> Inr (Some (edge_to e)))
      else Inr (case es of [] \<Rightarrow> None | e # _ \<Rightarrow> Some (edge_to e)))"

fun run_loop ::
  "nat \<Rightarrow> production_map_definition \<Rightarrow> f64 \<Rightarrow> formula_env \<Rightarrow> production_task_draft list
     \<Rightarrow> string set \<Rightarrow> string list \<Rightarrow> string \<Rightarrow> production_map_run_result pm_result" where
  "run_loop 0 m order_qty vars tasks visited path current = Inl OutOfFuel"
| "run_loop (Suc fuel) m order_qty vars tasks visited path current =
     (if current \<in> visited then Inr (run_result m order_qty vars tasks path [] [] [])
      else
        bind_outcome (expect (bt_get (node_by_id m) current)) (\<lambda>node.
          let path = path @ [node_id node] in
          if kind node = NkEnd then Inr (run_result m order_qty vars tasks path [] [] [])
          else
            bind_outcome (visit_node node order_qty vars tasks) (\<lambda>visit.
              case visit of
                Awaiting x e \<Rightarrow>
                  Inr (run_result m order_qty vars tasks path (node_id node) x e)
              | Done vars tasks \<Rightarrow>
                  bind_outcome (next_node m node vars) (\<lambda>next.
                    case next of
                      None \<Rightarrow> Inr (run_result m order_qty vars tasks path [] [] [])
                    | Some i \<Rightarrow>
                        run_loop fuel m order_qty vars tasks (insert current visited) path i))))"

definition run_map_with_variables ::
  "production_map_definition \<Rightarrow> f64 \<Rightarrow> formula_env \<Rightarrow> production_map_run_result pm_result" where
  "run_map_with_variables m order_qty vars =
     (if f64_le order_qty f64_zero then Inl (Err InvalidOrderQty)
      else
        bind_outcome (compile_map m) (\<lambda>_.
          case find (\<lambda>n. kind n = NkStart) (nodes m) of
            None \<Rightarrow> Inl (Err MissingStart)
          | Some start \<Rightarrow>
              run_loop (Suc (length (nodes m))) m order_qty
                (input_variables order_qty vars) [] {} [] (node_id start)))"

end
