(* ===== verification/Compiler_Laws.thy ===== *)
theory Compiler_Laws
  imports Map_Compiler Formula_Laws
begin

text \<open>
  Correctness of the map compiler: what validation establishes, the topological order (it is a
  permutation of the nodes in which every edge points forward, and it fails exactly on cyclic
  maps), the compiled program, and the normal form.
\<close>

section \<open>What validation establishes\<close>

definition node_ids :: "production_map_definition \<Rightarrow> string list" where
  "node_ids m = map node_id (nodes m)"

definition edge_pairs :: "production_map_definition \<Rightarrow> (string \<times> string) list" where
  "edge_pairs m = map (\<lambda>e. (edge_from e, edge_to e)) (edges m)"

definition well_formed :: "production_map_definition \<Rightarrow> bool" where
  "well_formed m \<longleftrightarrow>
     distinct (node_ids m) \<and> set (edge_pairs m) \<subseteq> set (node_ids m) \<times> set (node_ids m)"

lemma validate_nodes_Inr:
  "validate_nodes m ids ns = Inr u \<Longrightarrow>
     distinct (map node_id ns) \<and> set (map node_id ns) \<inter> ids = {} \<and>
     (\<forall>n\<in>set ns. validate_node m n = Inr ())"
proof (induction ns arbitrary: ids)
  case Nil
  then show ?case by simp
next
  case (Cons n ns)
  then show ?case
    by (fastforce simp: bind_outcome_eq_Inr split: if_splits)
qed

lemma validated_map:
  assumes "validate_map m = Inr u"
  shows "well_formed m"
    and "count_kind NkStart (nodes m) = 1"
    and "count_kind NkEnd (nodes m) = 1"
    and "n \<in> set (nodes m) \<Longrightarrow> validate_node m n = Inr ()"
    and "n \<in> set (nodes m) \<Longrightarrow> validate_branches m n = Inr ()"
proof -
  from assms have ns: "validate_nodes m {} (nodes m) = Inr ()"
    and es: "each_outcome (validate_edge (node_ids m)) (edges m) = Inr ()"
    and rest: "count_kind NkStart (nodes m) = 1" "count_kind NkEnd (nodes m) = 1"
      "each_outcome (validate_branches m) (nodes m) = Inr ()"
    by (simp_all add: validate_map_def bind_outcome_eq_Inr node_ids_def)
  from es have "\<forall>e\<in>set (edges m). edge_from e \<in> set (node_ids m) \<and> edge_to e \<in> set (node_ids m)"
    by (auto simp: each_outcome_Inr validate_edge_def split: if_splits)
  then show "well_formed m"
    using validate_nodes_Inr [OF ns] by (auto simp: well_formed_def node_ids_def edge_pairs_def)
  show "count_kind NkStart (nodes m) = 1" "count_kind NkEnd (nodes m) = 1"
    by (fact rest)+
  show "validate_node m n = Inr ()" if "n \<in> set (nodes m)"
    using validate_nodes_Inr [OF ns] that by blast
  show "validate_branches m n = Inr ()" if "n \<in> set (nodes m)"
    using rest(3) that by (simp add: each_outcome_Inr)
qed

section \<open>The topological order\<close>

text \<open>The edges into a node whose source has not been placed yet.\<close>

definition pending_edges :: "(string \<times> string) list \<Rightarrow> string set \<Rightarrow> string \<Rightarrow> nat" where
  "pending_edges es placed v = length (filter (\<lambda>(u, w). w = v \<and> u \<notin> placed) es)"

definition children_of :: "(string \<times> string) list \<Rightarrow> string \<Rightarrow> string list" where
  "children_of es u = map snd (filter (\<lambda>(w, v). w = u) es)"

definition forward :: "(string \<times> string) list \<Rightarrow> string list \<Rightarrow> bool" where
  "forward es order \<longleftrightarrow>
     (\<forall>(u, v)\<in>set es. \<forall>k < length order. order ! k = v \<longrightarrow> u \<in> set (take k order))"

lemma count_edges_result:
  assumes "\<forall>e\<in>set es. bt_get ind (edge_to e) \<noteq> None \<and> bt_get out (edge_from e) \<noteq> None"
    and "bt_wf ind"
  shows "\<exists>ind' out'. count_edges es ind out = Inr (ind', out') \<and> bt_wf ind' \<and>
    (\<forall>v. bt_get ind' v = map_option (\<lambda>n. n + length (filter (\<lambda>e. edge_to e = v) es)) (bt_get ind v)) \<and>
    (\<forall>u. bt_get out' u =
       map_option (\<lambda>cs. cs @ map edge_to (filter (\<lambda>e. edge_from e = u) es)) (bt_get out u))"
  using assms
proof (induction es arbitrary: ind out)
  case Nil
  have "map_option (\<lambda>cs. cs) x = x" for x :: "string list option"
    by (cases x) auto
  moreover have "map_option (\<lambda>n. n) x = x" for x :: "nat option"
    by (cases x) auto
  ultimately show ?case using Nil by simp
next
  case (Cons e es)
  then obtain n cs where get: "bt_get ind (edge_to e) = Some n" "bt_get out (edge_from e) = Some cs"
    by auto
  let ?ind = "bt_insert (edge_to e) (n + 1) ind"
  let ?out = "bt_insert (edge_from e) (cs @ [edge_to e]) out"
  have "\<forall>f\<in>set es. bt_get ?ind (edge_to f) \<noteq> None \<and> bt_get ?out (edge_from f) \<noteq> None"
    using Cons.prems(1) by auto
  from Cons.IH [OF this] Cons.prems(2) obtain ind' out' where
    IH: "count_edges es ?ind ?out = Inr (ind', out')" "bt_wf ind'"
    "\<forall>v. bt_get ind' v = map_option (\<lambda>n. n + length (filter (\<lambda>e. edge_to e = v) es)) (bt_get ?ind v)"
    "\<forall>u. bt_get out' u =
       map_option (\<lambda>cs. cs @ map edge_to (filter (\<lambda>e. edge_from e = u) es)) (bt_get ?out u)"
    by blast
  then show ?case
    using get by (intro exI [of _ ind'] exI [of _ out']) (auto simp: fun_upd_def)
qed

lemma relax_result:
  assumes "\<forall>v\<in>set cs. \<exists>n. bt_get ind v = Some n \<and> count_list cs v \<le> n"
  shows "\<exists>ind' new. relax_children cs ind q = Inr (ind', q @ new) \<and>
    (\<forall>v. bt_get ind' v = map_option (\<lambda>n. n - count_list cs v) (bt_get ind v)) \<and>
    distinct new \<and> set new = {v \<in> set cs. bt_get ind v = Some (count_list cs v)}"
  using assms
proof (induction cs arbitrary: ind q)
  case Nil
  have "map_option (\<lambda>n. n) x = x" for x :: "nat option"
    by (cases x) auto
  then show ?case by simp
next
  case (Cons c cs)
  then obtain n where n: "bt_get ind c = Some n" "Suc (count_list cs c) \<le> n"
    by auto
  let ?ind = "bt_insert c (n - 1) ind" and ?q = "if n - 1 = 0 then q @ [c] else q"
  have "\<forall>v\<in>set cs. \<exists>n. bt_get ?ind v = Some n \<and> count_list cs v \<le> n"
    using Cons.prems n by (auto split: if_splits)
  from Cons.IH [OF this, of ?q] obtain ind' new where
    IH: "relax_children cs ?ind ?q = Inr (ind', ?q @ new)"
    "\<forall>v. bt_get ind' v = map_option (\<lambda>n. n - count_list cs v) (bt_get ?ind v)"
    "distinct new" "set new = {v \<in> set cs. bt_get ?ind v = Some (count_list cs v)}"
    by blast
  let ?new = "(if n - 1 = 0 then [c] else []) @ new"
  have c_new: "c \<in> set new \<longleftrightarrow> c \<in> set cs \<and> n = Suc (count_list cs c)"
    unfolding IH(4) using n by auto
  have gone: "n - 1 = 0 \<Longrightarrow> count_list cs c = 0"
    using n(2) by linarith
  have "relax_children (c # cs) ind q = relax_children cs ?ind ?q"
    using n(1) by simp
  moreover have "?q @ new = q @ ?new"
    by simp
  ultimately have "relax_children (c # cs) ind q = Inr (ind', q @ ?new)"
    using IH(1) by (simp only:)
  moreover have "bt_get ind' v = map_option (\<lambda>n. n - count_list (c # cs) v) (bt_get ind v)" for v
    using IH(2) n(1) by (cases "v = c") simp_all
  moreover have "distinct ?new"
    using IH(3) c_new gone by (auto simp: count_list_0_iff)
  moreover have "v \<in> set ?new \<longleftrightarrow> v \<in> set (c # cs) \<and> bt_get ind v = Some (count_list (c # cs) v)" for v
  proof (cases "v = c")
    case True
    have "n - 1 = 0 \<or> c \<in> set new \<longleftrightarrow> n = Suc (count_list cs c)"
      using c_new gone n(2) by (cases "c \<in> set cs") (auto simp: count_list_0_iff)
    with True n(1) show ?thesis by auto
  next
    case False
    then show ?thesis
      using IH(4) by auto
  qed
  ultimately show ?case by blast
qed

lemma pending_edges_place:
  assumes "i \<notin> placed"
  shows "pending_edges es (insert i placed) v = pending_edges es placed v - count_list (children_of es i) v"
    and "count_list (children_of es i) v \<le> pending_edges es placed v"
  using assms by (induction es) (auto simp: pending_edges_def children_of_def)

text \<open>The invariant of the loop.\<close>

definition kahn_inv ::
  "string list \<Rightarrow> (string \<times> string) list \<Rightarrow> indegrees \<Rightarrow> string list \<Rightarrow> string list \<Rightarrow> bool" where
  "kahn_inv ids es ind queue order \<longleftrightarrow>
     distinct (order @ queue) \<and> set (order @ queue) \<subseteq> set ids \<and>
     (\<forall>v\<in>set ids. bt_get ind v = Some (pending_edges es (set order) v)) \<and>
     (\<forall>v\<in>set ids. pending_edges es (set order) v = 0 \<longleftrightarrow> v \<in> set (order @ queue)) \<and>
     forward es order"

lemma forward_snoc:
  assumes "forward es order" "i \<notin> set order" "pending_edges es (set order) i = 0"
  shows "forward es (order @ [i])"
proof -
  have "u \<in> set order" if "(u, i) \<in> set es" for u
    using assms(3) that by (auto simp: pending_edges_def filter_empty_conv)
  then show ?thesis
    using assms(1) by (fastforce simp: forward_def nth_append less_Suc_eq split: if_splits)
qed

lemma kahn_step:
  assumes inv: "kahn_inv ids es ind (i # queue) order"
    and es: "set es \<subseteq> set ids \<times> set ids"
  shows "\<exists>ind' queue'. relax_children (children_of es i) ind queue = Inr (ind', queue') \<and>
    kahn_inv ids es ind' queue' (order @ [i])"
proof -
  let ?cs = "children_of es i"
  from inv have dist: "distinct (order @ i # queue)" and sub: "set (order @ i # queue) \<subseteq> set ids"
    and ind: "\<And>v. v \<in> set ids \<Longrightarrow> bt_get ind v = Some (pending_edges es (set order) v)"
    and zero: "\<And>v. v \<in> set ids \<Longrightarrow>
      pending_edges es (set order) v = 0 \<longleftrightarrow> v \<in> set (order @ i # queue)"
    and fwd: "forward es order"
    by (simp_all add: kahn_inv_def)
  have i: "i \<notin> set order" using dist by auto
  note place = pending_edges_place [OF i, of es]
  have cs: "set ?cs \<subseteq> set ids"
    using es by (auto simp: children_of_def)
  have "\<forall>v\<in>set ?cs. \<exists>n. bt_get ind v = Some n \<and> count_list ?cs v \<le> n"
    using ind cs place(2) by auto
  from relax_result [OF this, of queue] obtain ind' new where
    r: "relax_children ?cs ind queue = Inr (ind', queue @ new)"
    "\<And>v. bt_get ind' v = map_option (\<lambda>n. n - count_list ?cs v) (bt_get ind v)"
    "distinct new" "set new = {v \<in> set ?cs. bt_get ind v = Some (count_list ?cs v)}"
    by blast
  have new: "v \<in> set new \<longleftrightarrow> v \<in> set ?cs \<and> pending_edges es (set order) v = count_list ?cs v" for v
    using r(4) ind cs by auto
  have fresh: "v \<notin> set (order @ i # queue)" if "v \<in> set new" for v
    using that new zero [of v] cs count_list_0_iff [of ?cs v] by auto
  have "kahn_inv ids es ind' (queue @ new) (order @ [i])"
    unfolding kahn_inv_def
  proof (intro conjI ballI)
    show "distinct ((order @ [i]) @ queue @ new)"
      using dist r(3) fresh by auto
    show "set ((order @ [i]) @ queue @ new) \<subseteq> set ids"
      using sub new cs by auto
    show "forward es (order @ [i])"
      using zero [of i] sub by (intro forward_snoc [OF fwd i]) auto
    fix v
    assume v: "v \<in> set ids"
    show "bt_get ind' v = Some (pending_edges es (set (order @ [i])) v)"
      using r(2) ind [OF v] place(1) by simp
    show "pending_edges es (set (order @ [i])) v = 0 \<longleftrightarrow> v \<in> set ((order @ [i]) @ queue @ new)"
      using place [of v] zero [OF v] new [of v] count_list_0_iff [of ?cs v] by auto
  qed
  with r(1) show ?thesis by blast
qed

lemma kahn_loop:
  assumes "kahn_inv ids es ind queue order" "set es \<subseteq> set ids \<times> set ids"
    and "\<And>u. u \<in> set ids \<Longrightarrow> bt_get out u = Some (children_of es u)"
    and "length ids \<le> fuel + length order"
  shows "\<exists>ind' order'. topological_loop fuel out ind queue order = Inr order' \<and>
    kahn_inv ids es ind' [] order'"
  using assms
proof (induction fuel arbitrary: ind queue order)
  case 0
  have "distinct (order @ queue)" "set (order @ queue) \<subseteq> set ids"
    using "0.prems"(1) by (simp_all add: kahn_inv_def)
  then have "length (order @ queue) \<le> length ids"
    by (metis card_length card_mono distinct_card dual_order.trans finite_set)
  with "0.prems"(4) have "queue = []" by (cases queue) simp_all
  with "0.prems"(1) show ?case by auto
next
  case (Suc fuel)
  show ?case
  proof (cases queue)
    case Nil
    with Suc.prems(1) show ?thesis by auto
  next
    case (Cons i q)
    then obtain ind' q' where step: "relax_children (children_of es i) ind q = Inr (ind', q')"
      "kahn_inv ids es ind' q' (order @ [i])"
      using kahn_step [OF _ Suc.prems(2)] Suc.prems(1) by blast
    have "bt_get out i = Some (children_of es i)"
      using Suc.prems(1,3) Cons by (simp add: kahn_inv_def)
    with step Cons have "topological_loop (Suc fuel) out ind queue order =
        topological_loop fuel out ind' q' (order @ [i])"
      by simp
    moreover have "length ids \<le> fuel + length (order @ [i])"
      using Suc.prems(4) by simp
    ultimately show ?thesis
      using Suc.IH [OF step(2) Suc.prems(2,3)] by simp
  qed
qed

text \<open>The position of an element of a list.\<close>

definition position_in :: "'a list \<Rightarrow> 'a \<Rightarrow> nat" where
  "position_in xs x = length (takeWhile (\<lambda>y. y \<noteq> x) xs)"

lemma position_nth: "distinct xs \<Longrightarrow> k < length xs \<Longrightarrow> position_in xs (xs ! k) = k"
proof (induction xs arbitrary: k)
  case Nil
  then show ?case by simp
next
  case (Cons x xs)
  then show ?case by (cases k) (auto simp: position_in_def)
qed

lemma position_take: "x \<in> set (take k xs) \<Longrightarrow> position_in xs x < k"
proof (induction xs arbitrary: k)
  case Nil
  then show ?case by simp
next
  case (Cons y xs)
  then show ?case by (cases k) (auto simp: position_in_def)
qed

lemma forward_acyclic:
  assumes "forward es order" "distinct order" "set es \<subseteq> set order \<times> set order"
  shows "acyclic (set es)"
proof -
  have "position_in order u < position_in order v" if "(u, v) \<in> set es" for u v
  proof -
    from that assms(3) have "v \<in> set order"
      by auto
    then obtain k where k: "k < length order" "order ! k = v"
      by (auto simp: in_set_conv_nth)
    then have "u \<in> set (take k order)"
      using assms(1) that by (auto simp: forward_def)
    then show ?thesis
      using position_take position_nth [OF assms(2) k(1)] k(2) by metis
  qed
  then have "set es \<subseteq> measure (position_in order)"
    by auto
  then show ?thesis
    by (rule acyclic_subset [OF wf_acyclic [OF wf_measure]])
qed

lemma stuck_cyclic:
  assumes "kahn_inv ids es ind [] order" "set es \<subseteq> set ids \<times> set ids" "set order \<noteq> set ids"
  shows "\<not> acyclic (set es)"
proof
  assume "acyclic (set es)"
  then have "wf (set es)"
    by (intro finite_acyclic_wf) simp_all
  moreover obtain w where "w \<in> set ids - set order"
    using assms(1,3) by (auto simp: kahn_inv_def)
  ultimately obtain v where v: "v \<in> set ids - set order"
    and least: "\<And>u. (u, v) \<in> set es \<Longrightarrow> u \<notin> set ids - set order"
    by (metis wfE_min)
  from v assms(1) have "pending_edges es (set order) v \<noteq> 0"
    by (auto simp: kahn_inv_def)
  then obtain u where "(u, v) \<in> set es" "u \<notin> set order"
    by (auto simp: pending_edges_def filter_empty_conv)
  with least assms(2) show False by auto
qed

lemma initial_kahn_inv:
  assumes "well_formed m"
    and "\<And>v. v \<in> set (node_ids m) \<Longrightarrow>
      bt_get ind v = Some (length (filter (\<lambda>e. edge_to e = v) (edges m)))"
    and "\<And>v. v \<notin> set (node_ids m) \<Longrightarrow> bt_get ind v = None"
    and "bt_wf ind"
  shows "kahn_inv (node_ids m) (edge_pairs m) ind (map fst (filter (\<lambda>(i, n). n = 0) ind)) []"
proof -
  have zero: "v \<in> set (map fst (filter (\<lambda>(i, n). n = 0) ind)) \<longleftrightarrow> bt_get ind v = Some 0" for v
    using bt_get_in_set [OF assms(4)] by force
  have pend: "pending_edges (edge_pairs m) {} v = length (filter (\<lambda>e. edge_to e = v) (edges m))" for v
    by (simp add: pending_edges_def edge_pairs_def filter_map comp_def)
  have "distinct (map fst (filter (\<lambda>(i, n). n = 0) ind))"
    using bt_wf_distinct [OF assms(4)] by (simp add: distinct_map_filter)
  moreover have "set (map fst (filter (\<lambda>(i, n). n = 0) ind)) \<subseteq> set (node_ids m)"
    using zero assms(3) by (metis option.distinct(1) subsetI)
  ultimately show ?thesis
    using assms(2) zero by (auto simp: kahn_inv_def pend forward_def)
qed

lemma topological_order_result:
  assumes "well_formed m"
  shows "\<exists>ind order. kahn_inv (node_ids m) (edge_pairs m) ind [] order \<and>
    topological_order m =
      (if length order \<noteq> length (nodes m) then Inl (Err Cycle) else Inr order)"
proof -
  let ?ids = "node_ids m" and ?es = "edge_pairs m"
  let ?ind = "initial_indegree (nodes m)" and ?out = "initial_outgoing (nodes m)"
  have dist: "distinct ?ids" and sub: "set ?es \<subseteq> set ?ids \<times> set ?ids"
    using assms by (simp_all add: well_formed_def)
  have get: "bt_get (bt_collect (map (\<lambda>n. (node_id n, x)) ns)) v =
      (if v \<in> node_id ` set ns then Some x else None)" for x :: 'a and ns v
    by (induction ns rule: rev_induct) (auto simp: bt_get_collect)
  have ind0: "bt_get ?ind v = (if v \<in> set ?ids then Some 0 else None)"
    and out0: "bt_get ?out v = (if v \<in> set ?ids then Some [] else None)" for v
    by (simp_all add: initial_indegree_def initial_outgoing_def get node_ids_def)
  have "\<forall>e\<in>set (edges m). bt_get ?ind (edge_to e) \<noteq> None \<and> bt_get ?out (edge_from e) \<noteq> None"
    using sub by (auto simp: ind0 out0 edge_pairs_def)
  moreover have "bt_wf ?ind"
    by (simp add: initial_indegree_def)
  ultimately obtain ind out where
    c: "count_edges (edges m) ?ind ?out = Inr (ind, out)" "bt_wf ind"
    "\<And>v. bt_get ind v = map_option (\<lambda>n. n + length (filter (\<lambda>e. edge_to e = v) (edges m))) (bt_get ?ind v)"
    "\<And>u. bt_get out u =
       map_option (\<lambda>cs. cs @ map edge_to (filter (\<lambda>e. edge_from e = u) (edges m))) (bt_get ?out u)"
    using count_edges_result by blast
  let ?q = "map fst (filter (\<lambda>(i, n). n = 0) ind)"
  have "kahn_inv ?ids ?es ind ?q []"
    using assms c(2,3) by (intro initial_kahn_inv) (simp_all add: ind0)
  moreover have "bt_get out u = Some (children_of ?es u)" if "u \<in> set ?ids" for u
    using that c(4) by (simp add: out0 children_of_def edge_pairs_def filter_map comp_def)
  ultimately obtain ind' order where
    "topological_loop (length (nodes m)) out ind ?q [] = Inr order" "kahn_inv ?ids ?es ind' [] order"
    using kahn_loop [OF _ sub, of ind ?q "[]" out "length (nodes m)"] by (auto simp: node_ids_def)
  then show ?thesis
    using c(1) by (auto simp: topological_order_def)
qed

lemma topological_order_cases:
  assumes "well_formed m"
  shows "(\<exists>order. topological_order m = Inr order \<and> distinct order \<and> set order = set (node_ids m) \<and>
      forward (edge_pairs m) order \<and> acyclic (set (edge_pairs m)))
    \<or> topological_order m = Inl (Err Cycle) \<and> \<not> acyclic (set (edge_pairs m))"
proof -
  let ?ids = "node_ids m" and ?es = "edge_pairs m"
  have dist: "distinct ?ids" and sub: "set ?es \<subseteq> set ?ids \<times> set ?ids"
    using assms by (simp_all add: well_formed_def)
  obtain ind order where inv: "kahn_inv ?ids ?es ind [] order"
    and t: "topological_order m = (if length order \<noteq> length (nodes m) then Inl (Err Cycle) else Inr order)"
    using topological_order_result [OF assms] by blast
  have ord: "distinct order" "set order \<subseteq> set ?ids" "forward ?es order"
    using inv by (simp_all add: kahn_inv_def)
  have "length order = length (nodes m) \<longleftrightarrow> set order = set ?ids"
    using ord(1,2) dist by (metis card_subset_eq distinct_card finite_set length_map node_ids_def)
  then show ?thesis
    using t ord sub forward_acyclic [OF ord(3,1)] stuck_cyclic [OF inv sub] by auto
qed

section \<open>The compiled program\<close>

lemma node_by_id_get:
  assumes "distinct (node_ids m)"
  shows "bt_get (node_by_id m) i = Some n \<longleftrightarrow> n \<in> set (nodes m) \<and> node_id n = i"
proof -
  let ?kvs = "map (\<lambda>n. (node_id n, n)) (nodes m)"
  have dist: "distinct (map fst ?kvs)"
    using assms by (simp add: node_ids_def comp_def)
  then have "bt_get (node_by_id m) i = map_of ?kvs i"
    by (simp add: node_by_id_def bt_get_collect map_of_rev_distinct)
  with dist show ?thesis
    by (auto simp: map_of_eq_Some_iff)
qed

lemma compile_node_validated:
  assumes "validate_node m n = Inr u"
  shows "\<exists>args. compile_node k n = Inr \<lparr> op_order = k, op_node_id = node_id n,
    op_code = op_code_of (kind n), op_args = args \<rparr>"
  using assms
  by (auto simp: validate_node_def validate_node_kind_def compile_node_def bind_outcome_eq_Inr
      split: production_map_node_kind.splits option.splits)

lemma compile_operations:
  assumes "validate_map m = Inr u" "set order \<subseteq> set (node_ids m)"
  shows "\<exists>ops. map_outcome
      (\<lambda>(index, i). bind_outcome (expect (bt_get (node_by_id m) i))
         (\<lambda>node. compile_node (index + 1) node)) (List.enumerate k order) = Inr ops \<and>
    map op_node_id ops = order \<and> map op_order ops = [Suc k..<Suc (k + length order)] \<and>
    (\<forall>op\<in>set ops. \<exists>n\<in>set (nodes m). node_id n = op_node_id op \<and> op_code op = op_code_of (kind n))"
  using assms(2)
proof (induction order arbitrary: k)
  case Nil
  then show ?case by simp
next
  case (Cons i order)
  have "distinct (node_ids m)"
    using validated_map(1) [OF assms(1)] by (simp add: well_formed_def)
  moreover from Cons.prems obtain n where n: "n \<in> set (nodes m)" "node_id n = i"
    by (auto simp: node_ids_def)
  ultimately have get: "bt_get (node_by_id m) i = Some n"
    by (simp add: node_by_id_get)
  obtain args where c: "compile_node (k + 1) n = Inr \<lparr> op_order = k + 1, op_node_id = node_id n,
      op_code = op_code_of (kind n), op_args = args \<rparr>"
    using compile_node_validated validated_map(4) [OF assms(1) n(1)] by blast
  from Cons.IH [of "Suc k"] Cons.prems obtain ops where
    ops: "map_outcome (\<lambda>(index, i). bind_outcome (expect (bt_get (node_by_id m) i))
         (\<lambda>node. compile_node (index + 1) node)) (List.enumerate (Suc k) order) = Inr ops"
    "map op_node_id ops = order" "map op_order ops = [Suc (Suc k)..<Suc (Suc k + length order)]"
    "\<forall>op\<in>set ops. \<exists>n\<in>set (nodes m). node_id n = op_node_id op \<and> op_code op = op_code_of (kind n)"
    by auto
  have "[Suc k..<Suc (k + length (i # order))] = Suc k # [Suc (Suc k)..<Suc (Suc k + length order)]"
    by (simp add: upt_conv_Cons del: upt_Suc)
  with get c ops n show ?case
    by (auto simp del: upt_Suc)
qed

section \<open>The normal form\<close>

lemma ascii_lower_code:
  "is_ascii_uppercase c \<Longrightarrow> (of_char (ascii_lower c) :: nat) = of_char c + 32"
proof (cases c)
  case (Char b0 b1 b2 b3 b4 b5 b6 b7)
  assume "is_ascii_uppercase c"
  then have "\<not> b5"
    unfolding Char is_ascii_uppercase_def of_char_Char
    by (cases b0; cases b1; cases b2; cases b3; cases b4; cases b6; cases b7) auto
  with \<open>is_ascii_uppercase c\<close> show ?thesis
    by (simp add: Char)
qed

lemma ascii_lower_id: "\<not> is_ascii_uppercase c \<Longrightarrow> ascii_lower c = c"
  by (cases c) simp

lemma whitespace_ascii_lower [simp]: "is_whitespace (ascii_lower c) \<longleftrightarrow> is_whitespace c"
proof (cases "is_ascii_uppercase c")
  case True
  then show ?thesis
    by (auto simp: is_whitespace_def ascii_lower_code is_ascii_uppercase_def)
qed (simp add: ascii_lower_id)

lemma dropWhile_map_lower:
  "dropWhile is_whitespace (map ascii_lower s) = map ascii_lower (dropWhile is_whitespace s)"
  by (induction s) auto

lemma trim_lowercase [simp]: "trim (to_ascii_lowercase s) = to_ascii_lowercase (trim s)"
  by (simp add: trim_def trim_start_def trim_end_def to_ascii_lowercase_def dropWhile_map_lower
      rev_map)

lemma lowercase_digit:
  assumes "\<not> is_ascii_lowercase d" "\<not> is_ascii_uppercase d"
  shows "to_ascii_lowercase s = [d] \<longleftrightarrow> s = [d]"
proof -
  have "ascii_lower c = d \<longleftrightarrow> c = d" for c
  proof (cases "is_ascii_uppercase c")
    case True
    then have "is_ascii_lowercase (ascii_lower c)"
      by (auto simp: is_ascii_lowercase_def ascii_lower_code is_ascii_uppercase_def)
    with True assms show ?thesis by auto
  qed (simp add: ascii_lower_id)
  then show ?thesis
    by (auto simp: to_ascii_lowercase_def map_eq_Cons_conv)
qed

lemma normalize_branch_idem [simp]: "normalize_branch (normalize_branch b) = normalize_branch b"
proof -
  have digits: "to_ascii_lowercase s = ''1'' \<longleftrightarrow> s = ''1''" "to_ascii_lowercase s = ''0'' \<longleftrightarrow> s = ''0''" for s
    by (rule lowercase_digit; simp add: char_class_defs)+
  have words: "normalize_branch ''true'' = ''true''" "normalize_branch ''false'' = ''false''"
    by (simp_all add: normalize_branch_def trim_def trim_start_def trim_end_def is_whitespace_def
        eq_ignore_ascii_case_def to_ascii_lowercase_def is_ascii_uppercase_def)
  show ?thesis
  proof (cases "normalize_branch b = ''true'' \<or> normalize_branch b = ''false''")
    case True
    then show ?thesis using words by auto
  next
    case False
    then have "normalize_branch b = to_ascii_lowercase (trim b)"
      by (auto simp: normalize_branch_def Let_def split: if_splits)
    moreover from this False have "normalize_branch (to_ascii_lowercase (trim b)) = to_ascii_lowercase (trim b)"
      by (auto simp: normalize_branch_def Let_def digits split: if_splits)
    ultimately show ?thesis by simp
  qed
qed

lemma normalize_node_idem [simp]: "normalize_node (normalize_node n) = normalize_node n"
  by (cases "formula n") (simp_all add: normalize_node_def normalize_formula_def)

lemma normalize_edge_idem [simp]: "normalize_edge (normalize_edge e) = normalize_edge e"
  by (simp add: normalize_edge_def)

section \<open>A sample map\<close>

text \<open>A map for the concrete instances: a start, a condition on the ordered quantity with a task on
  either branch, and an end.\<close>

definition sample_node :: "string \<Rightarrow> production_map_node_kind \<Rightarrow> production_map_node" where
  "sample_node i k =
     \<lparr> node_id = i, kind = k, node_title = i, apparatus_id = [], formula = None, role_code = [],
       item_code = [], qty_formula = [], from_location = [], to_location = [],
       alternative_group_id = [], alternative_group_label = [], alternative_assigned_title = [],
       alternative_assigned_apparatus_id = [], rezka_kadr_count = None, rezka_frame_groups = [],
       rezka_label_length = None, node_x = f64_zero, node_y = f64_zero \<rparr>"

definition sample_edge :: "string \<Rightarrow> string \<Rightarrow> string \<Rightarrow> production_map_edge" where
  "sample_edge a b c = \<lparr> edge_from = a, edge_to = b, branch = c \<rparr>"

definition sample_map :: production_map_definition where
  "sample_map =
     \<lparr> combo = None, products = [], map_id = ''zakaz-7'', product_code = ''P'', map_title = ''T'',
       map_code = [], order_number = ''7'', customer_name = [], image_id = [], roll_count = None,
       width_mm = None, print_val_size_mm = None, order_kg = None, base_length = None,
       duplicate_rezka_labels = None, include_bobina_in_net = None, standard_print_side = None,
       nodes = [sample_node ''s'' NkStart,
         (sample_node ''c'' NkCondition) \<lparr> formula := Some \<lparr> target = [], expression = ''order_qty'' \<rparr> \<rparr>,
         sample_node ''t'' NkTask, sample_node ''w'' NkWait, sample_node ''e'' NkEnd],
       edges = [sample_edge ''s'' ''c'' [], sample_edge ''c'' ''t'' ''ha'', sample_edge ''c'' ''w'' ''no'',
         sample_edge ''t'' ''e'' [], sample_edge ''w'' ''e'' []] \<rparr>"

lemma sample_validates: "validate_map sample_map = Inr ()"
  by code_simp

section \<open>Properties\<close>

text \<open>C18: For a validated map the topological order neither panics nor runs out of rounds.  It lists
  every node once with every edge pointing forward when the map is acyclic, and reports a cycle
  exactly when there is one.\<close>

theorem topological_order_correct:
  assumes "validate_map m = Inr ()"
  shows "(acyclic (set (edge_pairs m)) \<longrightarrow>
      (\<exists>order. topological_order m = Inr order \<and> distinct order \<and>
        set order = set (node_ids m) \<and> forward (edge_pairs m) order)) \<and>
    (\<not> acyclic (set (edge_pairs m)) \<longrightarrow> topological_order m = Inl (Err Cycle))"
  using topological_order_cases [OF validated_map(1) [OF assms]] by blast

theorem topological_order_correct_witness:
  "validate_map sample_map = Inr () \<and>
   topological_order sample_map = Inr [''s'', ''c'', ''t'', ''w'', ''e''] \<and>
   acyclic (set (edge_pairs sample_map))"
proof -
  have t: "topological_order sample_map = Inr [''s'', ''c'', ''t'', ''w'', ''e'']"
    by code_simp
  moreover have "acyclic (set (edge_pairs sample_map))"
    using topological_order_correct [OF sample_validates] t by auto
  ultimately show ?thesis
    using sample_validates by simp
qed

text \<open>C19: A validated acyclic map compiles.  The program has one operation per node, numbered from one,
  in an order that respects every edge, each with the code of its node's kind; a validated cyclic
  map is refused with the cycle error.\<close>

theorem compile_map_correct:
  assumes "validate_map m = Inr ()"
  shows "if acyclic (set (edge_pairs m))
    then \<exists>p. compile_map m = Inr p \<and>
      map op_order (operations p) = [1..<Suc (length (nodes m))] \<and>
      distinct (map op_node_id (operations p)) \<and>
      set (map op_node_id (operations p)) = set (node_ids m) \<and>
      forward (edge_pairs m) (map op_node_id (operations p)) \<and>
      (\<forall>op\<in>set (operations p).
         \<exists>n\<in>set (nodes m). node_id n = op_node_id op \<and> op_code op = op_code_of (kind n))
    else compile_map m = Inl (Err Cycle)"
proof (cases "acyclic (set (edge_pairs m))")
  case True
  then obtain order where o: "topological_order m = Inr order" "distinct order"
    "set order = set (node_ids m)" "forward (edge_pairs m) order"
    using topological_order_cases [OF validated_map(1) [OF assms]] by blast
  obtain ops where "map_outcome (\<lambda>(index, i). bind_outcome (expect (bt_get (node_by_id m) i))
         (\<lambda>node. compile_node (index + 1) node)) (List.enumerate 0 order) = Inr ops"
    and ops: "map op_node_id ops = order" "map op_order ops = [Suc 0..<Suc (0 + length order)]"
    "\<forall>op\<in>set ops. \<exists>n\<in>set (nodes m). node_id n = op_node_id op \<and> op_code op = op_code_of (kind n)"
    using compile_operations [OF assms, of order 0] o(3) by blast
  then have "compile_map m = Inr \<lparr> program_map_id = map_id m, program_product_code = product_code m,
      operations = ops \<rparr>"
    using assms o(1) by (simp add: compile_map_def)
  moreover have "length order = length (nodes m)"
    using o(2,3) validated_map(1) [OF assms]
    by (metis distinct_card length_map node_ids_def well_formed_def)
  ultimately show ?thesis
    using True o ops by (auto simp del: upt_Suc)
next
  case False
  then have "topological_order m = Inl (Err Cycle)"
    using topological_order_cases [OF validated_map(1) [OF assms]] by blast
  with False assms show ?thesis
    by (simp add: compile_map_def)
qed

theorem compile_map_correct_witness:
  "validate_map sample_map = Inr () \<and>
   (\<exists>p. compile_map sample_map = Inr p \<and>
     map op_order (operations p) = [1..<Suc (length (nodes sample_map))] \<and>
     forward (edge_pairs sample_map) (map op_node_id (operations p)))"
proof -
  have "topological_order sample_map \<noteq> Inl (Err Cycle)"
    by code_simp
  then have "acyclic (set (edge_pairs sample_map))"
    using topological_order_cases [OF validated_map(1) [OF sample_validates]] by blast
  then show ?thesis
    using sample_validates compile_map_correct [OF sample_validates] by auto
qed

text \<open>Normalizing a map is idempotent: a stored map is its own normal form, whatever texts,
  branches and coordinates it came with.\<close>

theorem normalize_map_idempotent: "normalize_map (normalize_map m) = normalize_map m"
  by (cases "roll_count m"; cases "width_mm m") (simp_all add: normalize_map_def)

end
