(* ===== verification/Runner_Laws.thy ===== *)
theory Runner_Laws
  imports Map_Runner Compiler_Laws
begin

text \<open>
  What a run of a compiled map delivers: a path of the map from its start node, the tasks of the
  work nodes on it in order, with positive quantities, and an end at the end node, at a node
  without a successor or at a condition that misses a variable.
\<close>

section \<open>Conditions and nodes of a validated map\<close>

lemma split_condition_loop_outcome:
  "split_condition_loop pre depth s = Inr r \<or> split_condition_loop pre depth s = Inl Panic
     \<or> (\<exists>r. split_condition_loop pre depth s = Inr r)"
  by (induction pre depth s rule: split_condition_loop.induct) (auto split: option.splits)

lemma split_condition_cases: "(\<exists>r. split_condition e = Inr r) \<or> split_condition e = Inl Panic"
  using split_condition_loop_outcome unfolding split_condition_def by blast

lemma split_condition_operator:
  "split_condition_loop pre depth s = Inr (Some (l, op, r)) \<Longrightarrow> op \<in> set comparison_operators"
proof (induction pre depth s rule: split_condition_loop.induct)
  case (2 pre depth c cs)
  have "op \<in> set comparison_operators" if "operator_at pre (c # cs) = Some (l, op, r)"
    using that by (auto simp: operator_at_def find_Some_iff in_set_conv_nth)
  with 2 show ?case
    by (auto split: if_splits option.splits)
qed simp

lemma compare_f64_ok: "op \<in> set comparison_operators \<Longrightarrow> \<exists>b. compare_f64 e op x y = Inr b"
  by (auto simp: comparison_operators_def compare_f64_def)

lemma validated_condition_fails:
  assumes "validate_condition_expression e = Inr u" "evaluate_condition e vars = Inl x"
  shows "\<exists>err. x = Err err \<and> formula_error err"
proof -
  have "split_condition e \<noteq> Inl Panic"
    using assms(1) by (auto simp: validate_condition_expression_def evaluate_condition_def)
  then obtain s where s: "split_condition e = Inr s"
    using split_condition_cases by blast
  show ?thesis
  proof (cases s)
    case None
    with s assms(2) show ?thesis
      by (auto simp: evaluate_condition_def bind_outcome_eq_Inl dest: evaluate_formula_fails)
  next
    case (Some t)
    obtain l op r where t: "t = (l, op, r)"
      by (cases t)
    have "op \<in> set comparison_operators"
      using s Some t split_condition_operator unfolding split_condition_def by blast
    then have "compare_f64 e op a b \<noteq> Inl x" for a b
      using compare_f64_ok [of op e a b] by auto
    with s Some t assms(2) show ?thesis
      by (auto simp: evaluate_condition_def bind_outcome_eq_Inl dest: evaluate_formula_fails)
  qed
qed

definition work_kind :: "production_map_node_kind \<Rightarrow> bool" where
  "work_kind k \<longleftrightarrow> k \<in> {NkMaterial, NkApparatus, NkKkProduct, NkTask, NkWait, NkOutput}"

definition is_work_node :: "production_map_definition \<Rightarrow> string \<Rightarrow> bool" where
  "is_work_node m i \<longleftrightarrow> (\<exists>n\<in>set (nodes m). node_id n = i \<and> work_kind (kind n))"

text \<open>The errors of a run: those of its formulas, and a quantity that is not positive.\<close>

definition run_error :: "production_map_error \<Rightarrow> bool" where
  "run_error e \<longleftrightarrow> formula_error e \<or> (\<exists>i. e = InvalidNodeQty i)"

lemma node_qty_fails:
  "node_qty node q vars = Inl x \<Longrightarrow> \<exists>err. x = Err err \<and> run_error err"
  by (auto simp: node_qty_def bind_outcome_eq_Inl run_error_def
      dest: evaluate_formula_fails split: if_splits)

lemma node_qty_positive: "node_qty node q vars = Inr v \<Longrightarrow> finite_positive v"
  by (auto simp: node_qty_def bind_outcome_eq_Inr split: if_splits)

lemma visit_node_work:
  assumes "validate_node m n = Inr u" "work_kind (kind n)"
  shows "visit_node n q vars tasks =
    bind_outcome (node_qty n q vars) (\<lambda>qty.
      Inr (Done vars (tasks @ [task_of n (length tasks + 1) (op_code_of (kind n)) qty])))"
proof -
  obtain args where "compile_node (length tasks + 1) n = Inr \<lparr> op_order = length tasks + 1,
      op_node_id = node_id n, op_code = op_code_of (kind n), op_args = args \<rparr>"
    using compile_node_validated [OF assms(1)] by blast
  with assms(2) show ?thesis
    by (auto simp: visit_node_def work_kind_def intro!: bind_outcome_cong
        split: production_map_node_kind.splits)
qed

lemma visit_node_fails:
  assumes "validate_node m n = Inr u" "visit_node n q vars tasks = Inl x"
  shows "\<exists>err. x = Err err \<and> run_error err"
proof (cases "work_kind (kind n)")
  case True
  with assms show ?thesis
    by (auto simp: visit_node_work bind_outcome_eq_Inl dest: node_qty_fails)
next
  case False
  then consider "kind n = NkFormula" | "kind n = NkCondition" | "kind n \<in> {NkStart, NkEnd, NkLocation}"
    by (cases "kind n") (auto simp: work_kind_def)
  then show ?thesis
  proof cases
    case 1
    with assms show ?thesis
      by (auto simp: visit_node_def validate_node_def validate_node_kind_def bind_outcome_eq_Inl
          run_error_def bind_outcome_eq_Inr dest: evaluate_formula_fails split: option.splits)
  next
    case 2
    with assms(1) obtain f where f: "formula n = Some f"
      "validate_condition_expression (expression f) = Inr ()"
      by (auto simp: validate_node_def validate_node_kind_def bind_outcome_eq_Inr
          split: option.splits if_splits)
    with 2 assms(2) have "evaluate_condition (expression f) vars = Inl x"
      by (auto simp: visit_node_def split: sum.splits stop.splits production_map_error.splits)
    with f show ?thesis
      using validated_condition_fails run_error_def by blast
  next
    case 3
    with assms(2) show ?thesis
      by (auto simp: visit_node_def)
  qed
qed

lemma visit_node_done:
  assumes "validate_node m n = Inr u" "visit_node n q vars tasks = Inr (Done vars' tasks')"
  shows "if work_kind (kind n)
    then \<exists>t. tasks' = tasks @ [t] \<and> task_node_id t = node_id n \<and> task_order t = length tasks + 1
      \<and> finite_positive (task_qty t)
    else tasks' = tasks"
proof (cases "work_kind (kind n)")
  case True
  with assms show ?thesis
    by (auto simp: visit_node_work bind_outcome_eq_Inr task_of_def dest: node_qty_positive)
next
  case False
  with assms show ?thesis
    by (auto simp: visit_node_def work_kind_def bind_outcome_eq_Inr
        split: production_map_node_kind.splits option.splits sum.splits stop.splits
          production_map_error.splits)
qed

lemma visit_node_awaiting:
  assumes "visit_node n q vars tasks = Inr (Awaiting x e)"
  shows "kind n = NkCondition \<and> (\<exists>f. formula n = Some f \<and> e = expression f \<and>
    evaluate_condition (expression f) vars = Inl (Err (UnknownFormulaVariable x)))"
  using assms
  by (auto simp: visit_node_def bind_outcome_eq_Inr
      split: production_map_node_kind.splits option.splits sum.splits stop.splits
        production_map_error.splits)

lemma next_node_validated:
  assumes "validate_branches m n = Inr u"
  shows "\<exists>nxt. next_node m n vars = Inr nxt \<and>
    (case nxt of
       None \<Rightarrow> outgoing_edges m (node_id n) = []
     | Some i \<Rightarrow> (node_id n, i) \<in> set (edge_pairs m))"
proof (cases "kind n = NkCondition")
  case True
  let ?es = "outgoing_edges m (node_id n)"
  let ?wanted = "if f64_eq (case bt_get vars (node_id n) of None \<Rightarrow> f64_zero | Some v \<Rightarrow> v) f64_zero
    then ''false'' else ''true''"
  from assms True have "?wanted \<in> set (map (\<lambda>e. normalize_branch (branch e)) ?es)"
    by (auto simp: validate_branches_def outgoing_edges_def Let_def)
  then have "find (\<lambda>e. normalize_branch (branch e) = ?wanted) ?es \<noteq> None"
    by (auto simp: find_None_iff)
  then obtain e where e: "find (\<lambda>e. normalize_branch (branch e) = ?wanted) ?es = Some e"
    by blast
  then have "e \<in> set ?es"
    by (auto simp: find_Some_iff)
  then have "(node_id n, edge_to e) \<in> set (edge_pairs m)"
    by (force simp: outgoing_edges_def edge_pairs_def)
  with True e show ?thesis
    by (simp add: next_node_def Let_def)
next
  case False
  then show ?thesis
    by (auto simp: next_node_def Let_def outgoing_edges_def edge_pairs_def filter_eq_Cons_iff
        split: list.splits)
qed

section \<open>The walk\<close>

definition is_walk :: "production_map_definition \<Rightarrow> string list \<Rightarrow> bool" where
  "is_walk m path \<longleftrightarrow> successively (\<lambda>a b. (a, b) \<in> set (edge_pairs m)) path"

lemma is_walk_snoc:
  "is_walk m (path @ [i]) \<Longrightarrow> (i, j) \<in> set (edge_pairs m) \<Longrightarrow> is_walk m ((path @ [i]) @ [j])"
  by (auto simp: is_walk_def successively_append_iff)

lemma is_walk_butlast: "is_walk m (path @ [i]) \<Longrightarrow> is_walk m path"
  by (auto simp: is_walk_def successively_append_iff)

lemma is_walk_reaches:
  "is_walk m (path @ [j]) \<Longrightarrow> i \<in> set path \<Longrightarrow> (i, j) \<in> (set (edge_pairs m))\<^sup>+"
proof (induction path arbitrary: j rule: rev_induct)
  case Nil
  then show ?case by simp
next
  case (snoc k path)
  then have last: "(k, j) \<in> set (edge_pairs m)"
    by (simp add: is_walk_def successively_append_iff)
  from snoc have "i = k \<or> (i, k) \<in> (set (edge_pairs m))\<^sup>+"
    using is_walk_butlast by fastforce
  with last show ?case by auto
qed

text \<open>The tasks drafted so far, for the nodes of the path walked so far.\<close>

definition tasks_ok ::
  "production_map_definition \<Rightarrow> production_task_draft list \<Rightarrow> string list \<Rightarrow> bool" where
  "tasks_ok m tasks path \<longleftrightarrow>
     map task_node_id tasks = filter (is_work_node m) path \<and>
     map task_order tasks = [1..<Suc (length tasks)] \<and>
     (\<forall>t\<in>set tasks. finite_positive (task_qty t))"

definition ends_well ::
  "production_map_definition \<Rightarrow> production_map_run_result \<Rightarrow> bool" where
  "ends_well m r \<longleftrightarrow>
     (\<exists>n\<in>set (nodes m). node_id n = last (visited_node_ids r) \<and>
        ((kind n = NkEnd \<or> outgoing_edges m (node_id n) = []) \<and>
           awaiting_node_id r = [] \<and> awaiting_variable r = [] \<and> awaiting_expression r = []
         \<or> kind n = NkCondition \<and> awaiting_node_id r = node_id n \<and>
           (\<exists>f. formula n = Some f \<and> awaiting_expression r = expression f) \<and>
           evaluate_condition (awaiting_expression r) (run_variables r)
             = Inl (Err (UnknownFormulaVariable (awaiting_variable r)))))"

definition run_ok :: "production_map_definition \<Rightarrow> production_map_run_result \<Rightarrow> bool" where
  "run_ok m r \<longleftrightarrow>
     visited_node_ids r \<noteq> [] \<and> distinct (visited_node_ids r) \<and> is_walk m (visited_node_ids r) \<and>
     tasks_ok m (run_tasks r) (visited_node_ids r) \<and> ends_well m r"

lemma run_result_simps [simp]:
  "run_map_id (run_result m q vars tasks path n x e) = map_id m"
  "run_order_qty (run_result m q vars tasks path n x e) = q"
  "run_variables (run_result m q vars tasks path n x e) = vars"
  "run_tasks (run_result m q vars tasks path n x e) = tasks"
  "visited_node_ids (run_result m q vars tasks path n x e) = path"
  "awaiting_node_id (run_result m q vars tasks path n x e) = n"
  "awaiting_variable (run_result m q vars tasks path n x e) = x"
  "awaiting_expression (run_result m q vars tasks path n x e) = e"
  by (simp_all add: run_result_def)

lemma work_node_unique:
  assumes "well_formed m" "n \<in> set (nodes m)"
  shows "is_work_node m (node_id n) \<longleftrightarrow> work_kind (kind n)"
proof -
  have "n' = n" if "n' \<in> set (nodes m)" "node_id n' = node_id n" for n'
    using assms that by (auto simp: well_formed_def node_ids_def distinct_map inj_on_def)
  with assms(2) show ?thesis
    unfolding is_work_node_def by blast
qed

lemma tasks_ok_same:
  "tasks_ok m tasks path \<Longrightarrow> \<not> is_work_node m i \<Longrightarrow> tasks_ok m tasks (path @ [i])"
  by (simp add: tasks_ok_def)

lemma tasks_ok_visit:
  assumes "tasks_ok m tasks path" "well_formed m" "n \<in> set (nodes m)" "validate_node m n = Inr u"
    and "visit_node n q vars tasks = Inr (Done vars' tasks')"
  shows "tasks_ok m tasks' (path @ [node_id n])"
  using visit_node_done [OF assms(4,5)] assms(1) work_node_unique [OF assms(2,3)]
  by (auto simp: tasks_ok_def split: if_splits)

lemma run_loop_ok:
  assumes valid: "validate_map m = Inr u" and acyc: "acyclic (set (edge_pairs m))"
  shows "\<lbrakk> distinct path; is_walk m (path @ [current]); set (path @ [current]) \<subseteq> set (node_ids m);
      tasks_ok m tasks path; length (nodes m) < fuel + length path \<rbrakk> \<Longrightarrow>
    case run_loop fuel m q vars tasks (set path) path current of
      Inr r \<Rightarrow> run_ok m r \<and> take (Suc (length path)) (visited_node_ids r) = path @ [current]
    | Inl x \<Rightarrow> \<exists>err. x = Err err \<and> run_error err"
proof (induction fuel arbitrary: vars tasks path current)
  case 0
  have "length path \<le> length (node_ids m)"
    using "0.prems"(1,3) by (metis card_length card_mono distinct_card dual_order.trans finite_set
        le_sup_iff set_append)
  with "0.prems"(5) show ?case by (simp add: node_ids_def)
next
  case (Suc fuel)
  note wf = validated_map(1) [OF valid]
  from Suc.prems(3) obtain n where n: "n \<in> set (nodes m)" "node_id n = current"
    by (auto simp: node_ids_def)
  have vn: "validate_node m n = Inr ()" and vb: "validate_branches m n = Inr ()"
    using validated_map(4,5) [OF valid n(1)] by simp_all
  have get: "bt_get (node_by_id m) current = Some n"
    using wf n by (simp add: node_by_id_get well_formed_def)
  have fresh: "current \<notin> set path"
    using is_walk_reaches [OF Suc.prems(2)] acyc by (auto simp: acyclic_def)
  let ?path = "path @ [current]"
  have walk: "distinct ?path" "is_walk m ?path"
    using Suc.prems fresh by simp_all
  consider (stop) "kind n = NkEnd"
    | (fail) x where "kind n \<noteq> NkEnd" "visit_node n q vars tasks = Inl x"
    | (wait) x e where "kind n \<noteq> NkEnd" "visit_node n q vars tasks = Inr (Awaiting x e)"
    | (go) vars' tasks' where "kind n \<noteq> NkEnd" "visit_node n q vars tasks = Inr (Done vars' tasks')"
    by (metis sum.exhaust visit.exhaust)
  then show ?case
  proof cases
    case stop
    then have "\<not> is_work_node m current"
      using work_node_unique [OF wf n(1)] n(2) by (auto simp: work_kind_def)
    with stop get fresh n walk Suc.prems(4) show ?thesis
      by (auto simp: run_ok_def ends_well_def tasks_ok_same intro!: bexI [of _ n])
  next
    case fail
    with get fresh n visit_node_fails [OF vn fail(2)] show ?thesis
      by simp
  next
    case wait
    note w = visit_node_awaiting [OF wait(2)]
    then have "\<not> is_work_node m current"
      using work_node_unique [OF wf n(1)] n(2) by (auto simp: work_kind_def)
    with wait w get fresh n walk Suc.prems(4) show ?thesis
      by (auto simp: run_ok_def ends_well_def tasks_ok_same intro!: bexI [of _ n])
  next
    case go
    have tasks: "tasks_ok m tasks' ?path"
      using tasks_ok_visit [OF Suc.prems(4) wf n(1) vn go(2)] n(2) by simp
    obtain nxt where nxt: "next_node m n vars' = Inr nxt"
      "case nxt of None \<Rightarrow> outgoing_edges m (node_id n) = []
       | Some i \<Rightarrow> (node_id n, i) \<in> set (edge_pairs m)"
      using next_node_validated [OF vb] by blast
    show ?thesis
    proof (cases nxt)
      case None
      with nxt go get fresh n walk tasks show ?thesis
        by (auto simp: run_ok_def ends_well_def intro!: bexI [of _ n])
    next
      case (Some i)
      then have edge: "(current, i) \<in> set (edge_pairs m)"
        using nxt(2) n(2) by simp
      have "run_loop (Suc fuel) m q vars tasks (set path) path current =
          run_loop fuel m q vars' tasks' (set ?path) ?path i"
        using go get fresh n nxt(1) Some by simp
      moreover have "case run_loop fuel m q vars' tasks' (set ?path) ?path i of
          Inr r \<Rightarrow> run_ok m r \<and> take (Suc (length ?path)) (visited_node_ids r) = ?path @ [i]
        | Inl x \<Rightarrow> \<exists>err. x = Err err \<and> run_error err"
      proof (rule Suc.IH)
        show "is_walk m (?path @ [i])"
          using is_walk_snoc walk(2) edge by blast
        show "set (?path @ [i]) \<subseteq> set (node_ids m)"
          using Suc.prems(3) edge wf by (auto simp: well_formed_def)
      qed (use walk(1) tasks Suc.prems(5) in simp_all)
      moreover have "take (Suc (length path)) xs = ?path"
        if "take (Suc (length ?path)) xs = ?path @ [i]" for xs
        using arg_cong [OF that, of "take (Suc (length path))"] by (simp add: min_def)
      ultimately show ?thesis
        by (auto split: sum.splits)
    qed
  qed
qed

lemma compile_map_acyclic:
  assumes "validate_map m = Inr u" "acyclic (set (edge_pairs m))"
  shows "\<exists>p. compile_map m = Inr p"
proof -
  obtain order where order: "topological_order m = Inr order" "set order = set (node_ids m)"
    using topological_order_cases [OF validated_map(1) [OF assms(1)]] assms(2) by blast
  then obtain ops where "map_outcome (\<lambda>(index, i). bind_outcome (expect (bt_get (node_by_id m) i))
         (\<lambda>node. compile_node (index + 1) node)) (List.enumerate 0 order) = Inr ops"
    using compile_operations [OF assms(1), of order 0] by blast
  then show ?thesis
    using assms(1) order(1) by (simp add: compile_map_def)
qed

lemma run_sound:
  assumes "validate_map m = Inr ()" and "acyclic (set (edge_pairs m))"
    and "\<not> f64_le q f64_zero"
  shows "case run_map_with_variables m q vars of
      Inr r \<Rightarrow> run_ok m r \<and>
        (\<exists>n\<in>set (nodes m). kind n = NkStart \<and> hd (visited_node_ids r) = node_id n)
    | Inl x \<Rightarrow> \<exists>err. x = Err err \<and> run_error err"
proof -
  have "count_kind NkStart (nodes m) = 1"
    using validated_map(2) [OF assms(1)] .
  then have "filter (\<lambda>n. kind n = NkStart) (nodes m) \<noteq> []"
    by (auto simp: count_kind_def)
  then have "find (\<lambda>n. kind n = NkStart) (nodes m) \<noteq> None"
    by (auto simp: find_None_iff filter_empty_conv)
  then obtain start where find: "find (\<lambda>n. kind n = NkStart) (nodes m) = Some start"
    by blast
  then have start: "start \<in> set (nodes m)" "kind start = NkStart"
    by (auto simp: find_Some_iff)
  obtain p where "compile_map m = Inr p"
    using compile_map_acyclic assms(1,2) by blast
  with find assms(3) have run: "run_map_with_variables m q vars =
      run_loop (Suc (length (nodes m))) m q (input_variables q vars) [] {} [] (node_id start)"
    by (simp add: run_map_with_variables_def del: run_loop.simps)
  have "case run_loop (Suc (length (nodes m))) m q (input_variables q vars) [] {} [] (node_id start) of
      Inr r \<Rightarrow> run_ok m r \<and> take (Suc 0) (visited_node_ids r) = [node_id start]
    | Inl x \<Rightarrow> \<exists>err. x = Err err \<and> run_error err"
    using run_loop_ok [OF assms(1,2), of "[]" "node_id start" "[]" "Suc (length (nodes m))" q
        "input_variables q vars"] start(1)
    by (simp add: is_walk_def tasks_ok_def node_ids_def del: run_loop.simps split: sum.splits)
  moreover have "hd xs = i" if "take (Suc 0) xs = [i]" for xs and i :: string
    using that by (cases xs) auto
  ultimately show ?thesis
    unfolding run using start by (auto split: sum.splits)
qed

text \<open>C17: Running a validated acyclic map for a quantity that is not zero or negative returns, and
  what it returns is sound.  The visited nodes are a path of the map from its start node without
  repetition; the tasks are exactly the work nodes on the path, in order and numbered from one,
  each with a finite positive quantity; the run ends at the end node, at a node with no
  successor, or at a condition that waits for a variable it reports.  The only errors left are
  those of formulas (an unbound variable, a zero divisor, a malformed condition) and a quantity
  that is not positive: a missing branch, a missing formula, a cycle or a panic cannot occur.\<close>

theorem run_delivers_the_path:
  assumes "validate_map m = Inr ()" and "acyclic (set (edge_pairs m))"
    and "\<not> f64_le q f64_zero"
  shows "case run_map_with_variables m q vars of
      Inr r \<Rightarrow> run_ok m r \<and>
        (\<exists>n\<in>set (nodes m). kind n = NkStart \<and> hd (visited_node_ids r) = node_id n)
    | Inl x \<Rightarrow> \<exists>err. x = Err err \<and> run_error err"
  using run_sound [OF assms] .

theorem run_delivers_the_path_witness:
  "validate_map sample_map = Inr () \<and> acyclic (set (edge_pairs sample_map)) \<and>
   \<not> f64_le (f64_of_int 5) f64_zero \<and>
   (\<exists>r. run_map_with_variables sample_map (f64_of_int 5) [] = Inr r \<and>
      visited_node_ids r = [''s'', ''c'', ''t'', ''e''] \<and> map task_node_id (run_tasks r) = [''t''] \<and>
      run_ok sample_map r)"
proof -
  have "topological_order sample_map \<noteq> Inl (Err Cycle)"
    by code_simp
  then have acyc: "acyclic (set (edge_pairs sample_map))"
    using topological_order_cases [OF validated_map(1) [OF sample_validates]] by blast
  have q: "\<not> f64_le (f64_of_int 5) f64_zero"
    by code_simp
  have "(case run_map_with_variables sample_map (f64_of_int 5) [] of Inl _ \<Rightarrow> None
      | Inr r \<Rightarrow> Some (visited_node_ids r, map task_node_id (run_tasks r)))
    = Some ([''s'', ''c'', ''t'', ''e''], [''t''])"
    by code_simp
  then obtain r where r: "run_map_with_variables sample_map (f64_of_int 5) [] = Inr r"
    "visited_node_ids r = [''s'', ''c'', ''t'', ''e'']" "map task_node_id (run_tasks r) = [''t'']"
    by (auto split: sum.splits)
  with run_delivers_the_path [OF sample_validates acyc q, of "[]"] sample_validates acyc q
  show ?thesis
    by simp
qed

section \<open>Termination\<close>

text \<open>Validation has fuel for every formula; only the scan of a condition may panic.\<close>

abbreviation fuelled :: "('e, 'a) outcome \<Rightarrow> bool" where
  "fuelled \<equiv> fails_only (\<lambda>x. x \<noteq> OutOfFuel)"

lemma fuelled_iff: "fuelled r \<longleftrightarrow> r \<noteq> Inl OutOfFuel"
  by (auto simp: fails_only_def)

lemma fuelled_guard [simp]: "fuelled (guard_outcome b e)"
  by (auto simp: fails_only_def guard_outcome_Inl)

lemma fuelled_ok_or [simp]: "fuelled (ok_or x e)"
  by (cases x) (auto simp: fails_only_def)

lemma fuelled_returns: "returns r \<Longrightarrow> fuelled r"
  by (auto simp: fails_only_def)

lemma fuelled_each: "(\<And>x. fuelled (f x)) \<Longrightarrow> fuelled (each_outcome f xs)"
  by (induction xs) (auto intro!: fails_only_intros)

lemma evaluate_condition_fuelled: "fuelled (evaluate_condition e vars)"
proof -
  have "fuelled (split_condition e)" using split_condition_cases [of e] by (auto simp: fails_only_def)
  moreover have "fuelled (evaluate_formula t vars)" for t by (intro fuelled_returns evaluate_formula_returns)
  moreover have "fuelled (compare_f64 e op x y)" for op x y
    by (auto simp: fails_only_def compare_f64_def split: if_splits)
  ultimately show ?thesis
    unfolding evaluate_condition_def by (intro fails_only_intros fails_only_Inl) simp_all
qed

lemma validate_condition_fuelled: "fuelled (validate_condition_expression e)"
  using evaluate_condition_fuelled [of e "[]"]
  by (auto simp: fails_only_def validate_condition_expression_def
      split: sum.splits stop.splits production_map_error.splits)

lemma sum_groups_fuelled: "fuelled (sum_groups t gs)"
  by (induction gs arbitrary: t) (auto intro!: fails_only_intros fails_only_Inl)

lemma validate_node_fuelled: "fuelled (validate_node m n)"
proof -
  have q: "fuelled (validate_qty_formula n)"
    unfolding validate_qty_formula_def
    by (intro fails_only_intros fuelled_returns validate_formula_returns)
  have f: "fuelled (validate_formula_expression e)" for e
    by (intro fuelled_returns validate_formula_returns)
  have "fuelled (validate_node_kind m n)"
    unfolding validate_node_kind_def validate_apparatus_identity_def validate_rezka_frame_groups_def
      validate_formula_target_def Let_def
    by (cases "kind n"; simp only: production_map_node_kind.case;
        intro fails_only_intros fails_only_Inl q f validate_condition_fuelled sum_groups_fuelled fuelled_guard) simp_all
  moreover have "fuelled (validate_location_ref l)" for l
    unfolding validate_location_ref_def Let_def
    by (intro fails_only_intros fuelled_guard)
  ultimately show ?thesis
    unfolding validate_node_def by (intro fails_only_bind)
qed

lemma validate_nodes_fuelled: "fuelled (validate_nodes m ids ns)"
  by (induction ns arbitrary: ids) (auto intro!: fails_only_intros fails_only_Inl validate_node_fuelled)

lemma validate_map_fuelled: "validate_map m \<noteq> Inl OutOfFuel"
proof -
  have "fuelled (validate_edge ids e)" for ids e
    unfolding validate_edge_def by (intro fails_only_intros fails_only_Inl) simp_all
  moreover have "fuelled (validate_branches m n)" for n
    unfolding validate_branches_def Let_def by (intro fails_only_intros fuelled_guard)
  ultimately have "fuelled (validate_map m)"
    unfolding validate_map_def validate_combo_def validate_layout_def validate_print_val_size_def
    by (intro fails_only_intros fuelled_guard fuelled_each validate_nodes_fuelled)
  then show ?thesis by (simp add: fuelled_iff)
qed

lemma validated_run_returns:
  assumes "validate_map m = Inr ()"
  shows "returns (compile_map m)" "returns (run_map_with_variables m q vars)"
proof -
  show c: "returns (compile_map m)"
    using topological_order_cases [OF validated_map(1) [OF assms]] compile_map_acyclic [OF assms] assms
    by (fastforce simp: compile_map_def)
  show "returns (run_map_with_variables m q vars)"
  proof (cases "acyclic (set (edge_pairs m)) \<and> \<not> f64_le q f64_zero")
    case True
    then show ?thesis
      using run_sound [OF assms, of q vars] by (cases "run_map_with_variables m q vars") auto
  next
    case False
    then show ?thesis
      using topological_order_cases [OF validated_map(1) [OF assms]] assms
      by (auto simp: run_map_with_variables_def compile_map_def)
  qed
qed

text \<open>C20: Compiling and running a map always ends: for every map, quantity and variables the compiler
  and the runner return a result or an error.  Loops in the map, formulas of any nesting and conditions on
  any values included, they never run on; and they panic only where validation itself does, on the scan of a
  condition.\<close>

theorem running_a_map_ends:
  "compile_map m \<noteq> Inl OutOfFuel \<and> run_map_with_variables m q vars \<noteq> Inl OutOfFuel
   \<and> (compile_map m = Inl Panic \<longleftrightarrow> validate_map m = Inl Panic)
   \<and> (run_map_with_variables m q vars = Inl Panic \<longleftrightarrow> \<not> f64_le q f64_zero \<and> validate_map m = Inl Panic)"
proof (cases "validate_map m")
  case (Inl x)
  then show ?thesis
    using validate_map_fuelled [of m] by (auto simp: compile_map_def run_map_with_variables_def)
next
  case (Inr u)
  then show ?thesis
    using validated_run_returns(1) [of m] validated_run_returns(2) [of m q vars] by (auto simp: returns_def)
qed

end
