(* ===== verification/Wire_Enums.thy ===== *)
theory Wire_Enums
  imports Ordered_Maps
begin

text \<open>
  The contract of the enums that are stored and sent as text.  Each has \<^verbatim>\<open>as_str\<close>, a fixed
  lower-case name per variant, and \<^verbatim>\<open>parse\<close>, which ignores white space at the ends and ASCII
  case.  The locale derives the round trip, injectivity of the names, and the round trip of a
  whole map of stored states; every enum of the development interprets it.
\<close>

text \<open>The states of a queue as they are stored: order id to state name.\<close>

definition parse_entries ::
  "(string \<Rightarrow> 'a option) \<Rightarrow> (string, string) btree_map \<Rightarrow> (string, 'a) btree_map" where
  "parse_entries parse m =
     filter_map (\<lambda>(id, value). map_option (Pair id) (parse value)) m"

definition print_entries ::
  "('a \<Rightarrow> string) \<Rightarrow> (string, 'a) btree_map \<Rightarrow> (string, string) btree_map" where
  "print_entries as_str m = map (\<lambda>(id, x). (id, as_str x)) m"

lemma fst_parse_entries: "fst ` set (parse_entries parse m) \<subseteq> fst ` set m"
  by (force simp: parse_entries_def set_filter_map)

lemma bt_wf_parse_entries: "bt_wf m \<Longrightarrow> bt_wf (parse_entries parse m)"
proof (induction m)
  case Nil
  then show ?case by (simp add: parse_entries_def)
next
  case (Cons e m)
  from Cons have "\<forall>k\<in>fst ` set (parse_entries parse m). fst e < k"
    using fst_parse_entries [of parse m] by (fastforce simp: bt_wf_Cons)
  with Cons show ?case
    by (cases e) (auto simp: parse_entries_def bt_wf_Cons split: option.splits)
qed

lemma bt_get_parse_entries:
  "bt_wf m \<Longrightarrow> bt_get (parse_entries parse m) k = Option.bind (bt_get m k) parse"
proof (induction m)
  case Nil
  then show ?case by (simp add: parse_entries_def)
next
  case (Cons e m)
  from Cons.prems have "fst e \<notin> fst ` set (parse_entries parse m)"
    using fst_parse_entries [of parse m] by (fastforce simp: bt_wf_Cons)
  then have "map_of (parse_entries parse m) (fst e) = None"
    by (simp add: map_of_eq_None_iff)
  with Cons show ?case
    by (cases e) (auto simp: parse_entries_def bt_wf_Cons split: option.splits)
qed

locale wire_enum =
  fixes as_str :: "'a \<Rightarrow> string"
    and parse :: "string \<Rightarrow> 'a option"
  assumes name_lower: "to_ascii_lowercase (as_str x) = as_str x"
    and name_trimmed: "trim (as_str x) = as_str x"
    and parse_iff: "parse s = Some x \<longleftrightarrow> eq_ignore_ascii_case (trim s) (as_str x)"
begin

lemma parse_name: "parse (as_str x) = Some x"
  by (simp add: parse_iff name_trimmed)

lemma names_distinct: "as_str x = as_str y \<longleftrightarrow> x = y"
  by (metis option.inject parse_name)

lemma parse_normal_form: "parse s = Some x \<longleftrightarrow> to_ascii_lowercase (trim s) = as_str x"
  by (simp add: parse_iff eq_ignore_ascii_case_def name_lower)

lemma parse_trim: "parse (trim s) = parse s"
  by (metis not_None_eq parse_normal_form trim_trim)

lemma parse_print_entries: "parse_entries parse (print_entries as_str m) = m"
  by (induction m) (auto simp: parse_entries_def print_entries_def parse_name)

lemma parse_printed_map: "map_option parse (map_option as_str v) = map_option Some v"
  by (cases v) (simp_all add: parse_name)

end

end
