(* ===== verification/Apparatus_Contract.thy ===== *)
theory Apparatus_Contract
  imports Apparatus_Identity Ordered_Maps Wire_Enums
begin

text \<open>
  The canonical description of an apparatus (\<^verbatim>\<open>crates/mini_rs_apparatus_contract/src/isa95\<close>): the
  draft an administrator edits, the revision made from it, its normal form and its validation.
  Unsigned numbers are natural numbers; the fields of the source whose names several types share carry a
  prefix.  The identifiers with a checked constructor are strings.
\<close>

section \<open>The data\<close>

record apparatus_display =
  display_name :: string
  description :: string
  catalog_order :: nat

record equipment_hierarchy_scope =
  enterprise_id :: string
  site_id :: string
  area_id :: string
  work_center_id :: string
  work_unit_id :: string

datatype equipment_capability_code =
  CapPrint | CapLaminate | CapCut | CapPackage | CapGlue | CapTooling | CapVirtualTask | CapTraining

fun capability_as_str :: "equipment_capability_code \<Rightarrow> string" where
  "capability_as_str CapPrint = ''print''"
| "capability_as_str CapLaminate = ''laminate''"
| "capability_as_str CapCut = ''cut''"
| "capability_as_str CapPackage = ''package''"
| "capability_as_str CapGlue = ''glue''"
| "capability_as_str CapTooling = ''tooling''"
| "capability_as_str CapVirtualTask = ''virtual_task''"
| "capability_as_str CapTraining = ''training''"

text \<open>The derived order of the codes is the order of their declaration.\<close>

fun capability_rank :: "equipment_capability_code \<Rightarrow> nat" where
  "capability_rank CapPrint = 0"
| "capability_rank CapLaminate = 1"
| "capability_rank CapCut = 2"
| "capability_rank CapPackage = 3"
| "capability_rank CapGlue = 4"
| "capability_rank CapTooling = 5"
| "capability_rank CapVirtualTask = 6"
| "capability_rank CapTraining = 7"

lemma capability_rank_inject [simp]: "capability_rank c = capability_rank d \<longleftrightarrow> c = d"
  by (cases c; cases d) simp_all

instantiation equipment_capability_code :: linorder
begin

definition less_eq_equipment_capability_code ::
  "equipment_capability_code \<Rightarrow> equipment_capability_code \<Rightarrow> bool" where
  "less_eq_equipment_capability_code c d \<longleftrightarrow> capability_rank c \<le> capability_rank d"

definition less_equipment_capability_code ::
  "equipment_capability_code \<Rightarrow> equipment_capability_code \<Rightarrow> bool" where
  "less_equipment_capability_code c d \<longleftrightarrow> capability_rank c < capability_rank d"

instance
proof
  fix c d e :: equipment_capability_code
  show "(c < d) = (c \<le> d \<and> \<not> d \<le> c)" "c \<le> c" "c \<le> d \<or> d \<le> c"
    by (auto simp: less_eq_equipment_capability_code_def less_equipment_capability_code_def)
  show "c \<le> e" if "c \<le> d" "d \<le> e"
    using that by (simp add: less_eq_equipment_capability_code_def)
  show "c = d" if "c \<le> d" "d \<le> c"
    using that by (simp add: less_eq_equipment_capability_code_def flip: capability_rank_inject)
qed

end

record equipment_capability =
  capability_code :: equipment_capability_code
  capability_level_of :: nat

datatype execution_operation = OpPrint | OpLaminate | OpCut | OpPackage | OpGlue

datatype process_technology =
  Rotogravure | Flexographic | AdhesiveLamination | ExtrusionLamination | Slitting | BagMaking
  | ColdGlue

datatype virtual_task_policy = VirtualDisabled | InputBridge

record execution_profile =
  operation :: execution_operation
  technology :: process_technology
  color_station_count :: "nat option"
  min_web_width_mm :: "nat option"
  max_web_width_mm :: "nat option"
  virtual_tasks :: virtual_task_policy
  capability_compatible_reroute :: bool

datatype queue_discipline = DisciplineStrictSequence | DisciplineFreePick

fun discipline_as_str :: "queue_discipline \<Rightarrow> string" where
  "discipline_as_str DisciplineStrictSequence = ''strict_sequence''"
| "discipline_as_str DisciplineFreePick = ''free_pick''"

record material_requirement_set =
  requirement_id :: string
  item_group_ids :: "string list"
  minimum_required_count :: nat

datatype material_execution_policy =
  MaterialNotRequired "string list"
  | AllRequired "string list"
  | RequirementSets "material_requirement_set list"

datatype tooling_execution_policy = ToolingNotRequired | QolipScanRequired string

record apparatus_operational_policies =
  policy_queue :: queue_discipline
  policy_material :: material_execution_policy
  policy_tooling :: tooling_execution_policy
  worker_material_assignment_allowed :: bool

text \<open>Working windows are ordered by weekday, first minute and end minute.\<close>

datatype working_window =
  WorkingWindow (window_weekday: nat) (start_minute: nat) (end_minute: nat)

instantiation working_window :: linorder
begin

definition less_eq_working_window :: "working_window \<Rightarrow> working_window \<Rightarrow> bool" where
  "less_eq_working_window v w \<longleftrightarrow>
     window_weekday v < window_weekday w \<or>
     window_weekday v = window_weekday w \<and>
       (start_minute v < start_minute w \<or>
        start_minute v = start_minute w \<and> end_minute v \<le> end_minute w)"

definition less_working_window :: "working_window \<Rightarrow> working_window \<Rightarrow> bool" where
  "less_working_window v w \<longleftrightarrow> v \<le> w \<and> \<not> w \<le> v"

instance
proof
  fix u v w :: working_window
  show "(v < w) = (v \<le> w \<and> \<not> w \<le> v)" "v \<le> v" "v \<le> w \<or> w \<le> v"
    by (auto simp: less_eq_working_window_def less_working_window_def)
  show "u \<le> w" if "u \<le> v" "v \<le> w"
    using that by (auto simp: less_eq_working_window_def)
  show "v = w" if "v \<le> w" "w \<le> v"
    using that by (auto simp: less_eq_working_window_def intro: working_window.expand)
qed

end

datatype capacity_availability = Always | Scheduled "working_window list"

record apparatus_capacity =
  capacity_slots_of :: nat
  setup_minutes_of :: nat
  cleanup_minutes_of :: nat
  efficiency_percent_of :: nat
  finite_capacity_of :: bool
  availability :: capacity_availability

record training_profile =
  training_enabled :: bool
  queue_enabled :: bool
  material_tracking_enabled :: bool

datatype lifecycle_state = StateActive | StateRetired

fun lifecycle_as_str :: "lifecycle_state \<Rightarrow> string" where
  "lifecycle_as_str StateActive = ''active''"
| "lifecycle_as_str StateRetired = ''retired''"

record apparatus_lifecycle =
  lifecycle_state_of :: lifecycle_state
  retirement_reason :: "string option"

datatype revision_source = SourceAdmin | AasxImport | LegacyMigration

fun source_as_str :: "revision_source \<Rightarrow> string" where
  "source_as_str SourceAdmin = ''admin''"
| "source_as_str AasxImport = ''aasx_import''"
| "source_as_str LegacyMigration = ''legacy_migration''"

record revision_metadata =
  revision :: nat
  committed_at_unix_ms :: int
  actor_id :: string
  command_id :: string
  revision_source_of :: revision_source
  source_reference :: "string option"

record aas_identity =
  shell_id :: string
  submodel_id :: string
  semantic_id :: string
  idta_release :: string
  aas_metamodel_version :: string
  aasx_part_5_version :: string
  package_format :: string
  media_type :: string

record factory_map_placement =
  factory_map_object_id :: string

record canonical_apparatus_draft =
  display :: apparatus_display
  equipment_class_id :: string
  physical_asset_id :: string
  hierarchy :: equipment_hierarchy_scope
  capabilities_of :: "equipment_capability list"
  execution_profile_of :: execution_profile
  policies :: apparatus_operational_policies
  capacity :: apparatus_capacity
  placement :: "factory_map_placement option"
  training :: training_profile
  lifecycle :: apparatus_lifecycle

text \<open>
  A revision has the fields of a draft and, beside them, its version, the identity of the
  apparatus and what was recorded when it was made.
\<close>

record canonical_apparatus_revision = canonical_apparatus_draft +
  schema_version :: nat
  revision_apparatus_id :: string
  revision_metadata_of :: revision_metadata
  aas_identity_of :: aas_identity

section \<open>Identifiers\<close>

datatype canonical_apparatus_validation_error =
  InvalidIdentifier string
  | InvalidSchemaVersion
  | InvalidDisplay
  | InvalidCapabilities
  | InvalidExecutionProfile
  | InvalidPolicy
  | InvalidCapacity
  | InvalidLifecycle
  | InvalidRevisionMetadata
  | InvalidAasIdentity
  | InvalidReference string

type_synonym 'a contract_result = "(canonical_apparatus_validation_error, 'a) outcome"

definition validate_semantic_id :: "string \<Rightarrow> string \<Rightarrow> unit contract_result" where
  "validate_semantic_id v field =
     guard_outcome (\<not> (v = [] \<or> v \<noteq> trim v \<or> 256 < int (str_len v) \<or> list_ex is_control v
         \<or> list_ex is_whitespace v \<or> CHR '':'' \<notin> set v))
       (InvalidIdentifier field)"

definition semantic_id_new :: "string \<Rightarrow> string \<Rightarrow> string contract_result" where
  "semantic_id_new field v = bind_outcome (validate_semantic_id v field) (\<lambda>_. Inr v)"

definition strip_prefix :: "string \<Rightarrow> string \<Rightarrow> string option" where
  "strip_prefix p v = (if starts_with v p then Some (drop (length p) v) else None)"

definition pinned_identity :: "string \<Rightarrow> aas_identity" where
  "pinned_identity suffix =
     \<lparr> shell_id = ''urn:mini-rs-erp:aas:apparatus:'' @ suffix,
       submodel_id = ''urn:mini-rs-erp:submodel:apparatus:'' @ suffix,
       semantic_id = ''urn:mini-rs-erp:semantic-id:submodel:apparatus:1'',
       idta_release = ''26-01'',
       aas_metamodel_version = ''3.2.0'',
       aasx_part_5_version = ''IDTA-01005 v3.2'',
       package_format = ''Open Packaging Conventions'',
       media_type = ''application/asset-administration-shell-package'' \<rparr>"

definition for_apparatus :: "string \<Rightarrow> aas_identity contract_result" where
  "for_apparatus apparatus =
     bind_outcome (expect (strip_prefix ''apparatus:'' apparatus)) (\<lambda>suffix. Inr (pinned_identity suffix))"

section \<open>Validation\<close>

text \<open>\<^verbatim>\<open>windows(2).all(|pair| pair[0] < pair[1])\<close>.\<close>

fun strictly_increasing :: "'a::linorder list \<Rightarrow> bool" where
  "strictly_increasing (x # y # ys) \<longleftrightarrow> x < y \<and> strictly_increasing (y # ys)"
| "strictly_increasing xs \<longleftrightarrow> True"

definition supports_capability :: "'a canonical_apparatus_draft_scheme \<Rightarrow> equipment_capability_code \<Rightarrow> bool" where
  "supports_capability r c = list_ex (\<lambda>capability. capability_code capability = c) (capabilities_of r)"

definition revision_is_active :: "canonical_apparatus_revision \<Rightarrow> bool" where
  "revision_is_active r \<longleftrightarrow> lifecycle_state_of (lifecycle r) = StateActive"

definition validate_reference :: "string \<Rightarrow> string \<Rightarrow> unit contract_result" where
  "validate_reference field v =
     guard_outcome (\<not> (v = [] \<or> v \<noteq> trim v \<or> 256 < int (length v) \<or> list_ex is_control v))
       (InvalidReference field)"

definition validate_sorted_unique_references :: "string list \<Rightarrow> string \<Rightarrow> unit contract_result" where
  "validate_sorted_unique_references vs field =
     bind_outcome (guard_outcome (\<not> (vs = [] \<or> \<not> strictly_increasing vs)) InvalidPolicy)
       (\<lambda>_. each_outcome (validate_reference field) vs)"

definition validate_display :: "canonical_apparatus_revision \<Rightarrow> unit contract_result" where
  "validate_display r =
     (let d = display r in
      guard_outcome (\<not> (display_name d = [] \<or> display_name d \<noteq> trim (display_name d)
          \<or> 256 < int (length (display_name d)) \<or> 2000 < int (length (description d))
          \<or> list_ex is_control (display_name d) \<or> list_ex is_control (description d)))
        InvalidDisplay)"

definition validate_capabilities :: "canonical_apparatus_revision \<Rightarrow> unit contract_result" where
  "validate_capabilities r =
     bind_outcome
       (guard_outcome (\<not> (capabilities_of r = []
           \<or> list_ex (\<lambda>c. capability_level_of c = 0 \<or> 100 < capability_level_of c) (capabilities_of r)))
         InvalidCapabilities)
       (\<lambda>_. let codes = map capability_code (capabilities_of r) in
            guard_outcome (\<not> (length (bs_collect codes) \<noteq> length codes \<or> \<not> strictly_increasing codes))
              InvalidCapabilities)"

fun expected_capability :: "execution_operation \<Rightarrow> equipment_capability_code" where
  "expected_capability OpPrint = CapPrint"
| "expected_capability OpLaminate = CapLaminate"
| "expected_capability OpCut = CapCut"
| "expected_capability OpPackage = CapPackage"
| "expected_capability OpGlue = CapGlue"

fun technology_matches :: "execution_operation \<Rightarrow> process_technology \<Rightarrow> bool" where
  "technology_matches OpPrint t \<longleftrightarrow> t = Rotogravure \<or> t = Flexographic"
| "technology_matches OpLaminate t \<longleftrightarrow> t = AdhesiveLamination \<or> t = ExtrusionLamination"
| "technology_matches OpCut t \<longleftrightarrow> t = Slitting"
| "technology_matches OpPackage t \<longleftrightarrow> t = BagMaking"
| "technology_matches OpGlue t \<longleftrightarrow> t = ColdGlue"

definition in_range_opt :: "int \<Rightarrow> nat option \<Rightarrow> bool" where
  "in_range_opt bound v = (case v of None \<Rightarrow> True | Some x \<Rightarrow> 0 < x \<and> int x \<le> bound)"

definition color_stations_match :: "execution_profile \<Rightarrow> bool" where
  "color_stations_match p =
     (case technology p of
        Rotogravure \<Rightarrow> color_station_count p \<noteq> None \<and> in_range_opt 32 (color_station_count p)
      | Flexographic \<Rightarrow> in_range_opt 32 (color_station_count p)
      | _ \<Rightarrow> color_station_count p = None)"

definition web_width_range_matches :: "execution_profile \<Rightarrow> bool" where
  "web_width_range_matches p =
     (case (min_web_width_mm p, max_web_width_mm p) of
        (Some lo, Some hi) \<Rightarrow> lo \<le> hi
      | _ \<Rightarrow> True)"

definition validate_execution_profile :: "canonical_apparatus_revision \<Rightarrow> unit contract_result" where
  "validate_execution_profile r =
     (let p = execution_profile_of r in
      guard_outcome (supports_capability r (expected_capability (operation p))
          \<and> technology_matches (operation p) (technology p)
          \<and> color_stations_match p
          \<and> (virtual_tasks p = VirtualDisabled \<or> supports_capability r CapVirtualTask)
          \<and> in_range_opt 100000 (min_web_width_mm p)
          \<and> in_range_opt 100000 (max_web_width_mm p)
          \<and> web_width_range_matches p)
        InvalidExecutionProfile)"

definition validate_requirement_set :: "material_requirement_set \<Rightarrow> unit contract_result" where
  "validate_requirement_set s =
     bind_outcome (validate_reference ''material_requirement_id'' (requirement_id s)) (\<lambda>_.
     bind_outcome
       (guard_outcome (\<not> (minimum_required_count s = 0
           \<or> length (item_group_ids s) < minimum_required_count s)) InvalidPolicy) (\<lambda>_.
     validate_sorted_unique_references (item_group_ids s) ''material_item_group''))"

fun validate_material_policy :: "material_execution_policy \<Rightarrow> unit contract_result" where
  "validate_material_policy (MaterialNotRequired ids) =
     (if ids \<noteq> [] then validate_sorted_unique_references ids ''material_item_group'' else Inr ())"
| "validate_material_policy (AllRequired ids) =
     validate_sorted_unique_references ids ''material_item_group''"
| "validate_material_policy (RequirementSets sets) =
     bind_outcome
       (guard_outcome (\<not> (sets = [] \<or> \<not> strictly_increasing (map requirement_id sets))) InvalidPolicy)
       (\<lambda>_. each_outcome validate_requirement_set sets)"

fun validate_tooling_policy ::
  "canonical_apparatus_revision \<Rightarrow> tooling_execution_policy \<Rightarrow> unit contract_result" where
  "validate_tooling_policy r ToolingNotRequired = Inr ()"
| "validate_tooling_policy r (QolipScanRequired tooling_class) =
     bind_outcome (guard_outcome (supports_capability r CapTooling) InvalidPolicy)
       (\<lambda>_. validate_reference ''tooling_class_id'' tooling_class)"

definition validate_policies :: "canonical_apparatus_revision \<Rightarrow> unit contract_result" where
  "validate_policies r =
     bind_outcome (validate_material_policy (policy_material (policies r))) (\<lambda>_.
     bind_outcome (validate_tooling_policy r (policy_tooling (policies r))) (\<lambda>_.
     let t = training r in
     guard_outcome (\<not> (training_enabled t \<noteq> supports_capability r CapTraining
         \<or> (\<not> training_enabled t \<and> (queue_enabled t \<or> material_tracking_enabled t))))
       InvalidPolicy))"

definition window_ok :: "working_window \<Rightarrow> bool" where
  "window_ok w \<longleftrightarrow> \<not> (window_weekday w = 0 \<or> 7 < window_weekday w
     \<or> end_minute w \<le> start_minute w \<or> 24 * 60 < int (end_minute w))"

definition validate_capacity :: "canonical_apparatus_revision \<Rightarrow> unit contract_result" where
  "validate_capacity r =
     (let c = capacity r in
      bind_outcome
        (guard_outcome (\<not> (capacity_slots_of c = 0 \<or> 64 < capacity_slots_of c
            \<or> efficiency_percent_of c = 0 \<or> 200 < efficiency_percent_of c)) InvalidCapacity)
        (\<lambda>_. case availability c of
           Always \<Rightarrow> Inr ()
         | Scheduled windows \<Rightarrow>
             guard_outcome (\<not> (windows = [] \<or> \<not> strictly_increasing windows
                 \<or> list_ex (\<lambda>w. \<not> window_ok w) windows)) InvalidCapacity))"

definition validate_lifecycle :: "canonical_apparatus_revision \<Rightarrow> unit contract_result" where
  "validate_lifecycle r =
     (case (lifecycle_state_of (lifecycle r), retirement_reason (lifecycle r)) of
        (StateActive, None) \<Rightarrow> Inr ()
      | (StateRetired, Some reason) \<Rightarrow> validate_reference ''retirement_reason'' reason
      | _ \<Rightarrow> Inl (Err InvalidLifecycle))"

definition validate_revision_metadata :: "canonical_apparatus_revision \<Rightarrow> unit contract_result" where
  "validate_revision_metadata r =
     (let meta = revision_metadata_of r in
      bind_outcome (guard_outcome (\<not> (revision meta = 0 \<or> committed_at_unix_ms meta \<le> 0))
        InvalidRevisionMetadata) (\<lambda>_.
      bind_outcome (validate_reference ''actor_id'' (actor_id meta)) (\<lambda>_.
      bind_outcome (validate_reference ''command_id'' (command_id meta)) (\<lambda>_.
      case source_reference meta of
        None \<Rightarrow> Inr ()
      | Some reference \<Rightarrow> validate_reference ''source_reference'' reference))))"

definition validate_aas_identity :: "canonical_apparatus_revision \<Rightarrow> unit contract_result" where
  "validate_aas_identity r =
     bind_outcome (ok_or (strip_prefix ''apparatus:'' (revision_apparatus_id r)) InvalidAasIdentity)
       (\<lambda>suffix. guard_outcome (aas_identity_of r = pinned_identity suffix) InvalidAasIdentity)"

definition validate_revision :: "canonical_apparatus_revision \<Rightarrow> unit contract_result" where
  "validate_revision r =
     bind_outcome (guard_outcome (schema_version r = 1) InvalidSchemaVersion) (\<lambda>_.
     bind_outcome (validate_display r) (\<lambda>_.
     bind_outcome (validate_capabilities r) (\<lambda>_.
     bind_outcome (validate_execution_profile r) (\<lambda>_.
     bind_outcome (validate_policies r) (\<lambda>_.
     bind_outcome (validate_capacity r) (\<lambda>_.
     bind_outcome (validate_lifecycle r) (\<lambda>_.
     bind_outcome (validate_revision_metadata r) (\<lambda>_.
     bind_outcome (validate_aas_identity r) (\<lambda>_.
     case placement r of
       None \<Rightarrow> Inr ()
     | Some p \<Rightarrow> validate_reference ''factory_map_object_id'' (factory_map_object_id p))))))))))"

section \<open>Drafts and revisions\<close>

fun normalize_material :: "material_execution_policy \<Rightarrow> material_execution_policy" where
  "normalize_material (MaterialNotRequired ids) = MaterialNotRequired (sort ids)"
| "normalize_material (AllRequired ids) = AllRequired (sort ids)"
| "normalize_material (RequirementSets sets) =
     RequirementSets (sort_key requirement_id
       (map (\<lambda>s. s \<lparr> item_group_ids := sort (item_group_ids s) \<rparr>) sets))"

fun normalize_availability :: "capacity_availability \<Rightarrow> capacity_availability" where
  "normalize_availability Always = Always"
| "normalize_availability (Scheduled windows) = Scheduled (sort windows)"

definition normalize_draft :: "canonical_apparatus_draft \<Rightarrow> canonical_apparatus_draft" where
  "normalize_draft d = d \<lparr>
     capabilities_of := sort_key capability_code (capabilities_of d),
     policies := (policies d) \<lparr> policy_material := normalize_material (policy_material (policies d)) \<rparr>,
     capacity := (capacity d) \<lparr> availability := normalize_availability (availability (capacity d)) \<rparr> \<rparr>"

definition from_draft ::
  "string \<Rightarrow> canonical_apparatus_draft \<Rightarrow> revision_metadata \<Rightarrow> canonical_apparatus_revision contract_result"
where
  "from_draft apparatus draft meta =
     bind_outcome (for_apparatus apparatus) (\<lambda>identity.
     let r = canonical_apparatus_draft.extend (normalize_draft draft)
           (canonical_apparatus_revision.fields 1 apparatus meta identity) in
     bind_outcome (validate_revision r) (\<lambda>_. Inr r))"

definition to_draft :: "canonical_apparatus_revision \<Rightarrow> canonical_apparatus_draft" where
  "to_draft r = canonical_apparatus_draft.truncate r"

end
