(* ===== verification/Apparatus_Projection.thy ===== *)
theory Apparatus_Projection
  imports Apparatus_Contract "HOL-Library.Word"
begin

unbundle bit_operations_syntax

text \<open>
  The runtime rows projected from a revision
  (\<^verbatim>\<open>crates/mini_rs_apparatus_contract/src/projector.rs\<close>), each with the identity, revision and
  package hash it came from, and the hash itself.  A hash is the list of its bytes.  SHA-256 is a
  library function; only the bytes it delivers matter here.
\<close>

section \<open>Package hashes\<close>

type_synonym byte = "8 word"
type_synonym aasx_sha256 = "byte list"

text \<open>\<^verbatim>\<open>str::as_bytes\<close> for characters up to U+00FF.\<close>

definition char_bytes :: "char \<Rightarrow> byte list" where
  "char_bytes c =
     (let k = code_of c in
      if k < (128::nat) then [of_nat k]
      else [of_nat (192 + k div 64), of_nat (128 + k mod 64)])"

definition as_bytes :: "string \<Rightarrow> byte list" where
  "as_bytes s = concat (map char_bytes s)"

definition decode_hex_nibble :: "byte \<Rightarrow> byte option" where
  "decode_hex_nibble b =
     (if 48 \<le> b \<and> b \<le> 57 then Some (b - 48)
      else if 97 \<le> b \<and> b \<le> 102 then Some (b - 97 + 10)
      else if 65 \<le> b \<and> b \<le> 70 then Some (b - 65 + 10)
      else None)"

fun decode_pairs :: "byte list \<Rightarrow> byte list option" where
  "decode_pairs (high # low # rest) =
     (case (decode_hex_nibble high, decode_hex_nibble low) of
        (Some h, Some l) \<Rightarrow> map_option ((#) (push_bit 4 h OR l)) (decode_pairs rest)
      | _ \<Rightarrow> None)"
| "decode_pairs _ = Some []"

definition from_hex :: "string \<Rightarrow> aasx_sha256 option" where
  "from_hex v = (if length (as_bytes v) \<noteq> 64 then None else decode_pairs (as_bytes v))"

definition hex_digit :: "byte \<Rightarrow> char" where
  "hex_digit n = ''0123456789abcdef'' ! unat n"

definition to_hex :: "aasx_sha256 \<Rightarrow> string" where
  "to_hex h = concat (map (\<lambda>b. [hex_digit (drop_bit 4 b), hex_digit (b AND 0x0f)]) h)"

section \<open>Rows\<close>

record projection_source =
  source_apparatus_id :: string
  source_revision :: nat
  source_aasx_sha256 :: aasx_sha256

record runtime_apparatus_projection = projection_source +
  runtime_display :: apparatus_display
  runtime_equipment_class_id :: string
  runtime_physical_asset_id :: string
  runtime_hierarchy :: equipment_hierarchy_scope
  runtime_capabilities :: "(equipment_capability_code, nat) btree_map"
  runtime_execution_profile :: execution_profile
  runtime_placement :: "factory_map_placement option"
  runtime_training :: training_profile
  runtime_lifecycle :: apparatus_lifecycle
  runtime_worker_material_assignment_allowed :: bool

record apparatus_queue_projection = projection_source +
  queue_discipline_of :: queue_discipline

record apparatus_material_projection = projection_source +
  material_policy :: material_execution_policy
  material_tooling :: tooling_execution_policy

record apparatus_capacity_projection = projection_source +
  row_capacity_slots :: nat
  row_setup_minutes :: nat
  row_cleanup_minutes :: nat
  row_efficiency_percent :: nat
  row_finite_capacity :: bool
  row_always_available :: bool
  row_working_windows :: "working_window list"

record admin_apparatus_summary = projection_source +
  admin_display_name :: string
  admin_equipment_class_id :: string
  admin_physical_asset_id :: string
  admin_lifecycle :: apparatus_lifecycle

record runtime_apparatus_configuration =
  runtime_row :: runtime_apparatus_projection
  queue_row :: apparatus_queue_projection
  material_row :: apparatus_material_projection
  capacity_row :: apparatus_capacity_projection

record apparatus_projection_set = runtime_apparatus_configuration +
  admin_row :: admin_apparatus_summary

definition configuration_of_set :: "apparatus_projection_set \<Rightarrow> runtime_apparatus_configuration" where
  "configuration_of_set s = runtime_apparatus_configuration.truncate s"

definition same_source :: "'a projection_source_scheme \<Rightarrow> 'b projection_source_scheme \<Rightarrow> bool" where
  "same_source p q \<longleftrightarrow> source_apparatus_id p = source_apparatus_id q
     \<and> source_revision p = source_revision q \<and> source_aasx_sha256 p = source_aasx_sha256 q"

definition has_coherent_source :: "runtime_apparatus_configuration \<Rightarrow> bool" where
  "has_coherent_source c \<longleftrightarrow>
     same_source (queue_row c) (runtime_row c) \<and> same_source (material_row c) (runtime_row c)
     \<and> same_source (capacity_row c) (runtime_row c)"

definition configuration_is_active :: "runtime_apparatus_configuration \<Rightarrow> bool" where
  "configuration_is_active c \<longleftrightarrow>
     lifecycle_state_of (runtime_lifecycle (runtime_row c)) = StateActive"

definition configuration_supports ::
  "runtime_apparatus_configuration \<Rightarrow> equipment_capability_code \<Rightarrow> bool" where
  "configuration_supports c code = bt_contains_key (runtime_capabilities (runtime_row c)) code"

definition uses_lamination_workflow :: "runtime_apparatus_configuration \<Rightarrow> bool" where
  "uses_lamination_workflow c \<longleftrightarrow>
     configuration_is_active c \<and>
     (let p = runtime_execution_profile (runtime_row c) in
      case operation p of
        OpLaminate \<Rightarrow> configuration_supports c CapLaminate
      | OpGlue \<Rightarrow> technology p = ColdGlue \<and> configuration_supports c CapGlue
      | _ \<Rightarrow> False)"

definition project_apparatus_revision ::
  "canonical_apparatus_revision \<Rightarrow> aasx_sha256 \<Rightarrow> apparatus_projection_set" where
  "project_apparatus_revision r hash =
     (let i = revision_apparatus_id r;
          n = revision (revision_metadata_of r);
          capabilities = bt_collect
            (map (\<lambda>c. (capability_code c, capability_level_of c)) (capabilities_of r));
          (always, windows) =
            (case availability (capacity r) of
               Always \<Rightarrow> (True, [])
             | Scheduled windows \<Rightarrow> (False, windows)) in
      \<lparr> runtime_row =
          \<lparr> source_apparatus_id = i, source_revision = n, source_aasx_sha256 = hash,
            runtime_display = display r,
            runtime_equipment_class_id = equipment_class_id r,
            runtime_physical_asset_id = physical_asset_id r,
            runtime_hierarchy = hierarchy r,
            runtime_capabilities = capabilities,
            runtime_execution_profile = execution_profile_of r,
            runtime_placement = placement r,
            runtime_training = training r,
            runtime_lifecycle = lifecycle r,
            runtime_worker_material_assignment_allowed =
              worker_material_assignment_allowed (policies r) \<rparr>,
        queue_row =
          \<lparr> source_apparatus_id = i, source_revision = n, source_aasx_sha256 = hash,
            queue_discipline_of = policy_queue (policies r) \<rparr>,
        material_row =
          \<lparr> source_apparatus_id = i, source_revision = n, source_aasx_sha256 = hash,
            material_policy = policy_material (policies r),
            material_tooling = policy_tooling (policies r) \<rparr>,
        capacity_row =
          \<lparr> source_apparatus_id = i, source_revision = n, source_aasx_sha256 = hash,
            row_capacity_slots = capacity_slots_of (capacity r),
            row_setup_minutes = setup_minutes_of (capacity r),
            row_cleanup_minutes = cleanup_minutes_of (capacity r),
            row_efficiency_percent = efficiency_percent_of (capacity r),
            row_finite_capacity = finite_capacity_of (capacity r),
            row_always_available = always,
            row_working_windows = windows \<rparr>,
        admin_row =
          \<lparr> source_apparatus_id = i, source_revision = n, source_aasx_sha256 = hash,
            admin_display_name = display_name (display r),
            admin_equipment_class_id = equipment_class_id r,
            admin_physical_asset_id = physical_asset_id r,
            admin_lifecycle = lifecycle r \<rparr> \<rparr>)"

end
