(* ===== verification/Contract_Laws.thy ===== *)
theory Contract_Laws
  imports Apparatus_Projection
begin

text \<open>
  Correctness of the apparatus contract: a revision survives being taken apart into a draft and
  committed again, the hash survives its text form, and the runtime rows projected from a valid
  revision are coherent and say what the revision says.
\<close>

section \<open>Normal form\<close>

lemma strictly_increasing_iff: "strictly_increasing xs \<longleftrightarrow> sorted_wrt (<) xs"
  by (induction xs rule: strictly_increasing.induct) (auto intro: less_trans)

lemma strictly_increasing_sort: "strictly_increasing xs \<Longrightarrow> sort xs = xs"
  by (simp add: strictly_increasing_iff strict_sorted_iff sorted_sort_id)

lemma strictly_increasing_sort_key: "strictly_increasing (map f xs) \<Longrightarrow> sort_key f xs = xs"
  by (simp add: strictly_increasing_iff strict_sorted_iff sort_key_id_if_sorted)

lemma validated_references: "validate_sorted_unique_references vs field = Inr u \<Longrightarrow> strictly_increasing vs"
  by (simp add: validate_sorted_unique_references_def bind_outcome_eq_Inr)

lemma validated_material:
  assumes "validate_material_policy p = Inr u"
  shows "normalize_material p = p"
proof (cases p)
  case (MaterialNotRequired ids)
  then show ?thesis using assms
    by (auto split: if_splits dest!: validated_references strictly_increasing_sort)
next
  case (AllRequired ids)
  then show ?thesis using assms by (auto dest!: validated_references strictly_increasing_sort)
next
  case (RequirementSets sets)
  have "s \<lparr> item_group_ids := sort (item_group_ids s) \<rparr> = s" if "s \<in> set sets" for s
  proof -
    have "validate_requirement_set s = Inr ()"
      using assms RequirementSets that by (auto simp: bind_outcome_eq_Inr each_outcome_Inr)
    then show ?thesis
      by (auto simp: validate_requirement_set_def bind_outcome_eq_Inr
          dest!: validated_references strictly_increasing_sort)
  qed
  then have "map (\<lambda>s. s \<lparr> item_group_ids := sort (item_group_ids s) \<rparr>) sets = sets"
    by (simp add: map_idI)
  moreover have "sort_key requirement_id sets = sets"
    using assms RequirementSets by (auto simp: bind_outcome_eq_Inr intro: strictly_increasing_sort_key)
  ultimately show ?thesis using RequirementSets by simp
qed

lemma validated_revision:
  assumes "validate_revision r = Inr u"
  shows "schema_version r = 1"
    and "validate_capabilities r = Inr ()" "validate_capacity r = Inr ()" "validate_policies r = Inr ()"
    and "validate_aas_identity r = Inr ()" "validate_lifecycle r = Inr ()"
    and "validate_execution_profile r = Inr ()"
  using assms by (simp_all add: validate_revision_def bind_outcome_eq_Inr)

lemma validated_normal:
  assumes "validate_revision r = Inr u"
  shows "normalize_draft (to_draft r) = to_draft r"
proof -
  have "sort_key capability_code (capabilities_of r) = capabilities_of r"
    using validated_revision(2) [OF assms]
    by (intro strictly_increasing_sort_key)
      (simp add: validate_capabilities_def bind_outcome_eq_Inr Let_def)
  moreover have "normalize_availability (availability (capacity r)) = availability (capacity r)"
    using validated_revision(3) [OF assms]
    by (cases "availability (capacity r)")
      (auto simp: validate_capacity_def bind_outcome_eq_Inr Let_def intro: strictly_increasing_sort)
  moreover have "normalize_material (policy_material (policies r)) = policy_material (policies r)"
    using validated_revision(4) [OF assms]
    by (auto simp: validate_policies_def bind_outcome_eq_Inr intro: validated_material)
  ultimately show ?thesis
    by (simp add: normalize_draft_def to_draft_def canonical_apparatus_draft.defs)
qed

lemma for_apparatus_identity:
  "validate_revision r = Inr u \<Longrightarrow> for_apparatus (revision_apparatus_id r) = Inr (aas_identity_of r)"
  by (drule validated_revision(5))
    (auto simp: validate_aas_identity_def for_apparatus_def bind_outcome_eq_Inr)

lemma extend_truncate:
  "canonical_apparatus_draft.extend (to_draft r)
     (canonical_apparatus_revision.fields (schema_version r) (revision_apparatus_id r)
       (revision_metadata_of r) (aas_identity_of r)) = r"
  by (simp add: to_draft_def canonical_apparatus_draft.defs canonical_apparatus_revision.defs)

section \<open>Hashes\<close>

lemma hex_digit_cases:
  "n < 16 \<Longrightarrow> code_of (hex_digit n) < (128::nat)
     \<and> decode_hex_nibble (of_nat (code_of (hex_digit n))) = Some n
     \<and> \<not> is_ascii_uppercase (hex_digit n)"
proof -
  assume "n < 16"
  then have "unat n < 16" by (simp add: word_less_nat_alt)
  then have "unat n \<in> set [0..<16]" by simp
  moreover have "\<forall>k\<in>set [0..<16]. code_of (''0123456789abcdef'' ! k) < (128::nat) \<and>
      decode_hex_nibble (of_nat (code_of (''0123456789abcdef'' ! k))) = Some (of_nat k) \<and>
      \<not> is_ascii_uppercase (''0123456789abcdef'' ! k)"
    by code_simp
  ultimately show ?thesis by (auto simp: hex_digit_def)
qed

lemma nibbles:
  fixes b :: byte
  shows "drop_bit 4 b < 16" "b AND 15 < 16" "push_bit 4 (drop_bit 4 b) OR (b AND 15) = b"
proof -
  have b: "unat b < 256" using unsigned_less [where ?'a = nat, of b] by simp
  show "drop_bit 4 b < 16"
    using b by (simp add: word_less_nat_alt drop_bit_eq_div unat_div)
  have "b AND 15 = take_bit 4 b" by (simp add: take_bit_eq_mask mask_numeral)
  then show "b AND 15 < 16" "push_bit 4 (drop_bit 4 b) OR (b AND 15) = b"
    by (simp add: word_less_nat_alt take_bit_eq_mod unat_mod)
      (auto simp: \<open>b AND 15 = take_bit 4 b\<close> bit_simps intro!: bit_word_eqI)
qed

lemma as_bytes_to_hex: "as_bytes (to_hex h) =
   concat (map (\<lambda>b. [of_nat (code_of (hex_digit (drop_bit 4 b))), of_nat (code_of (hex_digit (b AND 15)))]) h)"
  using nibbles hex_digit_cases by (induction h) (simp_all add: as_bytes_def to_hex_def char_bytes_def)

lemma decode_to_hex: "decode_pairs (as_bytes (to_hex h)) = Some h"
  using nibbles hex_digit_cases by (induction h) (simp_all add: as_bytes_to_hex)

lemma length_to_hex: "length (as_bytes (to_hex h)) = 2 * length h"
  by (induction h) (simp_all add: as_bytes_to_hex)

lemma decoded_char:
  assumes "code_of c < (128::nat)" "decode_hex_nibble (of_nat (code_of c)) = Some n"
  shows "n < 16 \<and> hex_digit n = ascii_lower c"
proof -
  have "\<forall>k\<in>set [0..<128]. case decode_hex_nibble (of_nat k) of None \<Rightarrow> True
      | Some n \<Rightarrow> n < 16 \<and> hex_digit n = ascii_lower (char_of k)"
    by code_simp
  moreover have "code_of c \<in> set [0..<128]" unfolding set_upt atLeastLessThan_iff using assms(1) by simp
  ultimately have "case decode_hex_nibble (of_nat (code_of c)) of None \<Rightarrow> True
      | Some n \<Rightarrow> n < 16 \<and> hex_digit n = ascii_lower (char_of (code_of c))" by (rule bspec)
  then show ?thesis using assms(2) by simp
qed

lemma decoded_bytes:
  "decode_pairs bs = Some h \<Longrightarrow> even (length bs) \<Longrightarrow>
     length bs = 2 * length h \<and> (\<forall>b\<in>set bs. decode_hex_nibble b \<noteq> None)"
  by (induction bs arbitrary: h rule: decode_pairs.induct) (auto split: option.splits)

lemma char_bytes_ascii:
  assumes "\<forall>b\<in>set (char_bytes c). decode_hex_nibble b \<noteq> None"
  shows "code_of c < (128::nat)"
proof (rule ccontr)
  assume big: "\<not> code_of c < (128::nat)"
  then have "code_of c div 64 = (2::nat) \<or> code_of c div 64 = (3::nat)"
    using nat_of_char_less_256 [of c] by linarith
  moreover have "decode_hex_nibble (of_nat (192 + 2)) = None" "decode_hex_nibble (of_nat (192 + 3)) = None"
    by code_simp+
  ultimately have "decode_hex_nibble (of_nat (192 + code_of c div 64)) = None" by metis
  then show False using assms big by (simp add: char_bytes_def Let_def)
qed

lemma as_bytes_ascii:
  "(\<And>c. c \<in> set s \<Longrightarrow> code_of c < (128::nat)) \<Longrightarrow> as_bytes s = map (\<lambda>c. of_nat (code_of c)) s"
  by (induction s) (simp_all add: as_bytes_def char_bytes_def)

lemma hex_text_ascii:
  assumes "from_hex s = Some h" "c \<in> set s"
  shows "code_of c < (128::nat)"
proof (rule char_bytes_ascii)
  have "decode_pairs (as_bytes s) = Some h" "even (length (as_bytes s))"
    using assms(1) by (simp_all add: from_hex_def split: if_splits)
  then show "\<forall>b\<in>set (char_bytes c). decode_hex_nibble b \<noteq> None"
    using decoded_bytes assms(2) by (fastforce simp: as_bytes_def)
qed

lemma byte_parts:
  fixes x y :: byte
  assumes "x < 16" "y < 16"
  shows "drop_bit 4 (push_bit 4 x OR y) = x \<and> (push_bit 4 x OR y) AND 15 = y"
proof -
  have "\<forall>i\<in>set [0..<16]. \<forall>j\<in>set [0..<16]. drop_bit 4 (push_bit 4 (of_nat i) OR of_nat j :: byte) = of_nat i
      \<and> (push_bit 4 (of_nat i) OR of_nat j) AND 15 = (of_nat j :: byte)"
    by code_simp
  moreover have "unat x \<in> set [0..<16]" "unat y \<in> set [0..<16]"
    unfolding set_upt atLeastLessThan_iff using assms by (simp_all add: word_less_nat_alt)
  ultimately have "drop_bit 4 (push_bit 4 (of_nat (unat x)) OR of_nat (unat y) :: byte) = of_nat (unat x)
      \<and> (push_bit 4 (of_nat (unat x)) OR of_nat (unat y)) AND 15 = (of_nat (unat y) :: byte)" by blast
  then show ?thesis by simp
qed

lemma decoded_text:
  assumes "\<forall>c\<in>set s. code_of c < (128::nat)" "decode_pairs (as_bytes s) = Some h" "even (length s)"
  shows "to_hex h = to_ascii_lowercase s"
  using assms
proof (induction s arbitrary: h rule: induct_list012)
  case 1
  then show ?case by (simp add: as_bytes_def to_hex_def to_ascii_lowercase_def)
next
  case (2 c)
  then show ?case by simp
next
  case (3 c d s)
  have bytes: "as_bytes (c # d # s) = of_nat (code_of c) # of_nat (code_of d) # as_bytes s"
    using 3(3) by (simp add: as_bytes_def char_bytes_def)
  from 3(4) obtain x y rest where x: "decode_hex_nibble (of_nat (code_of c)) = Some x"
    and y: "decode_hex_nibble (of_nat (code_of d)) = Some y"
    and rest: "decode_pairs (as_bytes s) = Some rest" "h = (push_bit 4 x OR y) # rest"
    unfolding bytes by (auto split: option.splits)
  have "to_hex rest = to_ascii_lowercase s" using 3(1) 3(3,5) rest(1) by simp
  then show ?case
    using decoded_char [OF _ x] decoded_char [OF _ y] 3(3) rest(2) byte_parts [of x y]
    by (simp add: to_hex_def to_ascii_lowercase_def)
qed

section \<open>Rows\<close>

lemma projected_sources: "has_coherent_source (configuration_of_set (project_apparatus_revision r h))"
  by (simp add: has_coherent_source_def configuration_of_set_def project_apparatus_revision_def
      same_source_def runtime_apparatus_configuration.defs Let_def split: capacity_availability.split)

lemma projected_fields:
  "runtime_capabilities (runtime_row (configuration_of_set (project_apparatus_revision r h))) =
     bt_collect (map (\<lambda>c. (capability_code c, capability_level_of c)) (capabilities_of r))"
  "runtime_lifecycle (runtime_row (configuration_of_set (project_apparatus_revision r h))) = lifecycle r"
  "runtime_execution_profile (runtime_row (configuration_of_set (project_apparatus_revision r h))) =
     execution_profile_of r"
  "source_apparatus_id (runtime_row (configuration_of_set (project_apparatus_revision r h))) =
     revision_apparatus_id r"
  "row_working_windows (capacity_row (configuration_of_set (project_apparatus_revision r h))) =
     (case availability (capacity r) of Always \<Rightarrow> [] | Scheduled ws \<Rightarrow> ws)"
  "row_always_available (capacity_row (configuration_of_set (project_apparatus_revision r h))) \<longleftrightarrow>
     availability (capacity r) = Always"
  "row_capacity_slots (capacity_row (configuration_of_set (project_apparatus_revision r h))) =
     capacity_slots_of (capacity r)"
  "row_efficiency_percent (capacity_row (configuration_of_set (project_apparatus_revision r h))) =
     efficiency_percent_of (capacity r)"
  by (simp_all add: configuration_of_set_def project_apparatus_revision_def
      runtime_apparatus_configuration.defs Let_def split: capacity_availability.split)

lemma validated_codes:
  assumes "validate_revision r = Inr u"
  shows "distinct (map capability_code (capabilities_of r))"
  using validated_revision(2) [OF assms]
  by (simp add: validate_capabilities_def bind_outcome_eq_Inr Let_def strictly_increasing_iff
      strict_sorted_iff)

lemma projected_capability:
  assumes "validate_revision r = Inr u"
  shows "bt_get (runtime_capabilities (runtime_row (configuration_of_set (project_apparatus_revision r h)))) code
      = Some level \<longleftrightarrow>
    (\<exists>c\<in>set (capabilities_of r). capability_code c = code \<and> capability_level_of c = level)"
proof -
  let ?kvs = "map (\<lambda>c. (capability_code c, capability_level_of c)) (capabilities_of r)"
  have "distinct (map fst ?kvs)" using validated_codes [OF assms] by (simp add: comp_def)
  then show ?thesis
    unfolding projected_fields by (auto simp: bt_get_collect_distinct map_of_eq_Some_iff)
qed

lemma projected_supports:
  "configuration_supports (configuration_of_set (project_apparatus_revision r h)) code \<longleftrightarrow>
     supports_capability r code"
  unfolding configuration_supports_def supports_capability_def projected_fields bt_contains_key_def
    bt_get_collect map_of_eq_None_iff list_ex_iff
  by force

section \<open>A sample revision\<close>

definition sample_draft :: canonical_apparatus_draft where
  "sample_draft =
     \<lparr> display = \<lparr> display_name = ''Laminator'', description = [], catalog_order = 1 \<rparr>,
       equipment_class_id = ''class:lam'', physical_asset_id = ''asset:1'',
       hierarchy = \<lparr> enterprise_id = ''e:1'', site_id = ''s:1'', area_id = ''a:1'',
         work_center_id = ''c:1'', work_unit_id = ''u:1'' \<rparr>,
       capabilities_of =
         [\<lparr> capability_code = CapTooling, capability_level_of = 1 \<rparr>,
          \<lparr> capability_code = CapLaminate, capability_level_of = 2 \<rparr>],
       execution_profile_of =
         \<lparr> operation = OpLaminate, technology = AdhesiveLamination, color_station_count = None,
           min_web_width_mm = None, max_web_width_mm = None, virtual_tasks = VirtualDisabled,
           capability_compatible_reroute = False \<rparr>,
       policies =
         \<lparr> policy_queue = DisciplineFreePick, policy_material = AllRequired [''glue'', ''film''],
           policy_tooling = QolipScanRequired ''tool:1'', worker_material_assignment_allowed = False \<rparr>,
       capacity =
         \<lparr> capacity_slots_of = 1, setup_minutes_of = 5, cleanup_minutes_of = 5,
           efficiency_percent_of = 50, finite_capacity_of = True,
           availability = Scheduled [WorkingWindow 2 0 90, WorkingWindow 1 0 90] \<rparr>,
       placement = None,
       training = \<lparr> training_enabled = False, queue_enabled = False, material_tracking_enabled = False \<rparr>,
       lifecycle = \<lparr> lifecycle_state_of = StateActive, retirement_reason = None \<rparr> \<rparr>"

definition sample_metadata :: revision_metadata where
  "sample_metadata =
     \<lparr> revision = 1, committed_at_unix_ms = 1, actor_id = ''a'', command_id = ''c'',
       revision_source_of = SourceAdmin, source_reference = None \<rparr>"

definition sample_apparatus :: string where
  "sample_apparatus = ''apparatus:default:laminat_1''"

definition sample_revision :: canonical_apparatus_revision where
  "sample_revision =
     canonical_apparatus_draft.extend (normalize_draft sample_draft)
       (canonical_apparatus_revision.fields 1 sample_apparatus sample_metadata
         (pinned_identity ''default:laminat_1''))"

lemma sample_from_draft: "from_draft sample_apparatus sample_draft sample_metadata = Inr sample_revision"
  by code_simp

section \<open>Properties\<close>

text \<open>C26: A revision made from a draft passes validation and holds the draft in normal form.  Taking it
  apart and committing the same content again gives the same revision: normalising never changes
  a committed revision.\<close>

theorem revision_roundtrip:
  assumes "from_draft apparatus draft meta = Inr r"
  shows "validate_revision r = Inr () \<and> to_draft r = normalize_draft draft \<and>
    revision_apparatus_id r = apparatus \<and> revision_metadata_of r = meta \<and>
    from_draft apparatus (to_draft r) meta = Inr r"
proof -
  from assms obtain identity where r: "r = canonical_apparatus_draft.extend (normalize_draft draft)
      (canonical_apparatus_revision.fields 1 apparatus meta identity)"
    and valid: "validate_revision r = Inr ()"
    by (auto simp: from_draft_def bind_outcome_eq_Inr Let_def)
  have parts: "to_draft r = normalize_draft draft" "revision_apparatus_id r = apparatus"
    "revision_metadata_of r = meta"
    unfolding r
    by (simp_all add: to_draft_def canonical_apparatus_draft.defs canonical_apparatus_revision.defs)
  have "from_draft apparatus (to_draft r) meta =
      bind_outcome (for_apparatus (revision_apparatus_id r)) (\<lambda>identity.
        let r = canonical_apparatus_draft.extend (normalize_draft (to_draft r))
          (canonical_apparatus_revision.fields (schema_version r) (revision_apparatus_id r)
            (revision_metadata_of r) identity) in
        bind_outcome (validate_revision r) (\<lambda>_. Inr r))"
    unfolding from_draft_def parts(2,3) validated_revision(1) [OF valid] ..
  then show ?thesis
    using parts valid for_apparatus_identity [OF valid] validated_normal [OF valid] extend_truncate [of r]
    by simp
qed

theorem revision_roundtrip_witness:
  "from_draft sample_apparatus sample_draft sample_metadata = Inr sample_revision \<and>
   validate_revision sample_revision = Inr () \<and> to_draft sample_revision \<noteq> sample_draft \<and>
   from_draft sample_apparatus (to_draft sample_revision) sample_metadata = Inr sample_revision"
proof -
  have "normalize_draft sample_draft \<noteq> sample_draft" by code_simp
  then show ?thesis
    using revision_roundtrip [OF sample_from_draft] sample_from_draft by metis
qed

text \<open>The text form of a hash is faithful: a hash of 32 bytes is read back from the text it prints,
  and a text that is accepted is, up to case, the one its hash prints.\<close>

theorem hash_text_roundtrip:
  "(length h = 32 \<longrightarrow> from_hex (to_hex h) = Some h) \<and>
   (from_hex s = Some g \<longrightarrow> length g = 32 \<and> to_hex g = to_ascii_lowercase s)"
proof (intro conjI impI)
  assume "length h = 32"
  then show "from_hex (to_hex h) = Some h"
    using length_to_hex decode_to_hex by (simp add: from_hex_def)
next
  assume s: "from_hex s = Some g"
  then have d: "decode_pairs (as_bytes s) = Some g" "length (as_bytes s) = 64"
    by (simp_all add: from_hex_def split: if_splits)
  have "length (as_bytes s) = length s"
    using as_bytes_ascii hex_text_ascii [OF s] by simp
  then show "to_hex g = to_ascii_lowercase s"
    using d hex_text_ascii [OF s] by (intro decoded_text) auto
  show "length g = 32" using decoded_bytes [OF d(1)] d(2) by simp
qed



end
