(* ===== verification/Queue_State.thy ===== *)
theory Queue_State
  imports Wire_Enums Production_Errors
begin

text \<open>
  The state of an order in the queue of one apparatus, the actions of a worker and the
  transition between states (\<^verbatim>\<open>queue/state.rs\<close>), the order in which an apparatus serves its
  queue (\<^verbatim>\<open>queue/sequence.rs\<close>), the application of an action under the two queue policies
  (\<^verbatim>\<open>queue/actions.rs\<close>, \<^verbatim>\<open>queue/support.rs\<close>) and the actions offered to the client
  (\<^verbatim>\<open>queue/policy.rs\<close>).
\<close>

section \<open>States and actions\<close>

datatype queue_order_state =
  Pending | PrintPreflight | InProgress | Paused | Frozen | Completed

definition parse_state :: "string \<Rightarrow> queue_order_state option" where
  "parse_state value =
     (let value = trim value in
      if eq_ignore_ascii_case value ''pending'' then Some Pending
      else if eq_ignore_ascii_case value ''print_preflight'' then Some PrintPreflight
      else if eq_ignore_ascii_case value ''in_progress'' then Some InProgress
      else if eq_ignore_ascii_case value ''paused'' then Some Paused
      else if eq_ignore_ascii_case value ''frozen'' then Some Frozen
      else if eq_ignore_ascii_case value ''completed'' then Some Completed
      else None)"

fun state_as_str :: "queue_order_state \<Rightarrow> string" where
  "state_as_str Pending = ''pending''"
| "state_as_str PrintPreflight = ''print_preflight''"
| "state_as_str InProgress = ''in_progress''"
| "state_as_str Paused = ''paused''"
| "state_as_str Frozen = ''frozen''"
| "state_as_str Completed = ''completed''"

fun is_active :: "queue_order_state \<Rightarrow> bool" where
  "is_active InProgress = True"
| "is_active PrintPreflight = True"
| "is_active _ = False"

fun allows_material_intake :: "queue_order_state \<Rightarrow> bool" where
  "allows_material_intake InProgress = True"
| "allows_material_intake Paused = True"
| "allows_material_intake _ = False"

datatype queue_action =
  Start | Pause | Freeze | DetachRoll | Resume | Merge | RollComplete | Complete

definition parse_action :: "string \<Rightarrow> queue_action option" where
  "parse_action value =
     (let value = trim value in
      if eq_ignore_ascii_case value ''start'' then Some Start
      else if eq_ignore_ascii_case value ''pause'' then Some Pause
      else if eq_ignore_ascii_case value ''freeze'' then Some Freeze
      else if eq_ignore_ascii_case value ''detach_roll'' then Some DetachRoll
      else if eq_ignore_ascii_case value ''resume'' then Some Resume
      else if eq_ignore_ascii_case value ''merge'' then Some Merge
      else if eq_ignore_ascii_case value ''roll_complete'' then Some RollComplete
      else if eq_ignore_ascii_case value ''complete'' then Some Complete
      else None)"

fun action_as_str :: "queue_action \<Rightarrow> string" where
  "action_as_str Start = ''start''"
| "action_as_str Pause = ''pause''"
| "action_as_str Freeze = ''freeze''"
| "action_as_str DetachRoll = ''detach_roll''"
| "action_as_str Resume = ''resume''"
| "action_as_str Merge = ''merge''"
| "action_as_str RollComplete = ''roll_complete''"
| "action_as_str Complete = ''complete''"

fun creates_resumable_output :: "queue_action \<Rightarrow> bool" where
  "creates_resumable_output Pause = True"
| "creates_resumable_output DetachRoll = True"
| "creates_resumable_output _ = False"

fun records_progress_output :: "queue_action \<Rightarrow> bool" where
  "records_progress_output Pause = True"
| "records_progress_output DetachRoll = True"
| "records_progress_output RollComplete = True"
| "records_progress_output Complete = True"
| "records_progress_output _ = False"

fun next_queue_state :: "queue_order_state \<Rightarrow> queue_action \<Rightarrow> queue_order_state pm_result" where
  "next_queue_state Pending Start = Inr InProgress"
| "next_queue_state PrintPreflight Start = Inr InProgress"
| "next_queue_state PrintPreflight Freeze = Inr Frozen"
| "next_queue_state InProgress Pause = Inr Paused"
| "next_queue_state InProgress Freeze = Inr Frozen"
| "next_queue_state InProgress DetachRoll = Inr Paused"
| "next_queue_state Paused Resume = Inr InProgress"
| "next_queue_state InProgress Merge = Inr InProgress"
| "next_queue_state InProgress RollComplete = Inr InProgress"
| "next_queue_state InProgress Complete = Inr Completed"
| "next_queue_state _ _ = Inl (Err QueueActionNotAllowed)"

lemmas name_eval = to_ascii_lowercase_def eq_ignore_ascii_case_def trim_def trim_start_def
  trim_end_def char_class_defs

interpretation state_names: wire_enum state_as_str parse_state
proof
  fix x s
  show "to_ascii_lowercase (state_as_str x) = state_as_str x"
    by (cases x) (simp_all add: name_eval)
  show "trim (state_as_str x) = state_as_str x"
    by (cases x) (simp_all add: name_eval)
  show "parse_state s = Some x \<longleftrightarrow> eq_ignore_ascii_case (trim s) (state_as_str x)"
    by (cases x) (auto simp: parse_state_def Let_def to_ascii_lowercase_def
        eq_ignore_ascii_case_def is_ascii_uppercase_def)
qed

interpretation action_names: wire_enum action_as_str parse_action
proof
  fix x s
  show "to_ascii_lowercase (action_as_str x) = action_as_str x"
    by (cases x) (simp_all add: name_eval)
  show "trim (action_as_str x) = action_as_str x"
    by (cases x) (simp_all add: name_eval)
  show "parse_action s = Some x \<longleftrightarrow> eq_ignore_ascii_case (trim s) (action_as_str x)"
    by (cases x) (auto simp: parse_action_def Let_def to_ascii_lowercase_def
        eq_ignore_ascii_case_def is_ascii_uppercase_def)
qed

section \<open>The order of a queue\<close>

type_synonym queue_states = "(string, queue_order_state) btree_map"

definition state_of :: "queue_states \<Rightarrow> string \<Rightarrow> queue_order_state" where
  "state_of states oid = (case bt_get states oid of None \<Rightarrow> Pending | Some st \<Rightarrow> st)"

text \<open>
  The two loops of \<^verbatim>\<open>effective_apparatus_sequence_excluding\<close> differ in the condition on the
  trimmed oid only; \<open>seen\<close> is extended exactly when the oid is pushed.
\<close>

fun push_ids ::
  "(string \<Rightarrow> bool) \<Rightarrow> string list \<Rightarrow> string set \<Rightarrow> string list \<Rightarrow> string set \<times> string list" where
  "push_ids ok [] seen result = (seen, result)"
| "push_ids ok (oid # ids) seen result =
     (let oid = trim oid in
      if oid \<noteq> [] \<and> ok oid \<and> oid \<notin> seen then push_ids ok ids (insert oid seen) (result @ [oid])
      else push_ids ok ids seen result)"

definition trimmed_ids :: "string list \<Rightarrow> string list" where
  "trimmed_ids ids = filter (\<lambda>oid. oid \<noteq> []) (map trim ids)"

definition effective_apparatus_sequence_excluding ::
  "string list \<Rightarrow> string list \<Rightarrow> string list \<Rightarrow> string list" where
  "effective_apparatus_sequence_excluding stored visible_order_ids excluded_order_ids =
     (let excluded = set (trimmed_ids excluded_order_ids);
          visible = set (filter (\<lambda>oid. oid \<notin> excluded) (trimmed_ids visible_order_ids)) in
      if visible = {} then []
      else
        (case push_ids (\<lambda>oid. oid \<in> visible) stored {} [] of (seen, result) \<Rightarrow>
           snd (push_ids (\<lambda>oid. oid \<notin> excluded) (rev visible_order_ids) seen result)))"

definition effective_apparatus_sequence :: "string list \<Rightarrow> string list \<Rightarrow> string list" where
  "effective_apparatus_sequence stored visible_order_ids =
     effective_apparatus_sequence_excluding stored visible_order_ids []"

fun first_actionable_loop ::
  "string list \<Rightarrow> queue_states \<Rightarrow> string option \<Rightarrow> string option" where
  "first_actionable_loop [] states first_waiting = first_waiting"
| "first_actionable_loop (oid # ids) states first_waiting =
     (let oid = trim oid in
      if oid = [] then first_actionable_loop ids states first_waiting
      else
        (case state_of states oid of
           InProgress \<Rightarrow> Some oid
         | PrintPreflight \<Rightarrow> Some oid
         | Pending \<Rightarrow> first_actionable_loop ids states
             (Some (case first_waiting of None \<Rightarrow> oid | Some w \<Rightarrow> w))
         | Paused \<Rightarrow> first_actionable_loop ids states
             (Some (case first_waiting of None \<Rightarrow> oid | Some w \<Rightarrow> w))
         | Frozen \<Rightarrow> first_actionable_loop ids states first_waiting
         | Completed \<Rightarrow> first_actionable_loop ids states first_waiting))"

definition first_actionable_order_id :: "string list \<Rightarrow> queue_states \<Rightarrow> string option" where
  "first_actionable_order_id sequence states = first_actionable_loop sequence states None"

section \<open>Applying an action\<close>

definition takes_slot :: "queue_action \<Rightarrow> bool" where
  "takes_slot action \<longleftrightarrow> action = Start \<or> action = Resume"

definition apply_unordered_queue_action ::
  "queue_states \<Rightarrow> string \<Rightarrow> queue_action \<Rightarrow> queue_states pm_result" where
  "apply_unordered_queue_action states order_id action =
     (let order_id = trim order_id in
      if order_id = [] then Inl (Err MissingId)
      else if takes_slot action
        \<and> list_ex (\<lambda>(oid, st). trim oid \<noteq> order_id \<and> is_active st) states
      then Inl (Err QueueActionNotAllowed)
      else bind_outcome (next_queue_state (state_of states order_id) action)
             (\<lambda>next. Inr (bt_insert order_id next states)))"

definition apply_queue_action ::
  "string list \<Rightarrow> queue_states \<Rightarrow> string \<Rightarrow> queue_action \<Rightarrow> queue_states pm_result" where
  "apply_queue_action sequence states order_id action =
     (let order_id = trim order_id in
      if order_id = [] then Inl (Err MissingId)
      else if \<not> list_ex (\<lambda>oid. trim oid = order_id) sequence then Inl (Err QueueActionNotAllowed)
      else if takes_slot action \<and> first_actionable_order_id sequence states \<noteq> Some order_id
      then Inl (Err QueueActionNotAllowed)
      else apply_unordered_queue_action states order_id action)"

datatype queue_policy = StrictSequence | FreePick

definition parse_policy :: "string \<Rightarrow> queue_policy option" where
  "parse_policy value =
     (let value = trim value in
      if eq_ignore_ascii_case value ''strict_sequence'' then Some StrictSequence
      else if eq_ignore_ascii_case value ''free_pick'' then Some FreePick
      else None)"

fun policy_as_str :: "queue_policy \<Rightarrow> string" where
  "policy_as_str StrictSequence = ''strict_sequence''"
| "policy_as_str FreePick = ''free_pick''"

interpretation policy_names: wire_enum policy_as_str parse_policy
proof
  fix x s
  show "to_ascii_lowercase (policy_as_str x) = policy_as_str x"
    by (cases x) (simp_all add: name_eval)
  show "trim (policy_as_str x) = policy_as_str x"
    by (cases x) (simp_all add: name_eval)
  show "parse_policy s = Some x \<longleftrightarrow> eq_ignore_ascii_case (trim s) (policy_as_str x)"
    by (cases x) (auto simp: parse_policy_def Let_def to_ascii_lowercase_def
        eq_ignore_ascii_case_def is_ascii_uppercase_def)
qed

fun apply_queue_policy ::
  "queue_policy \<Rightarrow> string list \<Rightarrow> queue_states \<Rightarrow> string \<Rightarrow> queue_action \<Rightarrow> queue_states pm_result"
where
  "apply_queue_policy StrictSequence sequence parsed order_id action =
     apply_queue_action sequence parsed order_id action"
| "apply_queue_policy FreePick sequence parsed order_id action =
     apply_unordered_queue_action parsed order_id action"

definition apply_requeued_resume ::
  "queue_policy \<Rightarrow> string list \<Rightarrow> queue_states \<Rightarrow> string \<Rightarrow> queue_states pm_result" where
  "apply_requeued_resume policy sequence parsed order_id =
     (if policy = StrictSequence \<and> first_actionable_order_id sequence parsed \<noteq> Some order_id
      then Inl (Err QueueActionNotAllowed)
      else if state_of parsed order_id \<noteq> Pending then Inl (Err QueueActionNotAllowed)
      else Inr (bt_insert order_id InProgress parsed))"

text \<open>The stored form of the states, and the guard on the state of the requested order.\<close>

definition parsed_queue_states :: "(string, string) btree_map \<Rightarrow> queue_states" where
  "parsed_queue_states states = parse_entries parse_state states"

definition serialized_queue_states :: "queue_states \<Rightarrow> (string, string) btree_map" where
  "serialized_queue_states parsed = print_entries state_as_str parsed"

definition validate_requested_queue_state ::
  "(string, string) btree_map \<Rightarrow> string \<Rightarrow> unit pm_result" where
  "validate_requested_queue_state states order_id =
     (case bt_get states (trim order_id) of
        None \<Rightarrow> Inr ()
      | Some raw_state \<Rightarrow>
          ok_or (map_option (\<lambda>_. ()) (parse_state raw_state)) QueueActionNotAllowed)"

definition queue_states_for_order ::
  "(string, (string, string) btree_map) btree_map \<Rightarrow> string
     \<Rightarrow> (string, (string, string) btree_map) btree_map" where
  "queue_states_for_order queue_states order_id =
     (let order_id = trim order_id in
      filter_map (\<lambda>(apparatus, states).
        map_option (\<lambda>state. (apparatus, [(order_id, state)])) (bt_get states order_id))
        queue_states)"

section \<open>The actions offered to the client\<close>

datatype order_control_state = CtlActive | CtlFreezeRequested | CtlFrozen

datatype queue_action_policy_profile =
    Live order_control_state bool bool  \<comment> \<open>order control, is rezka, merge ready\<close>
  | Training bool  \<comment> \<open>is rezka\<close>

record queue_action_policy_input =
  qi_state :: queue_order_state
  qi_profile :: queue_action_policy_profile
  requeued_session :: bool
  pending_actionable :: bool
  queue_actionable :: bool
  start_ready :: bool

fun is_training :: "queue_action_policy_profile \<Rightarrow> bool" where
  "is_training (Training _) = True"
| "is_training (Live _ _ _) = False"

text \<open>The candidates of a state, each with the runtime fact that enables it.\<close>

definition action_candidates ::
  "queue_action_policy_input \<Rightarrow> (queue_action \<times> bool) list" where
  "action_candidates inp =
     (case qi_state inp of
        Pending \<Rightarrow> [(Start, pending_actionable inp \<and> start_ready inp)]
      | PrintPreflight \<Rightarrow>
          (case qi_profile inp of
             Live order_control _ _ \<Rightarrow>
               if order_control = CtlFreezeRequested then [(Freeze, queue_actionable inp)]
               else [(Start, pending_actionable inp \<and> start_ready inp)]
           | Training _ \<Rightarrow> [])
      | InProgress \<Rightarrow>
          (case qi_profile inp of
             Live order_control is_rezka merge_ready \<Rightarrow>
               [(Pause, order_control = CtlActive \<or> order_control = CtlFreezeRequested),
                (Freeze, order_control = CtlActive),
                (Merge, order_control = CtlActive \<and> merge_ready),
                (RollComplete, order_control = CtlActive \<and> is_rezka),
                (Complete, order_control = CtlActive)]
           | Training is_rezka \<Rightarrow>
               [(Pause, True), (DetachRoll, True), (Complete, True), (RollComplete, is_rezka)])
      | Paused \<Rightarrow>
          (let resume_allowed =
             (case qi_profile inp of
                Live order_control _ _ \<Rightarrow> order_control = CtlActive
              | Training _ \<Rightarrow> True) in
           [(Resume, queue_actionable inp \<and> resume_allowed)])
      | Frozen \<Rightarrow> []
      | Completed \<Rightarrow> [])"

definition allowed_actions_for_control :: "queue_action_policy_input \<Rightarrow> queue_action list" where
  "allowed_actions_for_control inp =
     (if qi_state inp = PrintPreflight \<and> is_training (qi_profile inp) then []
      else if qi_state inp = Pending \<and> requeued_session inp
      then (if pending_actionable inp then [Resume] else [])
      else filter_map
        (\<lambda>(action, enabled).
           if enabled \<and> is_ok (next_queue_state (qi_state inp) action) then Some action else None)
        (action_candidates inp))"

end
