(* ===== verification/Route_Chain.thy ===== *)
theory Route_Chain
  imports Map_Compiler Queue_State
begin

text \<open>
  The route of an order through its map (\<^verbatim>\<open>chain/mod.rs\<close>, \<^verbatim>\<open>chain/adjacent.rs\<close>): the work
  stages reachable from the start, the physical stages before and after one, and the gate that
  opens a stage once the stage before it is done.

  The four breadth-first loops of the source share one shape: pop an identifier, skip it when it
  was visited or names no node, then perhaps report it, and perhaps push its neighbours.
  \<open>route_loop\<close> is that loop; what a loop reports and where it goes on are its arguments.
\<close>

section \<open>Stages\<close>

record chain_stage =
  stage_node_id :: string
  stage_apparatus_id :: "string option"
  station_title :: string

fun is_work_stage :: "production_map_node \<Rightarrow> bool \<Rightarrow> bool" where
  "is_work_stage node seen_apparatus =
     (case kind node of NkApparatus \<Rightarrow> True | NkTask \<Rightarrow> seen_apparatus | _ \<Rightarrow> False)"

definition is_station_node :: "production_map_node \<Rightarrow> bool" where
  "is_station_node node \<longleftrightarrow> kind node = NkApparatus \<or> kind node = NkTask"

definition task_stage_identity :: "string \<Rightarrow> string" where
  "task_stage_identity i = ''task:'' @ trim i"

definition station_identity :: "production_map_node \<Rightarrow> string" where
  "station_identity node =
     (if kind node = NkApparatus then
        let assigned = trim (alternative_assigned_apparatus_id node) in
        if trim (alternative_group_id node) = [] \<and> assigned \<noteq> [] then assigned
        else trim (apparatus_id node)
      else task_stage_identity (node_id node))"

definition canonical_apparatus_identity :: "production_map_node \<Rightarrow> string option" where
  "canonical_apparatus_identity node =
     (if kind node = NkApparatus \<and> is_valid (station_identity node)
      then Some (station_identity node) else None)"

definition station_matches :: "production_map_node \<Rightarrow> string \<Rightarrow> bool" where
  "station_matches node station \<longleftrightarrow>
     (let station = trim station in
      station \<noteq> [] \<and>
      (if kind node = NkApparatus then
         (case canonical_apparatus_identity node of
            None \<Rightarrow> False
          | Some i \<Rightarrow> is_valid station \<and> i = station)
       else station_identity node = station))"

definition is_unassigned_alternative_apparatus :: "production_map_node \<Rightarrow> bool" where
  "is_unassigned_alternative_apparatus node \<longleftrightarrow>
     kind node = NkApparatus \<and> trim (alternative_group_id node) \<noteq> []"

definition display_title :: "production_map_node \<Rightarrow> string" where
  "display_title node =
     (let assigned = trim (alternative_assigned_title node) in
      if kind node = NkApparatus \<and> trim (alternative_group_id node) = [] \<and> assigned \<noteq> []
      then assigned else trim (node_title node))"

definition group_candidates :: "production_map_definition \<Rightarrow> string \<Rightarrow> chain_stage list" where
  "group_candidates m group_id =
     map (\<lambda>c. \<lparr> stage_node_id = node_id c, stage_apparatus_id = Some (trim (apparatus_id c)),
                station_title = display_title c \<rparr>)
       (filter (\<lambda>c. kind c = NkApparatus \<and> trim (alternative_group_id c) = group_id
                    \<and> is_valid (trim (apparatus_id c))) (nodes m))"

definition stages_for_node ::
  "production_map_definition \<Rightarrow> production_map_node \<Rightarrow> chain_stage list" where
  "stages_for_node m node =
     (if kind node = NkApparatus \<and> canonical_apparatus_identity node = None then []
      else if \<not> is_unassigned_alternative_apparatus node then
        [\<lparr> stage_node_id = node_id node,
           stage_apparatus_id = canonical_apparatus_identity node,
           station_title = display_title node \<rparr>]
      else group_candidates m (trim (alternative_group_id node)))"

definition stage_identity :: "chain_stage \<Rightarrow> string" where
  "stage_identity s =
     (case stage_apparatus_id s of
        Some a \<Rightarrow> a
      | None \<Rightarrow> task_stage_identity (stage_node_id s))"

definition occurrence_identity :: "chain_stage \<Rightarrow> string" where
  "occurrence_identity s = trim (stage_node_id s)"

definition chain_stage_matches_station :: "chain_stage \<Rightarrow> string \<Rightarrow> bool" where
  "chain_stage_matches_station s station \<longleftrightarrow>
     (case stage_apparatus_id s of
        Some a \<Rightarrow> apparatus_ids_match a station
      | None \<Rightarrow> stage_identity s = trim station)"

section \<open>Matching identities\<close>

definition is_stable_task_stage_id :: "string \<Rightarrow> bool" where
  "is_stable_task_stage_id v \<longleftrightarrow>
     starts_with v ''task:'' \<and> drop 5 v \<noteq> [] \<and>
     list_all (\<lambda>c. is_ascii_lowercase c \<or> is_ascii_digit c \<or> c \<in> set ''-_:.'') (drop 5 v)"

definition stage_ids_match :: "string \<Rightarrow> string \<Rightarrow> bool" where
  "stage_ids_match left right \<longleftrightarrow>
     apparatus_ids_match left right
     \<or> (let left = trim left; right = trim right in
        is_stable_task_stage_id left \<and> is_stable_task_stage_id right \<and> left = right)"

definition node_of_apparatus ::
  "production_map_definition \<Rightarrow> string \<Rightarrow> production_map_node option" where
  "node_of_apparatus m a =
     find (\<lambda>n. trim (apparatus_id n) = a \<or> canonical_apparatus_identity n = Some a) (nodes m)"

definition stage_ids_match_for_map ::
  "production_map_definition \<Rightarrow> string \<Rightarrow> string \<Rightarrow> bool" where
  "stage_ids_match_for_map m left right \<longleftrightarrow>
     stage_ids_match left right
     \<or> (is_valid (trim left) \<and> is_valid (trim right) \<and>
        (case (node_of_apparatus m (trim left), node_of_apparatus m (trim right)) of
           (Some l, Some r) \<Rightarrow>
             trim (alternative_group_id l) \<noteq> []
             \<and> trim (alternative_group_id l) = trim (alternative_group_id r)
         | _ \<Rightarrow> False))"

definition node_trimmed :: "production_map_definition \<Rightarrow> string \<Rightarrow> production_map_node option" where
  "node_trimmed m i = find (\<lambda>n. trim (node_id n) = i) (nodes m)"

definition stage_node_ids_match_for_map ::
  "production_map_definition \<Rightarrow> string \<Rightarrow> string \<Rightarrow> bool" where
  "stage_node_ids_match_for_map m left right \<longleftrightarrow>
     (let left = trim left; right = trim right in
      left \<noteq> [] \<and> right \<noteq> [] \<and>
      (left = right \<or>
       (case node_trimmed m left of
          None \<Rightarrow> False
        | Some l \<Rightarrow>
            kind l = NkApparatus \<and> trim (alternative_group_id l) \<noteq> [] \<and>
            (case node_trimmed m right of
               None \<Rightarrow> False
             | Some r \<Rightarrow>
                 kind r = NkApparatus
                 \<and> trim (alternative_group_id l) = trim (alternative_group_id r)
                 \<and> canonical_apparatus_identity l \<noteq> None
                 \<and> canonical_apparatus_identity r \<noteq> None))))"

section \<open>Edges of the route\<close>

definition route_node_has_aliases :: "production_map_definition \<Rightarrow> string \<Rightarrow> bool" where
  "route_node_has_aliases m i \<longleftrightarrow>
     i \<noteq> [] \<and>
     (case node_trimmed m i of
        None \<Rightarrow> False
      | Some n \<Rightarrow> kind n = NkApparatus \<and> trim (alternative_group_id n) \<noteq> []
                 \<and> canonical_apparatus_identity n \<noteq> None)"

definition route_edge_allowed :: "production_map_node \<Rightarrow> production_map_edge \<Rightarrow> bool" where
  "route_edge_allowed node e \<longleftrightarrow>
     kind node \<noteq> NkCondition \<or> normalize_branch (branch e) \<in> {''true'', ''false''}"

definition route_matches :: "production_map_definition \<Rightarrow> string \<Rightarrow> string \<Rightarrow> bool" where
  "route_matches m normalized candidate \<longleftrightarrow>
     normalized \<noteq> [] \<and> trim candidate \<noteq> [] \<and>
     (trim candidate = normalized
      \<or> (route_node_has_aliases m normalized
         \<and> stage_node_ids_match_for_map m (trim candidate) normalized))"

definition node_exact :: "production_map_definition \<Rightarrow> string \<Rightarrow> production_map_node option" where
  "node_exact m i = find (\<lambda>n. node_id n = i) (nodes m)"

definition route_successors :: "production_map_definition \<Rightarrow> string \<Rightarrow> string list" where
  "route_successors m i =
     (case node_exact m i of
        None \<Rightarrow> []
      | Some node \<Rightarrow>
          map edge_to (filter (\<lambda>e. (edge_from e = i \<or> route_matches m (trim i) (edge_from e))
              \<and> \<not> route_matches m (trim i) (edge_to e) \<and> route_edge_allowed node e) (edges m)))"

definition route_predecessors :: "production_map_definition \<Rightarrow> string \<Rightarrow> string list" where
  "route_predecessors m i =
     map edge_from (filter (\<lambda>e. (edge_to e = i \<or> route_matches m (trim i) (edge_to e))
         \<and> \<not> route_matches m (trim i) (edge_from e)
         \<and> (case node_exact m (edge_from e) of
              None \<Rightarrow> False
            | Some node \<Rightarrow> route_edge_allowed node e)) (edges m))"

section \<open>Walking the route\<close>

function route_loop ::
  "string list \<Rightarrow> (string \<Rightarrow> string list) \<Rightarrow> (string \<Rightarrow> bool) \<Rightarrow> (string \<Rightarrow> bool)
   \<Rightarrow> string list \<Rightarrow> string list \<Rightarrow> string list" where
  "route_loop known neighbours report expand visited [] = []"
| "route_loop known neighbours report expand visited (i # queue) =
     (if i \<in> set visited then route_loop known neighbours report expand visited queue
      else if i \<notin> set known then route_loop known neighbours report expand (i # visited) queue
      else (if report i then [i] else [])
           @ route_loop known neighbours report expand (i # visited)
               (if expand i then queue @ neighbours i else queue))"
  by pat_completeness auto
termination
proof (relation "measures [\<lambda>(known, _, _, _, visited, _). card (set known - set visited),
                           \<lambda>(_, _, _, _, _, queue). length queue]", goal_cases)
  case (4 known neighbours report expand visited i queue)
  then have "set known - set (i # visited) \<subset> set known - set visited" by auto
  then have "card (set known - set (i # visited)) < card (set known - set visited)"
    by (intro psubset_card_mono) auto
  then show ?case by simp
qed auto

abbreviation map_node_ids :: "production_map_definition \<Rightarrow> string list" where
  "map_node_ids m \<equiv> map node_id (nodes m)"

definition reachable_node_ids :: "production_map_definition \<Rightarrow> string list" where
  "reachable_node_ids m =
     (case find (\<lambda>n. kind n = NkStart) (nodes m) of
        None \<Rightarrow> []
      | Some start \<Rightarrow>
          route_loop (map_node_ids m) (route_successors m) (\<lambda>_. True) (\<lambda>_. True) []
            [node_id start])"

fun push_stages :: "chain_stage list \<Rightarrow> chain_stage list \<Rightarrow> string list \<Rightarrow> chain_stage list \<times> string list" where
  "push_stages [] stages seen = (stages, seen)"
| "push_stages (s # ss) stages seen =
     (if occurrence_identity s \<in> set seen then push_stages ss stages seen
      else push_stages ss (stages @ [s]) (bs_insert (occurrence_identity s) seen))"

fun stages_loop ::
  "production_map_definition \<Rightarrow> string list \<Rightarrow> chain_stage list \<Rightarrow> string list \<Rightarrow> bool
   \<Rightarrow> chain_stage list" where
  "stages_loop m [] stages seen seen_apparatus = stages"
| "stages_loop m (i # rest) stages seen seen_apparatus =
     (case bt_get (node_by_id m) i of
        None \<Rightarrow> stages_loop m rest stages seen seen_apparatus
      | Some node \<Rightarrow>
          if is_work_stage node seen_apparatus then
            let found = stages_for_node m node;
                (stages, seen) = push_stages found stages seen in
            stages_loop m rest stages seen
              (seen_apparatus \<or> kind node = NkApparatus \<and> found \<noteq> [])
          else stages_loop m rest stages seen (seen_apparatus \<or> kind node = NkApparatus))"

definition linear_work_stages :: "production_map_definition \<Rightarrow> chain_stage list" where
  "linear_work_stages m = stages_loop m (reachable_node_ids m) [] [] False"

section \<open>Physical stages around a station\<close>

definition physical_stage_node_ids :: "chain_stage list \<Rightarrow> string list" where
  "physical_stage_node_ids stages =
     bs_collect (map stage_node_id (filter (\<lambda>s. stage_apparatus_id s \<noteq> None) stages))"

definition kind_at :: "production_map_definition \<Rightarrow> string \<Rightarrow> production_map_node_kind option" where
  "kind_at m i = map_option kind (node_exact m i)"

text \<open>
  The body of \<^verbatim>\<open>collect_previous_stage_ids\<close> and \<^verbatim>\<open>collect_next_stage_ids\<close>: the walk does not
  go beyond a node of the terminal kind or a physical stage, and each physical stage it meets is
  pushed unless its identity, in lower case, was seen before.
\<close>

definition physical_at :: "production_map_definition \<Rightarrow> string list \<Rightarrow> string \<Rightarrow> bool" where
  "physical_at m physical i \<longleftrightarrow> kind_at m i = Some NkApparatus \<and> i \<in> set physical"

fun push_identities ::
  "production_map_definition \<Rightarrow> string list \<Rightarrow> string list \<times> string list
   \<Rightarrow> string list \<times> string list" where
  "push_identities m [] (found, seen) = (found, seen)"
| "push_identities m (i # is) (found, seen) =
     (case Option.bind (node_exact m i) canonical_apparatus_identity of
        None \<Rightarrow> push_identities m is (found, seen)
      | Some identity \<Rightarrow>
          if identity \<noteq> [] \<and> to_ascii_lowercase identity \<notin> set seen
          then push_identities m is (found @ [identity], bs_insert (to_ascii_lowercase identity) seen)
          else push_identities m is (found, seen))"

definition collect_stage_ids ::
  "production_map_definition \<Rightarrow> production_map_node_kind \<Rightarrow> (string \<Rightarrow> string list) \<Rightarrow> string list
   \<Rightarrow> string \<Rightarrow> string list \<times> string list \<Rightarrow> string list \<times> string list" where
  "collect_stage_ids m terminal neighbours physical start acc =
     push_identities m
       (route_loop (map_node_ids m) neighbours
          (\<lambda>i. kind_at m i \<noteq> Some terminal \<and> physical_at m physical i)
          (\<lambda>i. kind_at m i \<noteq> Some terminal \<and> \<not> physical_at m physical i)
          [] (neighbours start)) acc"

definition collect_previous_stage_ids ::
  "production_map_definition \<Rightarrow> string list \<Rightarrow> string \<Rightarrow> string list \<times> string list
   \<Rightarrow> string list \<times> string list" where
  "collect_previous_stage_ids m physical start acc =
     collect_stage_ids m NkStart (route_predecessors m) physical start acc"

definition collect_next_stage_ids ::
  "production_map_definition \<Rightarrow> string list \<Rightarrow> string \<Rightarrow> string list \<times> string list
   \<Rightarrow> string list \<times> string list" where
  "collect_next_stage_ids m physical start acc =
     collect_stage_ids m NkEnd (route_successors m) physical start acc"

definition station_nodes :: "production_map_definition \<Rightarrow> string \<Rightarrow> string list" where
  "station_nodes m station =
     map node_id (filter (\<lambda>n. is_station_node n \<and> station_matches n station) (nodes m))"

definition previous_work_stage_stations_with_stages ::
  "production_map_definition \<Rightarrow> string \<Rightarrow> chain_stage list \<Rightarrow> string list" where
  "previous_work_stage_stations_with_stages m station stages =
     fst (fold (collect_previous_stage_ids m (physical_stage_node_ids stages))
            (station_nodes m station) ([], []))"

definition previous_work_stage_stations :: "production_map_definition \<Rightarrow> string \<Rightarrow> string list" where
  "previous_work_stage_stations m station =
     previous_work_stage_stations_with_stages m station (linear_work_stages m)"

definition next_work_stage_stations_with_stages ::
  "production_map_definition \<Rightarrow> string \<Rightarrow> chain_stage list \<Rightarrow> string list" where
  "next_work_stage_stations_with_stages m station stages =
     fst (fold (collect_next_stage_ids m (physical_stage_node_ids stages))
            (station_nodes m station) ([], []))"

definition next_work_stage_stations :: "production_map_definition \<Rightarrow> string \<Rightarrow> string list" where
  "next_work_stage_stations m station =
     next_work_stage_stations_with_stages m station (linear_work_stages m)"

definition previous_work_stage_station :: "production_map_definition \<Rightarrow> string \<Rightarrow> string option" where
  "previous_work_stage_station m station = head_option (previous_work_stage_stations m station)"

definition next_work_stage_station :: "production_map_definition \<Rightarrow> string \<Rightarrow> string option" where
  "next_work_stage_station m station = head_option (next_work_stage_stations m station)"

definition previous_stage_resolution_is_unavailable_with_stages ::
  "production_map_definition \<Rightarrow> string \<Rightarrow> chain_stage list \<Rightarrow> bool" where
  "previous_stage_resolution_is_unavailable_with_stages m station stages =
     (let physical_stages = filter (\<lambda>s. stage_apparatus_id s \<noteq> None) stages;
          physical = bs_collect (map stage_node_id physical_stages) in
      if list_ex (\<lambda>n. kind n = NkApparatus \<and> trim (alternative_group_id n) = []
             \<and> canonical_apparatus_identity n \<noteq> None \<and> node_id n \<notin> set physical) (nodes m)
      then True
      else
        (case find_index (\<lambda>s. stage_identity s = trim station) physical_stages of
           None \<Rightarrow> physical_stages \<noteq> []
         | Some index \<Rightarrow> 0 < index \<and> previous_work_stage_station m station = None))"

definition previous_stage_resolution_is_unavailable ::
  "production_map_definition \<Rightarrow> string \<Rightarrow> bool" where
  "previous_stage_resolution_is_unavailable m station =
     previous_stage_resolution_is_unavailable_with_stages m station (linear_work_stages m)"

definition work_stage_for_station_with_stages ::
  "production_map_definition \<Rightarrow> string \<Rightarrow> string \<Rightarrow> chain_stage list \<Rightarrow> chain_stage option" where
  "work_stage_for_station_with_stages m station preferred stages =
     (let preferred = trim preferred in
      if preferred \<noteq> [] then
        find (\<lambda>s. stage_node_ids_match_for_map m (stage_node_id s) preferred
                  \<and> chain_stage_matches_station s station) stages
      else find (\<lambda>s. chain_stage_matches_station s station) stages)"

definition work_stage_for_station ::
  "production_map_definition \<Rightarrow> string \<Rightarrow> string \<Rightarrow> chain_stage option" where
  "work_stage_for_station m station preferred =
     work_stage_for_station_with_stages m station preferred (linear_work_stages m)"

section \<open>Physical stages around an occurrence\<close>

definition physical_by_node :: "chain_stage list \<Rightarrow> (string, chain_stage) btree_map" where
  "physical_by_node stages =
     bt_collect (map (\<lambda>s. (stage_node_id s, s))
       (filter (\<lambda>s. stage_apparatus_id s \<noteq> None) stages))"

definition is_terminal_at :: "production_map_definition \<Rightarrow> string \<Rightarrow> bool" where
  "is_terminal_at m i \<longleftrightarrow> kind_at m i \<in> {Some NkStart, Some NkEnd}"

definition route_neighbours :: "production_map_definition \<Rightarrow> bool \<Rightarrow> string \<Rightarrow> string list" where
  "route_neighbours m previous = (if previous then route_predecessors m else route_successors m)"

definition adjacent_physical_stages_for_node_with_stages ::
  "production_map_definition \<Rightarrow> string \<Rightarrow> bool \<Rightarrow> chain_stage list \<Rightarrow> chain_stage list" where
  "adjacent_physical_stages_for_node_with_stages m i previous stages =
     (if \<not> list_ex (\<lambda>s. trim (stage_node_id s) = trim i) stages then []
      else
        let physical = physical_by_node stages;
            neighbours = route_neighbours m previous in
        filter_map (bt_get physical)
          (route_loop (map_node_ids m) neighbours
             (\<lambda>j. \<not> is_terminal_at m j \<and> bt_get physical j \<noteq> None)
             (\<lambda>j. \<not> is_terminal_at m j \<and> bt_get physical j = None)
             [] (neighbours (trim i))))"

definition adjacent_physical_stages_for_node ::
  "production_map_definition \<Rightarrow> string \<Rightarrow> bool \<Rightarrow> chain_stage list" where
  "adjacent_physical_stages_for_node m i previous =
     adjacent_physical_stages_for_node_with_stages m i previous (linear_work_stages m)"

definition previous_work_stages_for_node :: "production_map_definition \<Rightarrow> string \<Rightarrow> chain_stage list" where
  "previous_work_stages_for_node m i = adjacent_physical_stages_for_node m i True"

definition previous_work_stage_for_node :: "production_map_definition \<Rightarrow> string \<Rightarrow> chain_stage option" where
  "previous_work_stage_for_node m i = head_option (adjacent_physical_stages_for_node m i True)"

definition next_work_stages_for_node :: "production_map_definition \<Rightarrow> string \<Rightarrow> chain_stage list" where
  "next_work_stages_for_node m i = adjacent_physical_stages_for_node m i False"

definition next_work_stage_for_node :: "production_map_definition \<Rightarrow> string \<Rightarrow> chain_stage option" where
  "next_work_stage_for_node m i = head_option (next_work_stages_for_node m i)"

definition is_final_work_stage_node :: "production_map_definition \<Rightarrow> string \<Rightarrow> bool" where
  "is_final_work_stage_node m i \<longleftrightarrow>
     list_ex (\<lambda>s. trim (stage_node_id s) = trim i \<and> stage_apparatus_id s \<noteq> None)
       (linear_work_stages m)
     \<and> next_work_stage_for_node m i = None"

fun push_new :: "string list \<Rightarrow> string list \<Rightarrow> string list \<Rightarrow> string list" where
  "push_new [] result seen = result"
| "push_new (x # xs) result seen =
     (if x \<in> set seen then push_new xs result seen else push_new xs (result @ [x]) (x # seen))"

definition physical_work_stage_ids :: "production_map_definition \<Rightarrow> string list option" where
  "physical_work_stage_ids m =
     (let reachable = reachable_node_ids m in
      if reachable = [] then
        let identities =
          map canonical_apparatus_identity (filter (\<lambda>n. kind n = NkApparatus) (nodes m)) in
        if None \<in> set identities then None
        else Some (push_new (filter_map (\<lambda>x. x) identities) [] [])
      else if list_ex (\<lambda>i. case bt_get (node_by_id m) i of
                None \<Rightarrow> False
              | Some n \<Rightarrow> kind n = NkApparatus \<and> canonical_apparatus_identity n = None) reachable
      then None
      else Some (push_new (filter_map stage_apparatus_id (linear_work_stages m)) [] []))"

section \<open>Readiness\<close>

type_synonym all_queue_states = "(string, (string, string) btree_map) btree_map"

definition queue_state_for_station ::
  "string \<Rightarrow> string \<Rightarrow> all_queue_states \<Rightarrow> queue_order_state" where
  "queue_state_for_station station order all_states =
     (case Option.bind (bt_get all_states (trim station))
             (\<lambda>states. Option.bind (bt_get states (trim order)) parse_state) of
        Some s \<Rightarrow> s
      | None \<Rightarrow> Pending)"

definition order_ready_for_station ::
  "production_map_definition \<Rightarrow> string \<Rightarrow> string \<Rightarrow> all_queue_states \<Rightarrow> bool" where
  "order_ready_for_station m order station all_states =
     (case previous_work_stage_station m station of
        None \<Rightarrow> True
      | Some previous \<Rightarrow> queue_state_for_station previous order all_states = Completed)"

definition order_ready_for_stage_node ::
  "production_map_definition \<Rightarrow> string \<Rightarrow> string \<Rightarrow> all_queue_states \<Rightarrow> bool" where
  "order_ready_for_stage_node m order i all_states =
     (case previous_work_stage_for_node m i of
        None \<Rightarrow> True
      | Some previous \<Rightarrow>
          (case stage_apparatus_id previous of
             None \<Rightarrow> True
           | Some a \<Rightarrow> queue_state_for_station a order all_states = Completed))"

definition map_has_work_stage_for_station :: "production_map_definition \<Rightarrow> string \<Rightarrow> bool" where
  "map_has_work_stage_for_station m station =
     list_ex (\<lambda>s. stage_identity s = trim station) (linear_work_stages m)"

definition is_final_work_stage_station :: "production_map_definition \<Rightarrow> string \<Rightarrow> bool" where
  "is_final_work_stage_station m station \<longleftrightarrow>
     map_has_work_stage_for_station m station
     \<and> list_ex (\<lambda>s. stage_apparatus_id s \<noteq> None \<and> stage_identity s = trim station)
         (linear_work_stages m)
     \<and> next_work_stage_station m station = None"

end
