(* ===== verification/Route_Projection.thy ===== *)
theory Route_Projection
  imports Route_Chain
begin

text \<open>
  The read projection of one map (\<^verbatim>\<open>chain/projection.rs\<close>): the work stages are computed once, and
  the stages next to a node are memoised under its trimmed identifier when the map has that node.
  Each method takes the projection and returns its answer with the projection as the call leaves
  it.  The fingerprint and the memo of input routes are not part of the model.
\<close>

section \<open>The projection\<close>

type_synonym adjacent_memo = "((string \<times> bool) \<times> chain_stage list) list"

record projection_map =
  projected :: production_map_definition
  is_cached :: bool
  stages_cell :: "chain_stage list option"
  adjacent_cell :: adjacent_memo

definition projection_new :: "production_map_definition \<Rightarrow> projection_map" where
  "projection_new m =
     \<lparr> projected = m, is_cached = True, stages_cell = None, adjacent_cell = [] \<rparr>"

definition projection_reference :: "production_map_definition \<Rightarrow> projection_map" where
  "projection_reference m = (projection_new m) \<lparr> is_cached := False \<rparr>"

definition projection_stages :: "projection_map \<Rightarrow> chain_stage list \<times> projection_map" where
  "projection_stages p =
     (if \<not> is_cached p then (linear_work_stages (projected p), p)
      else
        (case stages_cell p of
           Some v \<Rightarrow> (v, p)
         | None \<Rightarrow>
             let v = linear_work_stages (projected p) in (v, p \<lparr> stages_cell := Some v \<rparr>)))"

definition projection_work_stage ::
  "projection_map \<Rightarrow> string \<Rightarrow> string \<Rightarrow> chain_stage option \<times> projection_map" where
  "projection_work_stage p station node =
     (let (v, p) = projection_stages p in
      (work_stage_for_station_with_stages (projected p) station node v, p))"

definition adjacent_stages ::
  "projection_map \<Rightarrow> string \<Rightarrow> bool \<Rightarrow> chain_stage list \<times> projection_map" where
  "adjacent_stages p node previous =
     (let key = (trim node, previous) in
      case (if is_cached p then map_of (adjacent_cell p) key else None) of
        Some v \<Rightarrow> (v, p)
      | None \<Rightarrow>
          let (stages, p) = projection_stages p;
              v = adjacent_physical_stages_for_node_with_stages (projected p) node previous stages in
          if is_cached p \<and> list_ex (\<lambda>n. trim (node_id n) = trim node) (nodes (projected p))
          then (v, p \<lparr> adjacent_cell := (key, v) # adjacent_cell p \<rparr>)
          else (v, p))"

definition previous_stages :: "projection_map \<Rightarrow> string \<Rightarrow> chain_stage list \<times> projection_map" where
  "previous_stages p node = adjacent_stages p node True"

definition next_stages :: "projection_map \<Rightarrow> string \<Rightarrow> chain_stage list \<times> projection_map" where
  "next_stages p node = adjacent_stages p node False"

definition previous_stations :: "projection_map \<Rightarrow> string \<Rightarrow> string list \<times> projection_map" where
  "previous_stations p station =
     (let (v, p) = projection_stages p in
      (previous_work_stage_stations_with_stages (projected p) station v, p))"

definition previous_unavailable :: "projection_map \<Rightarrow> string \<Rightarrow> bool \<times> projection_map" where
  "previous_unavailable p station =
     (let (v, p) = projection_stages p in
      (previous_stage_resolution_is_unavailable_with_stages (projected p) station v, p))"

definition ready_for_stage ::
  "projection_map \<Rightarrow> string \<Rightarrow> string \<Rightarrow> all_queue_states \<Rightarrow> bool \<times> projection_map" where
  "ready_for_stage p order node states =
     (let (stages, p) = previous_stages p node in
      ((case Option.bind (head_option stages) stage_apparatus_id of
          None \<Rightarrow> True
        | Some i \<Rightarrow> queue_state_for_station i order states = Completed), p))"

section \<open>The laws of the memo\<close>

text \<open>
  What the memo relies on: the answer depends on the key alone.  A table every entry of which is
  an answer stays one, and looking a query up in it is the same as computing it.
\<close>

locale memo =
  fixes key :: "'q \<Rightarrow> 'k" and compute :: "'q \<Rightarrow> 'v"
  assumes by_key: "key q = key q' \<Longrightarrow> compute q = compute q'"
begin

lemma lookup_is_answer:
  "(\<And>k v q. (k, v) \<in> set table \<Longrightarrow> key q = k \<Longrightarrow> v = compute q) \<Longrightarrow> map_of table (key q) = Some v
     \<Longrightarrow> v = compute q"
  by (drule map_of_SomeD) simp

lemma store_keeps_answers:
  "(\<And>k v q. (k, v) \<in> set table \<Longrightarrow> key q = k \<Longrightarrow> v = compute q)
     \<Longrightarrow> (k, v) \<in> set ((key q, compute q) # table) \<Longrightarrow> key q' = k \<Longrightarrow> v = compute q'"
  by (auto intro: by_key)

end

interpretation adjacent: memo "\<lambda>(node, previous). (trim node, previous)"
  "\<lambda>(node, previous). adjacent_physical_stages_for_node m node previous" for m
  by unfold_locales
    (auto simp: adjacent_physical_stages_for_node_def adjacent_physical_stages_for_node_with_stages_def)

text \<open>What a projection holds was computed from its map.\<close>

definition projection_ok :: "projection_map \<Rightarrow> bool" where
  "projection_ok p \<longleftrightarrow>
     stages_cell p \<in> {None, Some (linear_work_stages (projected p))} \<and>
     (\<forall>k v node previous. (k, v) \<in> set (adjacent_cell p) \<longrightarrow> (trim node, previous) = k \<longrightarrow>
        v = adjacent_physical_stages_for_node (projected p) node previous)"

definition serves :: "production_map_definition \<Rightarrow> bool \<Rightarrow> 'a \<Rightarrow> 'a \<times> projection_map \<Rightarrow> bool" where
  "serves m cached v r \<longleftrightarrow>
     fst r = v \<and> projection_ok (snd r) \<and> projected (snd r) = m \<and> is_cached (snd r) = cached"

lemma serves_new: "projection_ok (projection_new m)" "projection_ok (projection_reference m)"
  by (simp_all add: projection_ok_def projection_new_def projection_reference_def)

lemma serves_stages:
  assumes "projection_ok p"
  shows "serves (projected p) (is_cached p) (linear_work_stages (projected p)) (projection_stages p)"
proof (cases "is_cached p")
  case False
  then show ?thesis using assms by (simp add: serves_def projection_stages_def)
next
  case True
  show ?thesis
  proof (cases "stages_cell p")
    case None
    have "projection_ok (p \<lparr> stages_cell := Some (linear_work_stages (projected p)) \<rparr>)"
      using assms by (simp add: projection_ok_def)
    then show ?thesis using True None by (simp add: serves_def projection_stages_def Let_def)
  next
    case (Some v)
    then have "v = linear_work_stages (projected p)" using assms by (simp add: projection_ok_def)
    then show ?thesis using assms True Some by (simp add: serves_def projection_stages_def)
  qed
qed

lemma adjacent_by_key:
  "trim i = trim j \<Longrightarrow> adjacent_physical_stages_for_node m i previous =
     adjacent_physical_stages_for_node m j previous"
  using adjacent.by_key [of "(i, previous)" "(j, previous)" m] by simp

lemma projection_ok_store:
  assumes "projection_ok p"
  shows "projection_ok (p \<lparr> adjacent_cell := ((trim node, previous),
    adjacent_physical_stages_for_node (projected p) node previous) # adjacent_cell p \<rparr>)"
  using assms by (auto simp: projection_ok_def intro: adjacent_by_key)

lemma serves_adjacent:
  assumes "projection_ok p"
  shows "serves (projected p) (is_cached p)
    (adjacent_physical_stages_for_node (projected p) node previous) (adjacent_stages p node previous)"
proof (cases "if is_cached p then map_of (adjacent_cell p) (trim node, previous) else None")
  case (Some v)
  then have "map_of (adjacent_cell p) (trim node, previous) = Some v" by (simp split: if_splits)
  then have "v = adjacent_physical_stages_for_node (projected p) node previous"
    using adjacent.lookup_is_answer [of "adjacent_cell p" "projected p" "(node, previous)" v] assms
    by (auto simp: projection_ok_def)
  then show ?thesis using assms Some by (simp add: serves_def adjacent_stages_def Let_def)
next
  case None
  obtain stages p' where p': "projection_stages p = (stages, p')" by force
  then have same: "stages = linear_work_stages (projected p)" "projection_ok p'"
    "projected p' = projected p" "is_cached p' = is_cached p"
    using serves_stages [OF assms] by (simp_all add: serves_def)
  then have "adjacent_physical_stages_for_node_with_stages (projected p') node previous stages =
      adjacent_physical_stages_for_node (projected p') node previous"
    by (simp add: adjacent_physical_stages_for_node_def)
  then show ?thesis
    using None p' same projection_ok_store [OF same(2), of node previous]
    by (simp add: serves_def adjacent_stages_def Let_def)
qed

section \<open>Queries\<close>

datatype projection_query =
  AskStages
  | AskWorkStage string string
  | AskPrevious string
  | AskNext string
  | AskPreviousStations string
  | AskUnavailable string
  | AskReady string string all_queue_states

datatype projection_answer =
  Stages "chain_stage list" | Stage "chain_stage option" | Stations "string list" | Flag bool

definition answered :: "('a \<Rightarrow> projection_answer) \<Rightarrow> 'a \<times> projection_map \<Rightarrow> projection_answer \<times> projection_map"
where
  "answered f = map_prod f (\<lambda>p. p)"

fun ask :: "projection_map \<Rightarrow> projection_query \<Rightarrow> projection_answer \<times> projection_map" where
  "ask p AskStages = answered Stages (projection_stages p)"
| "ask p (AskWorkStage station node) = answered Stage (projection_work_stage p station node)"
| "ask p (AskPrevious node) = answered Stages (previous_stages p node)"
| "ask p (AskNext node) = answered Stages (next_stages p node)"
| "ask p (AskPreviousStations station) = answered Stations (previous_stations p station)"
| "ask p (AskUnavailable station) = answered Flag (previous_unavailable p station)"
| "ask p (AskReady order node states) = answered Flag (ready_for_stage p order node states)"

fun ask_all :: "projection_map \<Rightarrow> projection_query list \<Rightarrow> projection_answer list" where
  "ask_all p [] = []"
| "ask_all p (q # qs) = (let (a, p) = ask p q in a # ask_all p qs)"

text \<open>The answer of the uncached functions of \<^verbatim>\<open>chain/mod.rs\<close>.\<close>

fun direct :: "production_map_definition \<Rightarrow> projection_query \<Rightarrow> projection_answer" where
  "direct m AskStages = Stages (linear_work_stages m)"
| "direct m (AskWorkStage station node) = Stage (work_stage_for_station m station node)"
| "direct m (AskPrevious node) = Stages (previous_work_stages_for_node m node)"
| "direct m (AskNext node) = Stages (next_work_stages_for_node m node)"
| "direct m (AskPreviousStations station) = Stations (previous_work_stage_stations m station)"
| "direct m (AskUnavailable station) = Flag (previous_stage_resolution_is_unavailable m station)"
| "direct m (AskReady order node states) = Flag (order_ready_for_stage_node m order node states)"

lemma serves_use:
  "serves m c v r \<Longrightarrow> r = (w, p) \<Longrightarrow> w = v \<and> projection_ok p \<and> projected p = m \<and> is_cached p = c"
  by (simp add: serves_def)

lemma serves_answered: "serves m c v r \<Longrightarrow> serves m c (f v) (answered f r)"
  by (simp add: serves_def answered_def)

lemma serves_then:
  "serves m c v r \<Longrightarrow> (\<And>p. projected p = m \<Longrightarrow> f p v = w)
     \<Longrightarrow> serves m c w (let (v, p) = r in (f p v, p))"
  by (cases r) (simp add: serves_def)

lemma ask_serves:
  assumes "projection_ok p"
  shows "serves (projected p) (is_cached p) (direct (projected p) q) (ask p q)"
proof (cases q)
  case AskStages
  then show ?thesis using serves_answered [OF serves_stages [OF assms]] by simp
next
  case (AskWorkStage station node)
  have "serves (projected p) (is_cached p) (work_stage_for_station (projected p) station node)
      (projection_work_stage p station node)"
    unfolding projection_work_stage_def
    by (rule serves_then [OF serves_stages [OF assms]]) (simp add: work_stage_for_station_def)
  then show ?thesis using AskWorkStage serves_answered by fastforce
next
  case (AskPrevious node)
  then show ?thesis
    using serves_answered [OF serves_adjacent [OF assms, of node True]]
    by (simp add: previous_stages_def previous_work_stages_for_node_def)
next
  case (AskNext node)
  then show ?thesis
    using serves_answered [OF serves_adjacent [OF assms, of node False]]
    by (simp add: next_stages_def next_work_stages_for_node_def)
next
  case (AskPreviousStations station)
  have "serves (projected p) (is_cached p) (previous_work_stage_stations (projected p) station)
      (previous_stations p station)"
    unfolding previous_stations_def
    by (rule serves_then [OF serves_stages [OF assms]]) (simp add: previous_work_stage_stations_def)
  then show ?thesis using AskPreviousStations serves_answered by fastforce
next
  case (AskUnavailable station)
  have "serves (projected p) (is_cached p)
      (previous_stage_resolution_is_unavailable (projected p) station) (previous_unavailable p station)"
    unfolding previous_unavailable_def
    by (rule serves_then [OF serves_stages [OF assms]])
      (simp add: previous_stage_resolution_is_unavailable_def)
  then show ?thesis using AskUnavailable serves_answered by fastforce
next
  case (AskReady order node states)
  have "serves (projected p) (is_cached p) (order_ready_for_stage_node (projected p) order node states)
      (ready_for_stage p order node states)"
    unfolding ready_for_stage_def previous_stages_def
    by (rule serves_then [OF serves_adjacent [OF assms]])
      (simp add: order_ready_for_stage_node_def previous_work_stage_for_node_def split: option.split)
  then show ?thesis using AskReady serves_answered by fastforce
qed

lemma ask_all_direct: "projection_ok p \<Longrightarrow> ask_all p qs = map (direct (projected p)) qs"
proof (induction qs arbitrary: p)
  case Nil
  then show ?case by simp
next
  case (Cons q qs)
  obtain a p' where q: "ask p q = (a, p')" by force
  have "a = direct (projected p) q \<and> projection_ok p' \<and> projected p' = projected p"
    using serves_use [OF ask_serves [OF Cons.prems] q] by blast
  then show ?case using q Cons.IH by simp
qed

section \<open>Properties\<close>

text \<open>C24: Caching is transparent.  Whatever is asked of a projection and in whatever order, the cached
  projection, the reference projection and the uncached functions give the same answers.\<close>

theorem projection_cache_transparent:
  "ask_all (projection_new m) qs = map (direct m) qs \<and>
   ask_all (projection_reference m) qs = ask_all (projection_new m) qs"
proof -
  have "projected (projection_new m) = m" "projected (projection_reference m) = m"
    by (simp_all add: projection_new_def projection_reference_def)
  then show ?thesis using ask_all_direct serves_new by metis
qed

end
