(* ===== verification/Queue_Orders.thy ===== *)
theory Queue_Orders
  imports Route_Projection Apparatus_Projection
begin

text \<open>
  Which orders stand in the queue of an apparatus (\<^verbatim>\<open>queue/apparatus.rs\<close>): those whose route has a
  work stage on it, without templates; on a printing apparatus only those whose alternatives are
  settled on it.  The orders of all apparatus at once, from maps or from their cached projections.
\<close>

section \<open>Orders of an apparatus\<close>

definition is_template_map :: "production_map_definition \<Rightarrow> bool" where
  "is_template_map m \<longleftrightarrow> starts_with (trim (map_id m)) ''template-''"

definition is_visible_queue_order :: "production_map_definition \<Rightarrow> bool" where
  "is_visible_queue_order m \<longleftrightarrow>
     (let order_id = trim (map_id m) in
      if order_id = [] \<or> is_template_map m then False
      else trim (map_code m) \<noteq> [] \<or> trim (order_number m) \<noteq> [] \<or> starts_with order_id ''zakaz-'')"

definition visible_order_ids_for_apparatus :: "production_map_definition list \<Rightarrow> string \<Rightarrow> string list" where
  "visible_order_ids_for_apparatus maps apparatus =
     (let apparatus = trim apparatus in
      if \<not> is_valid apparatus then []
      else filter (\<lambda>i. i \<noteq> []) (map (\<lambda>m. trim (map_id m))
        (filter (\<lambda>m. \<not> is_template_map m \<and> map_has_work_stage_for_station m apparatus) maps)))"

text \<open>\<^verbatim>\<open>entry(apparatus_id).or_default().push(order_id)\<close>, once for each apparatus of the order's stages.\<close>

fun push_order ::
  "string \<Rightarrow> chain_stage list \<Rightarrow> string set \<Rightarrow> (string, string list) btree_map \<Rightarrow> (string, string list) btree_map" where
  "push_order order_id [] seen visible = visible"
| "push_order order_id (s # ss) seen visible =
     (case stage_apparatus_id s of
        None \<Rightarrow> push_order order_id ss seen visible
      | Some a \<Rightarrow>
          let a = trim a in
          if \<not> is_valid a \<or> a \<in> seen then push_order order_id ss seen visible
          else push_order order_id ss (insert a seen)
            (bt_insert a ((case bt_get visible a of None \<Rightarrow> [] | Some ids \<Rightarrow> ids) @ [order_id]) visible))"

definition order_ids_by_apparatus ::
  "(production_map_definition \<Rightarrow> bool) \<Rightarrow> production_map_definition list \<Rightarrow> (string, string list) btree_map" where
  "order_ids_by_apparatus include maps =
     fold (\<lambda>m visible.
       let order_id = trim (map_id m) in
       if order_id = [] \<or> \<not> include m then visible
       else push_order order_id (linear_work_stages m) {} visible) maps []"

definition visible_order_ids_by_apparatus :: "production_map_definition list \<Rightarrow> (string, string list) btree_map" where
  "visible_order_ids_by_apparatus maps = order_ids_by_apparatus is_visible_queue_order maps"

definition queue_order_ids_by_apparatus :: "production_map_definition list \<Rightarrow> (string, string list) btree_map" where
  "queue_order_ids_by_apparatus maps = order_ids_by_apparatus (\<lambda>m. \<not> is_template_map m) maps"

text \<open>The same from projections, whose cells the reading of the stages may fill.\<close>

fun order_ids_by_projection ::
  "(production_map_definition \<Rightarrow> bool) \<Rightarrow> projection_map list \<Rightarrow> (string, string list) btree_map
   \<Rightarrow> (string, string list) btree_map \<times> projection_map list" where
  "order_ids_by_projection include [] visible = (visible, [])"
| "order_ids_by_projection include (p # ps) visible =
     (let order_id = trim (map_id (projected p)) in
      if order_id = [] \<or> \<not> include (projected p)
      then (case order_ids_by_projection include ps visible of (v, ps) \<Rightarrow> (v, p # ps))
      else
        (case projection_stages p of (stages, p) \<Rightarrow>
         case order_ids_by_projection include ps (push_order order_id stages {} visible) of (v, ps) \<Rightarrow> (v, p # ps)))"

definition visible_order_ids_by_projection ::
  "projection_map list \<Rightarrow> (string, string list) btree_map \<times> projection_map list" where
  "visible_order_ids_by_projection ps = order_ids_by_projection is_visible_queue_order ps []"

definition queue_order_ids_by_projection ::
  "projection_map list \<Rightarrow> (string, string list) btree_map \<times> projection_map list" where
  "queue_order_ids_by_projection ps = order_ids_by_projection (\<lambda>m. \<not> is_template_map m) ps []"

section \<open>The choice among printing alternatives\<close>

definition is_print_apparatus :: "runtime_apparatus_configuration \<Rightarrow> bool" where
  "is_print_apparatus c \<longleftrightarrow> operation (runtime_execution_profile (runtime_row c)) = OpPrint"

definition alternative_candidates :: "production_map_definition \<Rightarrow> string \<Rightarrow> production_map_node list" where
  "alternative_candidates m grp =
     filter (\<lambda>c. kind c = NkApparatus \<and> trim (alternative_group_id c) = grp) (nodes m)"

definition print_assignment_allows_order ::
  "production_map_definition \<Rightarrow> runtime_apparatus_configuration \<Rightarrow> bool" where
  "print_assignment_allows_order m c \<longleftrightarrow>
     (if \<not> is_print_apparatus c then True
      else
        let apparatus = source_apparatus_id (runtime_row c) in
        list_ex (\<lambda>node.
          if kind node \<noteq> NkApparatus \<or> trim (apparatus_id node) \<noteq> apparatus then False
          else
            let grp = trim (alternative_group_id node) in
            if grp = [] then True
            else
              let candidates = alternative_candidates m grp in
              length candidates = 1 \<and> trim (alternative_assigned_apparatus_id node) = []
              \<or> list_all (\<lambda>k. trim (alternative_assigned_apparatus_id k) = apparatus) candidates) (nodes m))"

text \<open>Maps are looked up by their trimmed id; a later map replaces an earlier one.\<close>

definition map_by_id :: "production_map_definition list \<Rightarrow> (string, production_map_definition) btree_map" where
  "map_by_id maps = bt_collect (map (\<lambda>m. (trim (map_id m), m)) maps)"

definition allowed_by_print ::
  "production_map_definition list \<Rightarrow> runtime_apparatus_configuration \<Rightarrow> string \<Rightarrow> bool" where
  "allowed_by_print maps c i \<longleftrightarrow>
     (case bt_get (map_by_id maps) (trim i) of None \<Rightarrow> False | Some m \<Rightarrow> print_assignment_allows_order m c)"

definition retain_selected_print_orders ::
  "production_map_definition list \<Rightarrow> runtime_apparatus_configuration \<Rightarrow> string list \<Rightarrow> string list" where
  "retain_selected_print_orders maps c orders =
     (if \<not> is_print_apparatus c then orders else filter (allowed_by_print maps c) orders)"

definition selected_order_ids_for_apparatus ::
  "production_map_definition list \<Rightarrow> runtime_apparatus_configuration \<Rightarrow> string list" where
  "selected_order_ids_for_apparatus maps c =
     retain_selected_print_orders maps c
       (visible_order_ids_for_apparatus maps (source_apparatus_id (runtime_row c)))"

fun projected_orders ::
  "string \<Rightarrow> projection_map list \<Rightarrow> string list \<times> projection_map list" where
  "projected_orders i [] = ([], [])"
| "projected_orders i (p # ps) =
     (let (here, p) =
        (if is_template_map (projected p) then (False, p)
         else case projection_stages p of (stages, p) \<Rightarrow> (list_ex (\<lambda>s. stage_apparatus_id s = Some i) stages, p));
          (orders, ps) = projected_orders i ps;
          order_id = trim (map_id (projected p)) in
      (if here \<and> order_id \<noteq> [] then order_id # orders else orders, p # ps))"

definition selected_order_ids_for_projection ::
  "projection_map list \<Rightarrow> runtime_apparatus_configuration \<Rightarrow> string list \<times> projection_map list" where
  "selected_order_ids_for_projection ps c =
     (case projected_orders (source_apparatus_id (runtime_row c)) ps of (orders, ps) \<Rightarrow>
        (if is_print_apparatus c then filter (allowed_by_print (map projected ps) c) orders else orders, ps))"

definition filter_unselected_print_orders ::
  "production_map_definition list \<Rightarrow> runtime_apparatus_configuration list \<Rightarrow> (string, string list) btree_map
   \<Rightarrow> (string, string list) btree_map" where
  "filter_unselected_print_orders maps apparatuses orders =
     fold (\<lambda>c orders.
       let i = source_apparatus_id (runtime_row c) in
       case bt_get orders i of
         None \<Rightarrow> orders
       | Some ids \<Rightarrow> bt_insert i (retain_selected_print_orders maps c ids) orders) apparatuses orders"

section \<open>Kinds of apparatus\<close>

definition is_rezka_apparatus :: "runtime_apparatus_configuration \<Rightarrow> bool" where
  "is_rezka_apparatus c \<longleftrightarrow>
     configuration_is_active c \<and> operation (runtime_execution_profile (runtime_row c)) = OpCut
     \<and> configuration_supports c CapCut"

definition requires_previous_stage :: "runtime_apparatus_configuration \<Rightarrow> bool" where
  "requires_previous_stage c \<longleftrightarrow> uses_lamination_workflow c \<or> is_rezka_apparatus c"

end
