(* ===== verification/Run_Session.thy ===== *)
theory Run_Session
  imports Wire_Enums
begin

text \<open>
  The statuses of production runs (\<^verbatim>\<open>progress_session/progress_parts/statuses.rs\<close>), which share one
  parser, and the run session itself (\<^verbatim>\<open>progress_session/progress.rs\<close>).  The JSON payload of a
  session is a type parameter: nothing modelled here looks into it.
\<close>

section \<open>Names of variants\<close>

definition parse_ascii_variant :: "string \<Rightarrow> (string \<times> 'a) list \<Rightarrow> 'a option" where
  "parse_ascii_variant v variants =
     (let v = trim v in
      map_option snd (find (\<lambda>(name, variant). eq_ignore_ascii_case v name) variants))"

text \<open>A table that lists every variant under its name makes the parser a faithful one.\<close>

lemma wire_enum_of_table:
  assumes parse: "\<And>v. parse v = parse_ascii_variant v (map (\<lambda>x. (as_str x, x)) xs)"
    and all: "\<And>x. x \<in> set xs"
    and distinct: "distinct (map as_str xs)"
    and plain: "list_all (\<lambda>x. to_ascii_lowercase (as_str x) = as_str x \<and> trim (as_str x) = as_str x) xs"
  shows "wire_enum as_str parse"
proof
  fix v x
  have lower: "to_ascii_lowercase (as_str y) = as_str y" for y
    using plain all [of y] by (auto simp: list_all_iff)
  show "to_ascii_lowercase (as_str x) = as_str x" "trim (as_str x) = as_str x"
    using plain all [of x] by (auto simp: list_all_iff)
  have found: "find (\<lambda>(name, _). eq_ignore_ascii_case (trim v) name) (map (\<lambda>x. (as_str x, x)) ys) =
      map_option (\<lambda>x. (as_str x, x)) (find (\<lambda>x. eq_ignore_ascii_case (trim v) (as_str x)) ys)" for ys
    by (induction ys) simp_all
  have "eq_ignore_ascii_case (trim v) (as_str y) \<longleftrightarrow> as_str y = to_ascii_lowercase (trim v)" for y
    using lower by (auto simp: eq_ignore_ascii_case_def)
  then have "parse v = find (\<lambda>y. as_str y = to_ascii_lowercase (trim v)) xs"
    by (simp add: parse parse_ascii_variant_def Let_def found option.map_comp comp_def option.map_ident)
  moreover have "find (\<lambda>y. as_str y = k) ys = Some x \<longleftrightarrow> x \<in> set ys \<and> as_str x = k"
    if "distinct (map as_str ys)" for ys k
    using that by (induction ys) force+
  ultimately show "parse v = Some x \<longleftrightarrow> eq_ignore_ascii_case (trim v) (as_str x)"
    using distinct all [of x] lower by (auto simp: eq_ignore_ascii_case_def)
qed

section \<open>Statuses\<close>

datatype order_run_status = RunActive | RunPaused | RunFrozen | RunRollDetached | RunCompleted

fun run_status_as_str :: "order_run_status \<Rightarrow> string" where
  "run_status_as_str RunActive = ''active''"
| "run_status_as_str RunPaused = ''paused''"
| "run_status_as_str RunFrozen = ''frozen''"
| "run_status_as_str RunRollDetached = ''roll_detached''"
| "run_status_as_str RunCompleted = ''completed''"

definition parse_run_status :: "string \<Rightarrow> order_run_status option" where
  "parse_run_status v = parse_ascii_variant v
     [(''active'', RunActive), (''paused'', RunPaused), (''frozen'', RunFrozen),
      (''roll_detached'', RunRollDetached), (''completed'', RunCompleted)]"

fun is_open :: "order_run_status \<Rightarrow> bool" where
  "is_open RunCompleted = False"
| "is_open _ = True"

datatype order_progress_batch_status = BatchPaused | BatchRollDetached | BatchCompleted | BatchResumed

fun batch_status_as_str :: "order_progress_batch_status \<Rightarrow> string" where
  "batch_status_as_str BatchPaused = ''paused''"
| "batch_status_as_str BatchRollDetached = ''roll_detached''"
| "batch_status_as_str BatchCompleted = ''completed''"
| "batch_status_as_str BatchResumed = ''resumed''"

definition parse_batch_status :: "string \<Rightarrow> order_progress_batch_status option" where
  "parse_batch_status v = parse_ascii_variant v
     [(''paused'', BatchPaused), (''roll_detached'', BatchRollDetached),
      (''completed'', BatchCompleted), (''resumed'', BatchResumed)]"

fun is_resumable :: "order_progress_batch_status \<Rightarrow> bool" where
  "is_resumable BatchPaused = True"
| "is_resumable BatchRollDetached = True"
| "is_resumable _ = False"

datatype order_progress_batch_wip_status = WipWaiting | WipInUse | WipProcessed | WipPeremotka

fun wip_status_as_str :: "order_progress_batch_wip_status \<Rightarrow> string" where
  "wip_status_as_str WipWaiting = ''waiting''"
| "wip_status_as_str WipPeremotka = ''peremotka''"
| "wip_status_as_str WipInUse = ''in_use''"
| "wip_status_as_str WipProcessed = ''processed''"

definition parse_wip_status :: "string \<Rightarrow> order_progress_batch_wip_status option" where
  "parse_wip_status v = parse_ascii_variant v
     [(''waiting'', WipWaiting), (''peremotka'', WipPeremotka), (''in_use'', WipInUse),
      (''processed'', WipProcessed)]"

datatype order_run_input_source_kind = InputProgressBatch | InputOpeningWip

fun input_source_as_str :: "order_run_input_source_kind \<Rightarrow> string" where
  "input_source_as_str InputProgressBatch = ''progress_batch''"
| "input_source_as_str InputOpeningWip = ''opening_wip''"

definition parse_input_source :: "string \<Rightarrow> order_run_input_source_kind option" where
  "parse_input_source v = parse_ascii_variant v
     [(''progress_batch'', InputProgressBatch), (''opening_wip'', InputOpeningWip)]"

datatype order_run_input_status = InputInUse | InputProcessed

fun input_status_as_str :: "order_run_input_status \<Rightarrow> string" where
  "input_status_as_str InputInUse = ''in_use''"
| "input_status_as_str InputProcessed = ''processed''"

definition parse_input_status :: "string \<Rightarrow> order_run_input_status option" where
  "parse_input_status v = parse_ascii_variant v
     [(''in_use'', InputInUse), (''processed'', InputProcessed)]"

interpretation run_status_names: wire_enum run_status_as_str parse_run_status
proof (rule wire_enum_of_table)
  show "parse_run_status v = parse_ascii_variant v (map (\<lambda>x. (run_status_as_str x, x)) [RunActive, RunPaused, RunFrozen, RunRollDetached, RunCompleted])" for v
    by (simp add: parse_run_status_def)
  show "x \<in> set [RunActive, RunPaused, RunFrozen, RunRollDetached, RunCompleted]" for x
    by (cases x) simp_all
qed code_simp+

interpretation batch_status_names: wire_enum batch_status_as_str parse_batch_status
proof (rule wire_enum_of_table)
  show "parse_batch_status v = parse_ascii_variant v (map (\<lambda>x. (batch_status_as_str x, x)) [BatchPaused, BatchRollDetached, BatchCompleted, BatchResumed])" for v
    by (simp add: parse_batch_status_def)
  show "x \<in> set [BatchPaused, BatchRollDetached, BatchCompleted, BatchResumed]" for x
    by (cases x) simp_all
qed code_simp+

interpretation wip_status_names: wire_enum wip_status_as_str parse_wip_status
proof (rule wire_enum_of_table)
  show "parse_wip_status v = parse_ascii_variant v (map (\<lambda>x. (wip_status_as_str x, x)) [WipWaiting, WipPeremotka, WipInUse, WipProcessed])" for v
    by (simp add: parse_wip_status_def)
  show "x \<in> set [WipWaiting, WipPeremotka, WipInUse, WipProcessed]" for x
    by (cases x) simp_all
qed code_simp+

interpretation input_source_names: wire_enum input_source_as_str parse_input_source
proof (rule wire_enum_of_table)
  show "parse_input_source v = parse_ascii_variant v (map (\<lambda>x. (input_source_as_str x, x)) [InputProgressBatch, InputOpeningWip])" for v
    by (simp add: parse_input_source_def)
  show "x \<in> set [InputProgressBatch, InputOpeningWip]" for x
    by (cases x) simp_all
qed code_simp+

interpretation input_status_names: wire_enum input_status_as_str parse_input_status
proof (rule wire_enum_of_table)
  show "parse_input_status v = parse_ascii_variant v (map (\<lambda>x. (input_status_as_str x, x)) [InputInUse, InputProcessed])" for v
    by (simp add: parse_input_status_def)
  show "x \<in> set [InputInUse, InputProcessed]" for x
    by (cases x) simp_all
qed code_simp+

section \<open>Sessions\<close>

text \<open>Who acts on a queue (\<^verbatim>\<open>queue/types.rs\<close>).\<close>

record queue_action_actor =
  actor_role :: string
  actor_ref :: string
  actor_display_name :: string

record 'j order_run_session =
  session_id :: string
  session_apparatus :: string
  session_order_id :: string
  session_stage_node_id :: string
  session_status :: order_run_status
  worker_role :: string
  worker_ref :: string
  worker_display_name :: string
  started_at_unix :: int
  updated_at_unix :: int
  payload_json :: 'j

end
