(* ===== verification/Queue_Moves.thy ===== *)
theory Queue_Moves
  imports Queue_Orders Run_Session "HOL-Library.Product_Lexorder"
begin

text \<open>
  Moving an order within the queue of an apparatus: the slot nearest to the requested one that lets
  no order overtake a running one (\<^verbatim>\<open>queue/support.rs\<close>), the command with its guard against stale
  views and its event for clients (\<^verbatim>\<open>sequence_move.rs\<close>), and its application in the store with receipts
  for repeated commands (\<^verbatim>\<open>memory_store_trait_impl.rs\<close>).  The fingerprint of a queue, SHA-256 of its
  JSON text, is a parameter.
\<close>

section \<open>Positions\<close>

text \<open>\<^verbatim>\<open>iter().position(|id| id == x)\<close>, \<^verbatim>\<open>Vec::remove\<close> and \<^verbatim>\<open>Vec::insert\<close> within bounds, \<^verbatim>\<open>usize::abs_diff\<close>.\<close>

fun position_of :: "'a \<Rightarrow> 'a list \<Rightarrow> nat option" where
  "position_of x [] = None"
| "position_of x (y # ys) = (if y = x then Some 0 else map_option Suc (position_of x ys))"

definition remove_at :: "nat \<Rightarrow> 'a list \<Rightarrow> 'a list" where
  "remove_at i xs = take i xs @ drop (Suc i) xs"

definition insert_at :: "nat \<Rightarrow> 'a \<Rightarrow> 'a list \<Rightarrow> 'a list" where
  "insert_at i x xs = take i xs @ x # drop i xs"

definition abs_diff :: "nat \<Rightarrow> nat \<Rightarrow> nat" where
  "abs_diff m n = (if m < n then n - m else m - n)"

section \<open>The barrier of running orders\<close>

fun first_positions :: "nat \<Rightarrow> string list \<Rightarrow> (string, nat) btree_map \<Rightarrow> (string, nat) btree_map" where
  "first_positions i [] m = m"
| "first_positions i (oid # ids) m =
     first_positions (Suc i) ids (if bt_get m (trim oid) = None then bt_insert (trim oid) i m else m)"

fun prefix_max_position ::
  "(string, nat) btree_map \<Rightarrow> nat option \<Rightarrow> bool \<Rightarrow> string list \<Rightarrow> nat option list" where
  "prefix_max_position current highest known [] = []"
| "prefix_max_position current highest known (oid # ids) =
     (let (highest, known) =
        (case bt_get current (trim oid) of
           Some p \<Rightarrow> (Some (case highest of None \<Rightarrow> p | Some t \<Rightarrow> max t p), known)
         | None \<Rightarrow> (highest, False)) in
      (if known then highest else None) # prefix_max_position current highest known ids)"

definition barrier_entry ::
  "(string, nat) btree_map \<Rightarrow> (string, nat) btree_map \<Rightarrow> nat option list \<Rightarrow> string btree_set
   \<Rightarrow> string \<times> string \<Rightarrow> unit pm_result" where
  "barrier_entry current next prefix frozen = (\<lambda>(order_id, state).
     case parse_state state of
       None \<Rightarrow> Inr ()
     | Some parsed \<Rightarrow>
         if \<not> is_active parsed then Inr ()
         else
           let order_id = trim order_id in
           if order_id \<in> set frozen then Inr ()
           else
             (case bt_get next order_id of
                None \<Rightarrow> Inl (Err QueueActionNotAllowed)
              | Some next_index \<Rightarrow>
                  let current_index = (case bt_get current order_id of None \<Rightarrow> 0 | Some p \<Rightarrow> p) in
                  if current_index < next_index then Inl (Err QueueActionNotAllowed)
                  else if 0 < next_index
                  then (case prefix ! (next_index - 1) of
                          Some m \<Rightarrow> if m < current_index then Inr () else Inl (Err QueueActionNotAllowed)
                        | None \<Rightarrow> Inl (Err QueueActionNotAllowed))
                  else Inr ()))"

definition validate_active_sequence_barrier ::
  "string list \<Rightarrow> string list \<Rightarrow> (string, string) btree_map \<Rightarrow> string btree_set \<Rightarrow> unit pm_result" where
  "validate_active_sequence_barrier current next states frozen =
     (let current_positions = first_positions 0 current [];
          next_positions = first_positions 0 next [];
          prefix = prefix_max_position current_positions None True next in
      each_outcome (barrier_entry current_positions next_positions prefix frozen) states)"

section \<open>The nearest slot\<close>

definition nearest_allowed_sequence ::
  "string list \<Rightarrow> string list \<Rightarrow> string \<Rightarrow> (string, string) btree_map \<Rightarrow> string btree_set \<Rightarrow> string list pm_result" where
  "nearest_allowed_sequence current requested moved states frozen =
     bind_outcome (ok_or (position_of moved requested) QueueActionNotAllowed) (\<lambda>requested_index.
     bind_outcome (ok_or (position_of moved current) QueueActionNotAllowed) (\<lambda>original_index.
       if length (bs_collect requested) \<noteq> length requested \<or> list_ex (\<lambda>oid. oid \<notin> set current) requested
       then Inl (Err QueueActionNotAllowed)
       else
         let remaining = remove_at original_index current in
         bind_outcome
           (if requested_index + 1 < length requested
            then expect (position_of (requested ! (requested_index + 1)) remaining)
            else if 0 < requested_index
            then bind_outcome (expect (position_of (requested ! (requested_index - 1)) remaining)) (\<lambda>i. Inr (i + 1))
            else Inr original_index)
           (\<lambda>target_index.
             let slots = sort_key (\<lambda>i. (abs_diff i target_index, abs_diff i original_index)) [0..<length remaining + 1] in
             ok_or
               (map_option (\<lambda>i. insert_at i moved remaining)
                 (find (\<lambda>i. is_ok (validate_active_sequence_barrier current (insert_at i moved remaining) states frozen))
                   slots))
               QueueActionNotAllowed)))"

section \<open>The command\<close>

record sequence_move =
  move_apparatus :: string
  move_order_id :: string
  before_order_id :: "string option"
  after_order_id :: "string option"
  expected_version :: string
  move_key :: string

definition validate_move :: "sequence_move \<Rightarrow> unit pm_result" where
  "validate_move c =
     guard_outcome (\<not> (
       \<not> is_canonical_apparatus_id (move_apparatus c)
       \<or> trim (move_order_id c) = []
       \<or> move_order_id c \<noteq> trim (move_order_id c)
       \<or> str_len (expected_version c) \<noteq> 64
       \<or> \<not> list_all is_ascii_hexdigit (expected_version c)
       \<or> trim (move_key c) = []
       \<or> 200 < str_len (move_key c)
       \<or> before_order_id c \<noteq> None \<and> after_order_id c \<noteq> None
       \<or> list_ex (\<lambda>i. trim i = [] \<or> i \<noteq> trim i \<or> i = move_order_id c)
           (filter_map id [before_order_id c, after_order_id c])))
       QueueReorderInvalid"

text \<open>The event for clients: where the order now stands.\<close>

record sequence_delta =
  delta_id :: string
  delta_before :: "string option"
  delta_after :: "string option"

record sequence_event = sequence_delta +
  base_version :: string
  next_version :: string

record sequence_move_result =
  result_order_ids :: "string list"
  result_version :: string
  result_adjusted :: bool
  result_revision :: "int option"
  result_event :: "sequence_event option"

definition compute_canonical_sequence_delta ::
  "string list \<Rightarrow> string list \<Rightarrow> string \<Rightarrow> sequence_delta option" where
  "compute_canonical_sequence_delta old new moved =
     (if old = new then None
      else
        case position_of moved new of
          None \<Rightarrow> None
        | Some new_index \<Rightarrow>
            if position_of moved old = Some new_index then None
            else Some \<lparr> delta_id = moved,
              delta_before = (if new_index + 1 < length new then Some (new ! (new_index + 1)) else None),
              delta_after = (if 0 < new_index then Some (new ! (new_index - 1)) else None) \<rparr>)"

text \<open>What a client does with an event, as the tests of the sources have it.\<close>

definition apply_client_delta :: "string list \<Rightarrow> sequence_delta \<Rightarrow> string list" where
  "apply_client_delta initial op =
     (let result = filter (\<lambda>x. x \<noteq> delta_id op) initial in
      case Option.bind (delta_after op) (\<lambda>i. position_of i result) of
        Some i \<Rightarrow> insert_at (i + 1) (delta_id op) result
      | None \<Rightarrow>
          (case Option.bind (delta_before op) (\<lambda>i. position_of i result) of
             Some i \<Rightarrow> insert_at i (delta_id op) result
           | None \<Rightarrow> delta_id op # result))"

record sequence_move_state =
  queue_apparatus :: string
  queue_order_ids :: "string list"
  queue_raw_states :: "(string, string) btree_map"
  queue_frozen :: "string btree_set"

definition from_visible ::
  "string \<Rightarrow> string list \<Rightarrow> string list \<Rightarrow> (string, string) btree_map \<Rightarrow> string btree_set \<Rightarrow> string btree_set
   \<Rightarrow> sequence_move_state" where
  "from_visible apparatus visible stored raw_states frozen preflight =
     (let frozen = bs_collect (filter (\<lambda>i. i \<in> set frozen \<or> bt_get raw_states i = Some ''frozen'') visible);
          order_ids = effective_apparatus_sequence_excluding stored visible frozen;
          states = bt_collect (map (\<lambda>i.
            (i, if i \<in> set preflight then ''print_preflight''
                else case bt_get raw_states i of None \<Rightarrow> ''pending'' | Some st \<Rightarrow> st)) order_ids) in
      \<lparr> queue_apparatus = apparatus, queue_order_ids = order_ids, queue_raw_states = states, queue_frozen = frozen \<rparr>)"

definition from_data ::
  "runtime_apparatus_configuration \<Rightarrow> production_map_definition list \<Rightarrow> string list \<Rightarrow> (string, string) btree_map
   \<Rightarrow> string btree_set \<Rightarrow> string btree_set \<Rightarrow> sequence_move_state" where
  "from_data canonical maps stored raw_states frozen preflight =
     from_visible (source_apparatus_id (runtime_row canonical)) (selected_order_ids_for_apparatus maps canonical)
       stored raw_states frozen preflight"

text \<open>The slot a command names in the queue without the order.\<close>

definition move_target :: "sequence_move \<Rightarrow> string list \<Rightarrow> nat pm_result" where
  "move_target c rest =
     (case before_order_id c of
        Some i \<Rightarrow> ok_or (position_of i rest) QueueReorderConflict
      | None \<Rightarrow>
          (case after_order_id c of
             Some i \<Rightarrow> bind_outcome (ok_or (position_of i rest) QueueReorderConflict) (\<lambda>p. Inr (p + 1))
           | None \<Rightarrow> Inr (length rest)))"

definition apply_move ::
  "(sequence_move_state \<Rightarrow> string) \<Rightarrow> sequence_move_state \<Rightarrow> sequence_move \<Rightarrow> sequence_move_result pm_result" where
  "apply_move version st c =
     bind_outcome (validate_move c) (\<lambda>_.
     bind_outcome (guard_outcome (move_apparatus c = queue_apparatus st) QueueReorderInvalid) (\<lambda>_.
     bind_outcome (guard_outcome (move_order_id c \<notin> set (queue_frozen st)) QueueReorderFrozen) (\<lambda>_.
     bind_outcome (guard_outcome (expected_version c = version st) QueueReorderConflict) (\<lambda>_.
     bind_outcome (ok_or (position_of (move_order_id c) (queue_order_ids st)) QueueReorderConflict) (\<lambda>original.
     let rest = remove_at original (queue_order_ids st) in
     bind_outcome (move_target c rest) (\<lambda>target.
     let requested = insert_at target (move_order_id c) rest in
     bind_outcome
       (case nearest_allowed_sequence (queue_order_ids st) requested (move_order_id c) (queue_raw_states st)
               (queue_frozen st) of
          Inl (Err _) \<Rightarrow> Inl (Err QueueReorderBlocked)
        | r \<Rightarrow> r) (\<lambda>order_ids.
     let next = st \<lparr> queue_order_ids := order_ids \<rparr> in
     Inr \<lparr> result_order_ids = order_ids, result_version = version next, result_adjusted = (order_ids \<noteq> requested),
       result_revision = None,
       result_event = map_option
         (\<lambda>d. \<lparr> delta_id = delta_id d, delta_before = delta_before d, delta_after = delta_after d,
            base_version = expected_version c, next_version = version next \<rparr>)
         (compute_canonical_sequence_delta (queue_order_ids st) order_ids (move_order_id c)) \<rparr>)))))))"

section \<open>The store\<close>

datatype print_preflight_status = Held | Running | Passed | Failed | PreflightCancelled | Consumed

fun reserves_apparatus :: "print_preflight_status \<Rightarrow> bool" where
  "reserves_apparatus Held = True"
| "reserves_apparatus Running = True"
| "reserves_apparatus Passed = True"
| "reserves_apparatus _ = False"

record print_preflight_hold =
  hold_id :: string
  hold_idempotency_key :: string
  hold_order_id :: string
  hold_apparatus :: string
  hold_stage_node_id :: string
  hold_status :: print_preflight_status
  hold_revision :: int
  hold_actor :: queue_action_actor
  hold_created_at_unix :: int
  hold_updated_at_unix :: int
  hold_previous_queue_state :: "string option"
  hold_expires_at_unix :: int

definition is_live_at :: "print_preflight_hold \<Rightarrow> int \<Rightarrow> bool" where
  "is_live_at h now = reserves_apparatus (hold_status h)"

type_synonym receipt_key = "string \<times> string \<times> string \<times> string"

record move_store =
  stored_sequences :: "(string, string list) btree_map"
  move_receipts :: "(receipt_key, sequence_move \<times> sequence_move_result) btree_map"

text \<open>What other services have stored: maps, states by apparatus, controls of orders, holds.\<close>

record queue_context =
  queue_ctx_maps :: "production_map_definition list"
  queue_ctx_states :: "(string, (string, string) btree_map) btree_map"
  queue_ctx_controls :: "(string, order_control_state) btree_map"
  queue_ctx_holds :: "print_preflight_hold list"

definition queue_view ::
  "queue_context \<Rightarrow> runtime_apparatus_configuration \<Rightarrow> move_store \<Rightarrow> string \<Rightarrow> sequence_move_state" where
  "queue_view ctx canonical st apparatus =
     from_data canonical (queue_ctx_maps ctx)
       (case bt_get (stored_sequences st) apparatus of None \<Rightarrow> [] | Some s \<Rightarrow> s)
       (case bt_get (queue_ctx_states ctx) apparatus of None \<Rightarrow> [] | Some s \<Rightarrow> s)
       (bs_collect (filter_map (\<lambda>(i, control). if control = CtlFrozen then Some i else None) (queue_ctx_controls ctx)))
       (bs_collect (map hold_order_id
         (filter (\<lambda>h. hold_apparatus h = apparatus \<and> is_live_at h 0) (queue_ctx_holds ctx))))"

definition move_apparatus_sequence ::
  "(sequence_move_state \<Rightarrow> string) \<Rightarrow> queue_context \<Rightarrow> runtime_apparatus_configuration \<Rightarrow> queue_action_actor \<Rightarrow> sequence_move
   \<Rightarrow> move_store \<Rightarrow> sequence_move_result pm_result \<times> move_store" where
  "move_apparatus_sequence version ctx canonical actor c st =
     (case validate_move c of
        Inl e \<Rightarrow> (Inl e, st)
      | Inr _ \<Rightarrow>
          let key = (move_apparatus c, actor_role actor, actor_ref actor, move_key c) in
          case bt_get (move_receipts st) key of
            Some (previous, result) \<Rightarrow>
              (if previous = c then Inr result else Inl (Err QueueReorderIdempotencyConflict), st)
          | None \<Rightarrow>
              (case apply_move version (queue_view ctx canonical st (move_apparatus c)) c of
                 Inl e \<Rightarrow> (Inl e, st)
               | Inr result \<Rightarrow>
                   let (sequences, result) =
                     (if result_event result \<noteq> None
                      then (bt_insert (move_apparatus c) (result_order_ids result) (stored_sequences st),
                            result \<lparr> result_revision := Some 1 \<rparr>)
                      else (stored_sequences st, result)) in
                   (Inr result, \<lparr> stored_sequences = sequences,
                      move_receipts = bt_insert key (c, result) (move_receipts st) \<rparr>)))"

end
