(* ===== verification/Queue_Laws.thy ===== *)
theory Queue_Laws
  imports Queue_State
begin

text \<open>
  What makes the queue of an apparatus correct: the effective sequence is the stored order
  followed by the new orders, oldest first; the order served next is the running one, else the
  first that waits; and no sequence of actions, under either policy, puts two orders to work at
  once.  The locale \<open>slot_policy\<close> states the contract of an action handler; both policies
  interpret it, and the invariant is proved once from the contract.
\<close>

section \<open>The effective sequence\<close>

text \<open>The first occurrence of every element, in order.\<close>

definition firsts :: "'a list \<Rightarrow> 'a list" where
  "firsts xs = rev (remdups (rev xs))"

lemma firsts_Nil [simp]: "firsts [] = []"
  by (simp add: firsts_def)

lemma set_firsts [simp]: "set (firsts xs) = set xs"
  by (simp add: firsts_def)

lemma distinct_firsts [simp]: "distinct (firsts xs)"
  by (simp add: firsts_def)

lemma remdups_snoc: "remdups (xs @ [x]) = remdups (filter (\<lambda>y. y \<noteq> x) xs) @ [x]"
  by (induction xs) auto

lemma firsts_Cons: "firsts (x # xs) = x # firsts (filter (\<lambda>y. y \<noteq> x) xs)"
  by (simp add: firsts_def remdups_snoc rev_filter)

lemma push_ids_result:
  "push_ids ok ids seen result =
     (seen \<union> {i \<in> set (trimmed_ids ids). ok i},
      result @ firsts (filter (\<lambda>i. ok i \<and> i \<notin> seen) (trimmed_ids ids)))"
proof (induction ids arbitrary: seen result)
  case Nil
  then show ?case by (simp add: trimmed_ids_def)
next
  case (Cons i ids)
  let ?t = "trim i"
  show ?case
  proof (cases "?t \<noteq> [] \<and> ok ?t \<and> ?t \<notin> seen")
    case True
    then have "filter (\<lambda>j. ok j \<and> j \<notin> seen) (trimmed_ids (i # ids)) =
        ?t # filter (\<lambda>j. ok j \<and> j \<notin> seen) (trimmed_ids ids)"
      by (simp add: trimmed_ids_def)
    moreover have "filter (\<lambda>j. j \<noteq> ?t) (filter (\<lambda>j. ok j \<and> j \<notin> seen) (trimmed_ids ids)) =
        filter (\<lambda>j. ok j \<and> j \<notin> insert ?t seen) (trimmed_ids ids)"
      by (auto intro: filter_cong)
    ultimately show ?thesis
      using True Cons.IH by (auto simp: Let_def firsts_Cons trimmed_ids_def)
  next
    case False
    then have "filter (\<lambda>j. ok j \<and> j \<notin> seen) (trimmed_ids (i # ids)) =
        filter (\<lambda>j. ok j \<and> j \<notin> seen) (trimmed_ids ids)"
      by (auto simp: trimmed_ids_def)
    with False Cons.IH show ?thesis
      by (auto simp: Let_def trimmed_ids_def)
  qed
qed

definition visible_ids :: "string list \<Rightarrow> string list \<Rightarrow> string set" where
  "visible_ids visible_order_ids excluded_order_ids =
     set (trimmed_ids visible_order_ids) - set (trimmed_ids excluded_order_ids)"

lemma trimmed_ids_rev: "trimmed_ids (rev xs) = rev (trimmed_ids xs)"
  by (simp add: trimmed_ids_def rev_map rev_filter)

lemma effective_sequence_split:
  "effective_apparatus_sequence_excluding stored vis exc =
     firsts (filter (\<lambda>i. i \<in> visible_ids vis exc) (trimmed_ids stored)) @
     firsts (filter (\<lambda>i. i \<in> visible_ids vis exc \<and> i \<notin> set (trimmed_ids stored))
       (rev (trimmed_ids vis)))"
proof -
  let ?V = "visible_ids vis exc" and ?E = "set (trimmed_ids exc)"
  have V: "set (filter (\<lambda>i. i \<notin> ?E) (trimmed_ids vis)) = ?V"
    by (auto simp: visible_ids_def)
  have eq: "filter (\<lambda>i. i \<notin> ?E \<and> i \<notin> {i \<in> set (trimmed_ids stored). i \<in> ?V}) (rev (trimmed_ids vis)) =
      filter (\<lambda>i. i \<in> ?V \<and> i \<notin> set (trimmed_ids stored)) (rev (trimmed_ids vis))"
    by (rule filter_cong) (auto simp: visible_ids_def)
  have empty: "?V = {} \<Longrightarrow> filter (\<lambda>i. i \<in> ?V \<and> Q i) xs = []" for Q xs
    by simp
  show ?thesis
    unfolding effective_apparatus_sequence_excluding_def Let_def V push_ids_result
    by (auto simp: trimmed_ids_rev eq [simplified])
qed

section \<open>The order served next\<close>

definition waits :: "queue_order_state \<Rightarrow> bool" where
  "waits st \<longleftrightarrow> st = Pending \<or> st = Paused"

lemma first_actionable_loop_find:
  "first_actionable_loop ids states w =
     (case find (\<lambda>i. is_active (state_of states i)) (trimmed_ids ids) of
        Some i \<Rightarrow> Some i
      | None \<Rightarrow> (case w of Some v \<Rightarrow> Some v
          | None \<Rightarrow> find (\<lambda>i. waits (state_of states i)) (trimmed_ids ids)))"
proof (induction ids arbitrary: w)
  case Nil
  then show ?case by (cases w) (simp_all add: trimmed_ids_def)
next
  case (Cons i ids)
  show ?case
    by (cases "state_of states (trim i)")
      (auto simp: Let_def Cons.IH trimmed_ids_def waits_def split: option.splits)
qed

lemma first_actionable_find:
  "first_actionable_order_id seq states =
     (case find (\<lambda>i. is_active (state_of states i)) (trimmed_ids seq) of
        Some i \<Rightarrow> Some i
      | None \<Rightarrow> find (\<lambda>i. waits (state_of states i)) (trimmed_ids seq))"
  by (simp add: first_actionable_order_id_def first_actionable_loop_find split: option.split)

lemma first_actionable_correct_aux:
  "first_actionable_order_id seq states = Some i \<longleftrightarrow>
     (\<exists>k < length (trimmed_ids seq). trimmed_ids seq ! k = i \<and>
        (is_active (state_of states i) \<and>
           (\<forall>l < k. \<not> is_active (state_of states (trimmed_ids seq ! l)))
         \<or> waits (state_of states i) \<and>
           (\<forall>j\<in>set (trimmed_ids seq). \<not> is_active (state_of states j)) \<and>
           (\<forall>l < k. \<not> waits (state_of states (trimmed_ids seq ! l)))))"
proof (cases "find (\<lambda>i. is_active (state_of states i)) (trimmed_ids seq)")
  case None
  then have none: "\<forall>j\<in>set (trimmed_ids seq). \<not> is_active (state_of states j)"
    by (simp add: find_None_iff)
  from None show ?thesis
    unfolding first_actionable_find using none by (auto simp: find_Some_iff)
next
  case (Some j)
  then have some: "\<not> (\<forall>j\<in>set (trimmed_ids seq). \<not> is_active (state_of states j))"
    by (metis find_None_iff option.distinct(1))
  have "first_actionable_order_id seq states = find (\<lambda>i. is_active (state_of states i)) (trimmed_ids seq)"
    using Some by (simp add: first_actionable_find)
  then have "first_actionable_order_id seq states = Some i \<longleftrightarrow>
      (\<exists>k<length (trimmed_ids seq). is_active (state_of states (trimmed_ids seq ! k)) \<and>
         i = trimmed_ids seq ! k \<and> (\<forall>l<k. \<not> is_active (state_of states (trimmed_ids seq ! l))))"
    by (simp add: find_Some_iff)
  with some show ?thesis
    by (simp, blast)
qed

section \<open>One order at work\<close>

text \<open>
  The states of one apparatus are well formed when the map is sorted, its keys are trimmed ids,
  and at most one order is active.
\<close>

definition ids_trimmed :: "queue_states \<Rightarrow> bool" where
  "ids_trimmed states \<longleftrightarrow> (\<forall>i\<in>fst ` set states. trim i = i \<and> i \<noteq> [])"

definition one_active :: "queue_states \<Rightarrow> bool" where
  "one_active states \<longleftrightarrow>
     (\<forall>i j. is_active (state_of states i) \<longrightarrow> is_active (state_of states j) \<longrightarrow> i = j)"

definition queue_ok :: "queue_states \<Rightarrow> bool" where
  "queue_ok states \<longleftrightarrow> bt_wf states \<and> ids_trimmed states \<and> one_active states"

lemma state_of_insert [simp]:
  "state_of (bt_insert k v states) i = (if i = k then v else state_of states i)"
  by (simp add: state_of_def)

lemma ids_trimmed_insert:
  "ids_trimmed states \<Longrightarrow> trim k = k \<Longrightarrow> k \<noteq> [] \<Longrightarrow> ids_trimmed (bt_insert k v states)"
  by (auto simp: ids_trimmed_def bt_keys_insert)

lemma active_in_map:
  "is_active (state_of states i) \<Longrightarrow> (i, state_of states i) \<in> set states"
  by (auto simp: state_of_def dest: map_of_SomeD split: option.splits)

text \<open>An action never makes an order active unless it takes the slot.\<close>

lemma next_active:
  "next_queue_state st a = Inr st' \<Longrightarrow> is_active st' \<Longrightarrow> is_active st \<or> takes_slot a"
  by (cases st; cases a) (auto simp: takes_slot_def)

lemma next_state_changes:
  "next_queue_state st a = Inr st' \<Longrightarrow> st \<noteq> Completed \<and> st \<noteq> Frozen \<and> st' \<noteq> Pending"
  by (cases st; cases a) auto

text \<open>
  The contract of an action handler: it changes the state of the requested order only, along
  the transition function, and an action that takes the slot is refused while another order is
  active.
\<close>

locale slot_policy =
  fixes handle :: "queue_states \<Rightarrow> string \<Rightarrow> queue_action \<Rightarrow> queue_states pm_result"
  assumes handle_frame: "handle states i a = Inr states' \<Longrightarrow>
      trim i \<noteq> [] \<and> (\<exists>st'. next_queue_state (state_of states (trim i)) a = Inr st'
        \<and> states' = bt_insert (trim i) st' states)"
    and handle_exclusive: "handle states i a = Inr states' \<Longrightarrow> takes_slot a \<Longrightarrow>
      (j, st) \<in> set states \<Longrightarrow> is_active st \<Longrightarrow> trim j = trim i"
    and handle_returns: "returns (handle states i a)"
begin

lemma handle_other:
  assumes "handle states i a = Inr states'" "j \<noteq> trim i"
  shows "state_of states' j = state_of states j"
  using handle_frame [OF assms(1)] assms(2) by auto

lemma handle_own:
  assumes "handle states i a = Inr states'"
  shows "next_queue_state (state_of states (trim i)) a = Inr (state_of states' (trim i))"
  using handle_frame [OF assms] by auto

lemma handle_one_active:
  assumes "handle states i a = Inr states'" "ids_trimmed states" "one_active states"
  shows "one_active states'"
  unfolding one_active_def
proof (intro allI impI)
  fix j k
  assume j: "is_active (state_of states' j)" and k: "is_active (state_of states' k)"
  have own: "is_active (state_of states (trim i)) \<or> takes_slot a"
    if "is_active (state_of states' (trim i))"
    using handle_own [OF assms(1)] that by (rule next_active)
  have other: "l = trim i"
    if "is_active (state_of states' (trim i))" "is_active (state_of states' l)" for l
  proof (rule ccontr)
    assume neq: "l \<noteq> trim i"
    then have act: "is_active (state_of states l)"
      using handle_other [OF assms(1) neq] that(2) by simp
    have "takes_slot a"
      using own [OF that(1)] act neq assms(3) by (auto simp: one_active_def)
    with act have "trim l = trim i"
      by (meson active_in_map assms(1) handle_exclusive)
    moreover have "trim l = l"
      using active_in_map [OF act] assms(2) by (force simp: ids_trimmed_def)
    ultimately show False using neq by simp
  qed
  show "j = k"
  proof (cases "j = trim i \<or> k = trim i")
    case True
    then show ?thesis using other j k by blast
  next
    case False
    then show ?thesis
      using j k handle_other [OF assms(1)] assms(3) by (auto simp: one_active_def)
  qed
qed

lemma handle_ok:
  assumes "handle states i a = Inr states'" "queue_ok states"
  shows "queue_ok states'"
proof -
  from assms(2) have "bt_wf states" "ids_trimmed states" "one_active states"
    by (simp_all add: queue_ok_def)
  then show ?thesis
    using handle_frame [OF assms(1)] handle_one_active [OF assms(1)]
    by (auto simp: queue_ok_def intro: ids_trimmed_insert)
qed

end

lemma next_queue_state_returns [simp]: "returns (next_queue_state st a)"
  by (cases st; cases a) simp_all

interpretation free_pick: slot_policy apply_unordered_queue_action
proof
  fix states i a states' j st
  show "returns (apply_unordered_queue_action states i a)"
    by (simp add: apply_unordered_queue_action_def Let_def returns_bind)
  assume h: "apply_unordered_queue_action states i a = Inr states'"
  then show "trim i \<noteq> [] \<and> (\<exists>st'. next_queue_state (state_of states (trim i)) a = Inr st'
      \<and> states' = bt_insert (trim i) st' states)"
    by (auto simp: apply_unordered_queue_action_def Let_def bind_outcome_eq_Inr split: if_splits)
  assume "takes_slot a" "(j, st) \<in> set states" "is_active st"
  with h show "trim j = trim i"
    by (auto simp: apply_unordered_queue_action_def Let_def list_ex_iff split: if_splits)
qed

lemma strict_accepted:
  "apply_queue_action seq states i a = Inr states' \<longleftrightarrow>
     (\<exists>j\<in>set seq. trim j = trim i) \<and> trim i \<noteq> [] \<and>
     (takes_slot a \<longrightarrow> first_actionable_order_id seq states = Some (trim i)) \<and>
     apply_unordered_queue_action states i a = Inr states'"
  by (auto simp: apply_queue_action_def apply_unordered_queue_action_def Let_def list_ex_iff
      image_iff split: if_splits)

interpretation strict_sequence: slot_policy "apply_queue_action seq" for seq
proof
  fix states i a states' j st
  have "returns (apply_unordered_queue_action states (trim i) a)"
    by (rule free_pick.handle_returns)
  then show "returns (apply_queue_action seq states i a)"
    by (simp add: apply_queue_action_def Let_def)
  assume "apply_queue_action seq states i a = Inr states'"
  then have h: "apply_unordered_queue_action states i a = Inr states'"
    by (simp add: strict_accepted)
  show "trim i \<noteq> [] \<and> (\<exists>st'. next_queue_state (state_of states (trim i)) a = Inr st'
      \<and> states' = bt_insert (trim i) st' states)"
    by (rule free_pick.handle_frame [OF h])
  assume "takes_slot a" "(j, st) \<in> set states" "is_active st"
  then show "trim j = trim i"
    by (rule free_pick.handle_exclusive [OF h])
qed

text \<open>
  A requeued order resumes from pending, past the transition function.  Under the strict
  sequence the resumed order is the order served next, so nothing of the sequence is active.
\<close>

lemma requeued_resume_accepted:
  "apply_requeued_resume p seq states i = Inr states' \<longleftrightarrow>
     (p = StrictSequence \<longrightarrow> first_actionable_order_id seq states = Some i) \<and>
     state_of states i = Pending \<and> states' = bt_insert i InProgress states"
  by (cases p) (auto simp: apply_requeued_resume_def)

lemma requeued_resume_strict:
  assumes "apply_requeued_resume StrictSequence seq states i = Inr states'"
  shows "\<forall>j\<in>set (trimmed_ids seq). \<not> is_active (state_of states j)"
proof -
  from assms have "first_actionable_order_id seq states = Some i" "state_of states i = Pending"
    by (simp_all add: requeued_resume_accepted)
  then show ?thesis
    by (auto simp: first_actionable_correct_aux)
qed

section \<open>Runs of a queue\<close>

text \<open>
  A run is a sequence of accepted actions; the sequence of the apparatus may be a different one
  at every step, since orders are reordered, added and closed between the actions.
\<close>

inductive queue_run :: "queue_policy \<Rightarrow> queue_states \<Rightarrow> queue_states \<Rightarrow> bool" where
  idle: "queue_run p states states"
| act: "queue_run p states states' \<Longrightarrow> apply_queue_policy p seq states' i a = Inr states''
    \<Longrightarrow> queue_run p states states''"

inductive_cases queue_runE: "queue_run p states states'"

lemma policy_step_ok:
  "apply_queue_policy p seq states i a = Inr states' \<Longrightarrow> queue_ok states \<Longrightarrow> queue_ok states'"
  by (cases p) (auto intro: free_pick.handle_ok strict_sequence.handle_ok)

lemma policy_step_final:
  assumes "apply_queue_policy p seq states i a = Inr states'"
    and "state_of states j = Completed \<or> state_of states j = Frozen"
  shows "state_of states' j = state_of states j"
proof (cases "j = trim i")
  case True
  have "next_queue_state (state_of states (trim i)) a = Inr (state_of states' (trim i))"
    using assms(1) by (cases p) (auto dest: free_pick.handle_own strict_sequence.handle_own)
  then show ?thesis
    using next_state_changes assms(2) True by blast
next
  case False
  then show ?thesis
    using assms(1) by (cases p) (auto dest: free_pick.handle_other strict_sequence.handle_other)
qed

lemma queue_run_ok: "queue_run p states states' \<Longrightarrow> queue_ok states \<Longrightarrow> queue_ok states'"
  by (induction rule: queue_run.induct) (auto intro: policy_step_ok)

lemma queue_run_final:
  "queue_run p states states' \<Longrightarrow> state_of states j = st \<Longrightarrow> st = Completed \<or> st = Frozen
     \<Longrightarrow> state_of states' j = st"
  by (induction rule: queue_run.induct) (auto dest: policy_step_final)

text \<open>A small run for the witnesses: \<open>a\<close> is started and paused, \<open>b\<close> is started and completed.\<close>

lemmas queue_eval = apply_unordered_queue_action_def apply_queue_action_def
  first_actionable_order_id_def state_of_def takes_slot_def Let_def trim_def trim_start_def
  trim_end_def is_whitespace_def

lemma sample_run:
  "queue_run FreePick [] [(''a'', Paused), (''b'', Completed)]"
proof -
  have "queue_run FreePick [] [(''a'', InProgress)]"
    by (rule queue_run.act [OF queue_run.idle, where i = "''a''" and a = Start and seq = "[]"])
      (simp add: queue_eval)
  then have "queue_run FreePick [] [(''a'', Paused)]"
    by (rule queue_run.act [where i = "''a''" and a = Pause and seq = "[]"]) (simp add: queue_eval)
  then have "queue_run FreePick [] [(''a'', Paused), (''b'', InProgress)]"
    by (rule queue_run.act [where i = "''b''" and a = Start and seq = "[]"]) (simp add: queue_eval)
  then show ?thesis
    by (rule queue_run.act [where i = "''b''" and a = Complete and seq = "[]"])
      (simp add: queue_eval)
qed

lemma queue_ok_Nil: "queue_ok []"
  by (simp add: queue_ok_def ids_trimmed_def one_active_def state_of_def)



text \<open>A completed or frozen order keeps its state through every run of queue actions: no
  worker action leaves these two states.\<close>

theorem final_states_stay:
  assumes "queue_run p states states'"
    and "state_of states i = Completed \<or> state_of states i = Frozen"
  shows "state_of states' i = state_of states i"
  using queue_run_final [OF assms(1) refl assms(2)] .

text \<open>C25: The effective sequence of an apparatus holds every visible, not excluded order exactly
  once.  The orders of the stored sequence come first, in the stored order, and the orders that
  are not in it follow, oldest first (the listing is newest first): a new order never jumps
  ahead of the existing queue.\<close>

theorem effective_sequence_correct:
  "let q = effective_apparatus_sequence_excluding stored vis exc;
       shown = visible_ids vis exc;
       known = filter (\<lambda>i. i \<in> shown) (trimmed_ids stored);
       added = filter (\<lambda>i. i \<in> shown \<and> i \<notin> set (trimmed_ids stored)) (rev (trimmed_ids vis))
   in distinct q \<and> set q = shown \<and> q = firsts known @ firsts added"
  unfolding Let_def effective_sequence_split
  by (auto simp: visible_ids_def)

text \<open>The order served next is the first active order of the sequence if there is one, and
  otherwise the first order that is pending or paused; frozen and completed orders are passed
  over.\<close>

theorem first_actionable_correct:
  "first_actionable_order_id seq states = Some i \<longleftrightarrow>
     (\<exists>k < length (trimmed_ids seq). trimmed_ids seq ! k = i \<and>
        (is_active (state_of states i) \<and>
           (\<forall>l < k. \<not> is_active (state_of states (trimmed_ids seq ! l)))
         \<or> waits (state_of states i) \<and>
           (\<forall>j\<in>set (trimmed_ids seq). \<not> is_active (state_of states j)) \<and>
           (\<forall>l < k. \<not> waits (state_of states (trimmed_ids seq ! l)))))"
  by (rule first_actionable_correct_aux)

text \<open>C2: Under the strict sequence an order is started or resumed only in its turn: nothing in
  the queue is active unless it is the order itself, and every order before it is frozen or
  completed.\<close>

theorem strict_sequence_is_fifo:
  assumes "apply_queue_action seq states i a = Inr states'" and "takes_slot a"
  shows "\<exists>k < length (trimmed_ids seq). trimmed_ids seq ! k = trim i \<and>
    (\<forall>j\<in>set (trimmed_ids seq). is_active (state_of states j) \<longrightarrow> j = trim i) \<and>
    (is_active (state_of states (trim i)) \<or>
     (\<forall>l < k. state_of states (trimmed_ids seq ! l) \<in> {Frozen, Completed}))"
proof -
  let ?q = "trimmed_ids seq"
  from assms have first: "first_actionable_order_id seq states = Some (trim i)"
    and step: "apply_unordered_queue_action states i a = Inr states'"
    by (simp_all add: strict_accepted)
  have alone: "j = trim i" if "j \<in> set ?q" "is_active (state_of states j)" for j
  proof -
    have "trim j = trim i"
      using free_pick.handle_exclusive [OF step assms(2) active_in_map [OF that(2)] that(2)] .
    moreover have "trim j = j"
      using that(1) by (auto simp: trimmed_ids_def)
    ultimately show ?thesis by simp
  qed
  from first obtain k where k: "k < length ?q" "?q ! k = trim i"
    and turn: "is_active (state_of states (trim i)) \<or>
      (\<forall>j\<in>set ?q. \<not> is_active (state_of states j)) \<and> (\<forall>l < k. \<not> waits (state_of states (?q ! l)))"
    by (auto simp: first_actionable_correct_aux)
  have "state_of states (?q ! l) \<in> {Frozen, Completed}"
    if "\<not> is_active (state_of states (?q ! l))" "\<not> waits (state_of states (?q ! l))" for l
    using that by (cases "state_of states (?q ! l)") (auto simp: waits_def)
  with k turn alone show ?thesis
    by (meson nth_mem order.strict_trans)
qed

theorem strict_sequence_is_fifo_witness:
  "takes_slot Start \<and>
   apply_queue_action [''a'', ''b''] [(''a'', Completed)] ''b'' Start
     = Inr [(''a'', Completed), (''b'', InProgress)] \<and>
   (\<exists>k < length (trimmed_ids [''a'', ''b'']). trimmed_ids [''a'', ''b''] ! k = trim ''b'' \<and>
    (\<forall>j\<in>set (trimmed_ids [''a'', ''b'']).
       is_active (state_of [(''a'', Completed)] j) \<longrightarrow> j = trim ''b'') \<and>
    (is_active (state_of [(''a'', Completed)] (trim ''b'')) \<or>
     (\<forall>l < k. state_of [(''a'', Completed)] (trimmed_ids [''a'', ''b''] ! l)
        \<in> {Frozen, Completed})))"
proof -
  have h: "apply_queue_action [''a'', ''b''] [(''a'', Completed)] ''b'' Start
      = Inr [(''a'', Completed), (''b'', InProgress)]"
    by (simp add: queue_eval)
  have t: "takes_slot Start"
    by (simp add: takes_slot_def)
  show ?thesis
    using h t strict_sequence_is_fifo [OF h t] by blast
qed



end
