(* ===== verification/Queue_Move_Laws.thy ===== *)
theory Queue_Move_Laws
  imports Queue_Moves Queue_Laws
begin

text \<open>
  Moves within a queue are sound: the order comes to stand in the free slot nearest to the requested
  one, no order overtakes a running one, and clients that follow the events hold the same queue as the store.
\<close>

section \<open>Positions\<close>

lemma position_of_None: "position_of x xs = None \<longleftrightarrow> x \<notin> set xs"
  by (induction xs) auto

lemma position_of_Some:
  "position_of x xs = Some i \<longleftrightarrow> i < length xs \<and> xs ! i = x \<and> x \<notin> set (take i xs)"
proof (induction xs arbitrary: i)
  case (Cons y ys)
  then show ?case by (cases i) auto
qed simp

lemma position_of_member: "position_of x xs = Some i \<Longrightarrow> x \<in> set xs"
  by (auto simp: position_of_Some in_set_conv_nth)

lemma position_of_nth: "distinct xs \<Longrightarrow> i < length xs \<Longrightarrow> position_of (xs ! i) xs = Some i"
  unfolding position_of_Some by (auto simp: in_set_conv_nth nth_eq_iff_index_eq)

lemma position_takeWhile: "position_of x xs = Some i \<Longrightarrow> takeWhile (\<lambda>y. y \<noteq> x) xs = take i xs"
  unfolding position_of_Some by (auto intro: takeWhile_eq_take_P_nth simp: in_set_conv_nth)

lemma insert_remove_at: "i < length xs \<Longrightarrow> insert_at i (xs ! i) (remove_at i xs) = xs"
  by (simp add: insert_at_def remove_at_def id_take_nth_drop [symmetric] min_def)

lemma filter_neq: "x \<notin> set xs \<Longrightarrow> filter (\<lambda>y. y \<noteq> x) xs = xs"
  by (induction xs) auto

lemma remove_at_filter:
  "distinct xs \<Longrightarrow> position_of x xs = Some i \<Longrightarrow> remove_at i xs = filter (\<lambda>y. y \<noteq> x) xs"
proof -
  assume d: "distinct xs" and "position_of x xs = Some i"
  then have i: "i < length xs" "xs ! i = x" by (simp_all add: position_of_Some)
  define as bs where "as = take i xs" "bs = drop (Suc i) xs"
  have "xs = as @ x # bs" using i id_take_nth_drop [OF i(1)] by (simp add: as_bs_def)
  moreover have "remove_at i xs = as @ bs" by (simp add: remove_at_def as_bs_def)
  moreover have "x \<notin> set as" "x \<notin> set bs" using d calculation(1) by auto
  ultimately show ?thesis by (simp add: filter_neq)
qed

lemma set_insert_at [simp]: "set (insert_at i x xs) = insert x (set xs)"
  unfolding insert_at_def by (metis Un_insert_right append_take_drop_id list.simps(15) set_append)

lemma distinct_insert_at [simp]: "distinct (insert_at i x xs) \<longleftrightarrow> distinct xs \<and> x \<notin> set xs"
proof -
  define as bs where "as = take i xs" "bs = drop i xs"
  then have "xs = as @ bs" "insert_at i x xs = as @ x # bs" by (simp_all add: insert_at_def)
  then show ?thesis by auto
qed

lemma length_insert_at [simp]: "length (insert_at i x xs) = Suc (length xs)"
  by (simp add: insert_at_def)

lemma filter_insert_at: "x \<notin> set xs \<Longrightarrow> filter (\<lambda>y. y \<noteq> x) (insert_at i x xs) = xs"
proof -
  assume "x \<notin> set xs"
  then have "x \<notin> set (take i xs)" "x \<notin> set (drop i xs)" by (auto dest: in_set_takeD in_set_dropD)
  then show ?thesis by (simp add: insert_at_def filter_neq)
qed

lemma position_insert_at: "x \<notin> set xs \<Longrightarrow> i \<le> length xs \<Longrightarrow> position_of x (insert_at i x xs) = Some i"
  unfolding position_of_Some by (auto simp: insert_at_def nth_append min_def dest: in_set_takeD)

section \<open>The barrier\<close>

lemma first_positions_get:
  "bt_get (first_positions i ids m) x =
     (case bt_get m x of Some p \<Rightarrow> Some p | None \<Rightarrow> map_option (\<lambda>p. i + p) (position_of x (map trim ids)))"
proof (induction ids arbitrary: i m)
  case (Cons a ids)
  have "map_option ((+) (Suc i)) p = map_option ((+) i) (map_option Suc p)" for p by (cases p) auto
  then show ?case by (simp add: Cons.IH split: option.split)
qed (simp split: option.split)

definition below :: "nat \<Rightarrow> nat option \<Rightarrow> bool" where
  "below c v \<longleftrightarrow> (case v of Some m \<Rightarrow> m < c | None \<Rightarrow> False)"

lemma prefix_max_below:
  "j < length ids \<Longrightarrow> below c (prefix_max_position cur h known ids ! j) \<longleftrightarrow>
     known \<and> (\<forall>t. h = Some t \<longrightarrow> t < c) \<and>
     (\<forall>x\<in>set (take (Suc j) ids). \<exists>p. bt_get cur (trim x) = Some p \<and> p < c)"
proof (induction ids arbitrary: j h known)
  case (Cons a ids)
  show ?case
  proof (cases j)
    case 0
    then show ?thesis by (auto simp: below_def split: option.split)
  next
    case (Suc i)
    then have "i < length ids" using Cons.prems by simp
    then show ?thesis by (auto simp: Suc Cons.IH split: option.split)
  qed
qed simp

text \<open>What stands before a running order stood before it already.\<close>

definition not_overtaken :: "string list \<Rightarrow> string list \<Rightarrow> string \<Rightarrow> bool" where
  "not_overtaken old new x \<longleftrightarrow> x \<in> set new \<and> set (takeWhile (\<lambda>y. y \<noteq> x) new) \<subseteq> set (takeWhile (\<lambda>y. y \<noteq> x) old)"

definition running_orders :: "(string, string) btree_map \<Rightarrow> string set" where
  "running_orders states = {trim i | i raw st. (i, raw) \<in> set states \<and> parse_state raw = Some st \<and> is_active st}"

definition all_trimmed :: "string list \<Rightarrow> bool" where
  "all_trimmed ids \<longleftrightarrow> (\<forall>i\<in>set ids. trim i = i)"

lemma map_trim_id: "all_trimmed ids \<Longrightarrow> map trim ids = ids"
  by (simp add: all_trimmed_def map_idI)

lemma first_positions_trimmed:
  "all_trimmed ids \<Longrightarrow> bt_get (first_positions 0 ids []) x = position_of x ids"
  by (cases "position_of x ids") (simp_all add: first_positions_get map_trim_id)

text \<open>An order that stands later than before was overtaken.\<close>

lemma not_overtaken_index:
  assumes "distinct new" "position_of x new = Some j" "position_of x old = Some i"
    and "set (take j new) \<subseteq> set (take i old)"
  shows "j \<le> i"
proof -
  have "j < length new" "i < length old" using assms(2,3) by (auto simp: position_of_Some)
  then have "j = card (set (take j new))" using assms(1) by (simp add: distinct_card)
  also have "\<dots> \<le> card (set (take i old))" using assms(4) by (intro card_mono) auto
  also have "\<dots> \<le> i" using \<open>i < length old\<close> by (metis card_length length_take min.absorb4)
  finally show ?thesis .
qed

lemma known_before:
  assumes "all_trimmed new" "all_trimmed old" "position_of x old = Some i" "distinct old"
  shows "(\<forall>y\<in>set (take j new). \<exists>p. bt_get (first_positions 0 old []) (trim y) = Some p \<and> p < i)
    \<longleftrightarrow> set (take j new) \<subseteq> set (take i old)"
proof -
  have i: "i < length old" using assms(3) by (simp add: position_of_Some)
  have "(\<exists>p. position_of y old = Some p \<and> p < i) \<longleftrightarrow> y \<in> set (take i old)" for y
  proof
    assume "y \<in> set (take i old)"
    then obtain k where "k < i" "old ! k = y" by (auto simp: in_set_conv_nth)
    then show "\<exists>p. position_of y old = Some p \<and> p < i"
      using position_of_nth [OF assms(4), of k] i by auto
  qed (use i in \<open>auto simp: position_of_Some in_set_conv_nth\<close>)
  moreover have "trim y = y" if "y \<in> set (take j new)" for y
    using that assms(1) by (auto simp: all_trimmed_def dest: in_set_takeD)
  ultimately show ?thesis by (auto simp: first_positions_trimmed [OF assms(2)])
qed

lemma barrier_entry_ok:
  assumes "all_trimmed new" "all_trimmed old" "distinct new" "distinct old"
    and "trim i \<in> set old"
  shows "barrier_entry (first_positions 0 old []) (first_positions 0 new [])
      (prefix_max_position (first_positions 0 old []) None True new) frozen (i, raw) = Inr ()
    \<longleftrightarrow> (\<forall>st. parse_state raw = Some st \<longrightarrow> is_active st \<longrightarrow> trim i \<notin> set frozen \<longrightarrow> not_overtaken old new (trim i))"
proof -
  let ?x = "trim i" and ?cur = "first_positions 0 old []"
  obtain c where c: "position_of ?x old = Some c" using assms(5) by (metis option.exhaust position_of_None)
  have entry: "(case position_of ?x new of None \<Rightarrow> False
      | Some n \<Rightarrow> n \<le> c \<and> (0 < n \<longrightarrow> below c (prefix_max_position ?cur None True new ! (n - 1))))
      \<longleftrightarrow> not_overtaken old new ?x"
  proof (cases "position_of ?x new")
    case None
    moreover have "trim i \<notin> set new" using None by (simp add: position_of_None)
    ultimately show ?thesis by (simp add: not_overtaken_def)
  next
    case (Some n)
    then have n: "n < length new" by (simp add: position_of_Some)
    have "0 < n \<longrightarrow> below c (prefix_max_position ?cur None True new ! (n - 1)) \<longleftrightarrow> set (take n new) \<subseteq> set (take c old)"
      using prefix_max_below [of "n - 1" new c ?cur None True] n known_before [OF assms(1,2) c assms(4), of n] by auto
    moreover have "not_overtaken old new ?x \<longleftrightarrow> set (take n new) \<subseteq> set (take c old)"
      using Some c position_of_member [OF Some] by (simp add: not_overtaken_def position_takeWhile)
    moreover have "set (take n new) \<subseteq> set (take c old) \<Longrightarrow> n \<le> c"
      using not_overtaken_index [OF assms(3) Some c] .
    ultimately show ?thesis using Some by (cases "n = 0") auto
  qed
  show ?thesis
    unfolding entry [symmetric] barrier_entry_def first_positions_trimmed [OF assms(1)] first_positions_trimmed [OF assms(2)]
    by (auto simp: Let_def c below_def split: option.split)
qed

lemma barrier_correct:
  assumes "all_trimmed new" "all_trimmed old" "distinct new" "distinct old"
    and "trim ` fst ` set states \<subseteq> set old"
  shows "is_ok (validate_active_sequence_barrier old new states frozen) \<longleftrightarrow>
    (\<forall>x\<in>running_orders states - set frozen. not_overtaken old new x)"
proof -
  have "is_ok (validate_active_sequence_barrier old new states frozen) \<longleftrightarrow>
      (\<forall>e\<in>set states. barrier_entry (first_positions 0 old []) (first_positions 0 new [])
        (prefix_max_position (first_positions 0 old []) None True new) frozen e = Inr ())"
    by (simp add: validate_active_sequence_barrier_def is_ok_iff each_outcome_Inr Let_def)
  also have "\<dots> \<longleftrightarrow> (\<forall>(i, raw)\<in>set states. \<forall>st. parse_state raw = Some st \<longrightarrow> is_active st
      \<longrightarrow> trim i \<notin> set frozen \<longrightarrow> not_overtaken old new (trim i))"
  proof (intro ball_cong refl)
    fix e assume e: "e \<in> set states"
    obtain i raw where eq: "e = (i, raw)" by (cases e)
    have "trim i \<in> set old" using e assms(5) eq by force
    from barrier_entry_ok [OF assms(1-4) this] show "(barrier_entry (first_positions 0 old []) (first_positions 0 new [])
        (prefix_max_position (first_positions 0 old []) None True new) frozen e = Inr ()) \<longleftrightarrow>
      (case e of (i, raw) \<Rightarrow> \<forall>st. parse_state raw = Some st \<longrightarrow> is_active st
        \<longrightarrow> trim i \<notin> set frozen \<longrightarrow> not_overtaken old new (trim i))"
      unfolding eq by simp
  qed
  also have "\<dots> \<longleftrightarrow> (\<forall>x\<in>running_orders states - set frozen. not_overtaken old new x)"
    unfolding running_orders_def by fastforce
  finally show ?thesis .
qed

section \<open>The nearest slot\<close>

lemma find_sort_key:
  fixes f :: "'a \<Rightarrow> 'b::linorder"
  assumes "find P (sort_key f xs) = Some x"
  shows "P x" "x \<in> set xs" "y \<in> set xs \<Longrightarrow> P y \<Longrightarrow> f x \<le> f y"
proof -
  obtain i where i: "i < length (sort_key f xs)" "P (sort_key f xs ! i)" "x = sort_key f xs ! i"
    "\<forall>j<i. \<not> P (sort_key f xs ! j)"
    using assms by (auto simp: find_Some_iff)
  show "P x" using i by simp
  show "x \<in> set xs" using i by (metis nth_mem set_sort)
  assume y: "y \<in> set xs" "P y"
  then obtain j where j: "j < length (sort_key f xs)" "sort_key f xs ! j = y"
    by (metis in_set_conv_nth set_sort)
  then have "i \<le> j" using i(4) y(2) by (meson linorder_not_less)
  then show "f x \<le> f y"
    using sorted_nth_mono [OF sorted_sort_key [of f xs], of i j] i(3) j by simp
qed

text \<open>A slot that lets no order overtake a running one.\<close>

definition free_slot :: "string list \<Rightarrow> (string, string) btree_map \<Rightarrow> string btree_set \<Rightarrow> string \<Rightarrow> nat \<Rightarrow> bool" where
  "free_slot q states frozen x k \<longleftrightarrow>
     (\<forall>y\<in>running_orders states - set frozen. not_overtaken q (insert_at k x (filter (\<lambda>i. i \<noteq> x) q)) y)"

lemma not_overtaken_refl: "x \<in> set q \<Longrightarrow> not_overtaken q q x"
  by (simp add: not_overtaken_def)

lemma running_known: "trim ` fst ` set states \<subseteq> set q \<Longrightarrow> running_orders states \<subseteq> set q"
  by (force simp: running_orders_def)

lemma requested_target:
  assumes "x \<notin> set rest" "distinct rest" "t \<le> length rest"
  shows "(if t + 1 < length (insert_at t x rest) then expect (position_of (insert_at t x rest ! (t + 1)) rest)
     else if 0 < t then bind_outcome (expect (position_of (insert_at t x rest ! (t - 1)) rest)) (\<lambda>i. Inr (i + 1))
     else Inr k) = Inr (if rest = [] then k else t)"
proof (cases "t < length rest")
  case True
  then have "insert_at t x rest ! (t + 1) = rest ! t" by (simp add: insert_at_def nth_append min_def)
  then show ?thesis using True assms by (auto simp: position_of_nth)
next
  case False
  then have t: "t = length rest" using assms(3) by simp
  then have "insert_at t x rest ! (t - 1) = rest ! (t - 1)" if "0 < t"
    using that by (simp add: insert_at_def nth_append)
  then show ?thesis using t assms by (auto simp: position_of_nth)
qed

lemma nearest_slot:
  assumes q: "distinct q" "all_trimmed q" "position_of x q = Some n" and t: "t \<le> length (filter (\<lambda>i. i \<noteq> x) q)"
    and states: "trim ` fst ` set states \<subseteq> set q"
  defines "rest \<equiv> filter (\<lambda>i. i \<noteq> x) q"
  shows "\<exists>k\<le>length rest. nearest_allowed_sequence q (insert_at t x rest) x states frozen = Inr (insert_at k x rest)
    \<and> free_slot q states frozen x k
    \<and> (\<forall>j\<le>length rest. free_slot q states frozen x j \<longrightarrow> (abs_diff k t, abs_diff k n) \<le> (abs_diff j t, abs_diff j n))"
proof -
  have x: "x \<in> set q" "x \<notin> set rest" and rest: "distinct rest" "all_trimmed rest" "set rest = set q - {x}" "trim x = x"
    using q position_of_member [OF q(3)] by (auto simp: rest_def all_trimmed_def)
  have n: "n < length q" "q ! n = x" using q(3) by (simp_all add: position_of_Some)
  have gone: "remove_at n q = rest" unfolding rest_def by (rule remove_at_filter [OF q(1,3)])
  then have home: "insert_at n x rest = q" using insert_remove_at [OF n(1)] n(2) by simp
  have len: "length q = Suc (length rest)" using arg_cong [OF home, of length] by simp
  have free: "is_ok (validate_active_sequence_barrier q (insert_at j x rest) states frozen) \<longleftrightarrow> free_slot q states frozen x j" for j
    unfolding free_slot_def rest_def [symmetric]
    using q rest x states by (intro barrier_correct) (auto simp: all_trimmed_def)
  let ?f = "\<lambda>i. (abs_diff i t, abs_diff i n)"
  let ?slot = "find (\<lambda>i. is_ok (validate_active_sequence_barrier q (insert_at i x rest) states frozen))
      (sort_key ?f [0..<length rest + 1])"
  have single: "rest = [] \<Longrightarrow> n = t" using t n len by (simp add: rest_def)
  have target: "(if t + 1 < length (insert_at t x rest) then expect (position_of (insert_at t x rest ! (t + 1)) rest)
     else if 0 < t then bind_outcome (expect (position_of (insert_at t x rest ! (t - 1)) rest)) (\<lambda>i. Inr (i + 1))
     else Inr n) = Inr t"
    using requested_target [OF x(2) rest(1), of t n] t single by (simp add: rest_def [symmetric] split: if_splits)
  have "distinct (insert_at t x rest)" using x(2) rest(1) by simp
  then have valid: "\<not> (length (bs_collect (insert_at t x rest)) \<noteq> length (insert_at t x rest)
      \<or> list_ex (\<lambda>oid. oid \<notin> set q) (insert_at t x rest))"
    using x(1) rest(3) by (simp only: length_bs_collect distinct_card) (auto simp: list_ex_iff)
  have near: "nearest_allowed_sequence q (insert_at t x rest) x states frozen =
      ok_or (map_option (\<lambda>i. insert_at i x rest) ?slot) QueueActionNotAllowed"
    unfolding nearest_allowed_sequence_def position_insert_at [OF x(2) t [folded rest_def]] q(3) ok_or_simps bind_outcome_simps
      if_not_P [OF valid] Let_def gone target ..
  have "free_slot q states frozen x n"
    using running_known [OF states] not_overtaken_refl home by (auto simp: free_slot_def rest_def [symmetric])
  then have "?slot \<noteq> None" using n(1) len by (auto simp: find_None_iff free intro!: exI [of _ n])
  then obtain k where k: "?slot = Some k" by blast
  have "?f k \<le> ?f j" if "j \<le> length rest" "free_slot q states frozen x j" for j
  proof -
    have "j \<in> set [0..<length rest + 1]" using that(1) by auto
    from find_sort_key(3) [OF k this] that(2) show ?thesis by (simp only: free)
  qed
  moreover have "k \<le> length rest" using find_sort_key(2) [OF k] by auto
  moreover have "free_slot q states frozen x k" using find_sort_key(1) [OF k] by (simp add: free)
  ultimately show ?thesis using near k by (intro exI [of _ k]) simp
qed

section \<open>Queues as they are read\<close>

lemma fst_bt_collect: "fst ` set (bt_collect kvs) = fst ` set kvs"
proof -
  have "dom (bt_get (bt_collect kvs)) = dom (map_of (rev kvs))" by (simp add: bt_get_collect fun_eq_iff dom_def)
  then show ?thesis by (simp add: dom_map_of_conv_image_fst)
qed

lemma effective_sequence_ok:
  "distinct (effective_apparatus_sequence_excluding stored visible frozen)"
  "set (effective_apparatus_sequence_excluding stored visible frozen) = visible_ids visible frozen"
  unfolding effective_sequence_split by (auto simp: visible_ids_def)

lemma all_trimmed_visible: "set q \<subseteq> visible_ids visible frozen \<Longrightarrow> all_trimmed q"
  by (force simp: all_trimmed_def visible_ids_def trimmed_ids_def)

lemma from_visible_ok:
  fixes apparatus visible stored raw frozen preflight
  defines "st \<equiv> from_visible apparatus visible stored raw frozen preflight"
  shows "distinct (queue_order_ids st)" "all_trimmed (queue_order_ids st)"
    "fst ` set (queue_raw_states st) = set (queue_order_ids st)" "bt_wf (queue_raw_states st)"
    "set (queue_frozen st) \<inter> set (queue_order_ids st) = {}"
proof -
  define fs where "fs = bs_collect (filter (\<lambda>i. i \<in> set frozen \<or> bt_get raw i = Some ''frozen'') visible)"
  have q: "queue_order_ids st = effective_apparatus_sequence_excluding stored visible fs"
    by (simp add: st_def from_visible_def fs_def Let_def)
  show "distinct (queue_order_ids st)" unfolding q by (rule effective_sequence_ok)
  show t: "all_trimmed (queue_order_ids st)" unfolding q by (rule all_trimmed_visible [where visible = visible and frozen = fs]) (simp add: effective_sequence_ok)
  show "fst ` set (queue_raw_states st) = set (queue_order_ids st)"
    unfolding st_def from_visible_def Let_def by (simp add: fst_bt_collect image_image)
  show "bt_wf (queue_raw_states st)"
    unfolding st_def from_visible_def Let_def by simp
  have fs: "queue_frozen st = fs" by (simp add: st_def from_visible_def fs_def Let_def)
  have mem: "i \<in> visible_ids visible fs" if "i \<in> set (queue_order_ids st)" for i
    using that unfolding q effective_sequence_ok .
  show "set (queue_frozen st) \<inter> set (queue_order_ids st) = {}"
  proof (rule ccontr)
    assume "set (queue_frozen st) \<inter> set (queue_order_ids st) \<noteq> {}"
    then obtain i where i: "i \<in> set fs" "i \<in> set (queue_order_ids st)" using fs by blast
    have own: "trim i = i" using i(2) t unfolding all_trimmed_def by (rule bspec [rotated])
    have out: "i \<in> set (trimmed_ids visible)" "i \<notin> set (trimmed_ids fs)"
      using mem [OF i(2)] by (simp_all add: visible_ids_def)
    have "trim i \<noteq> []" using out(1) own by (auto simp: trimmed_ids_def)
    then have "trim i \<in> set (trimmed_ids fs)" using i(1) unfolding trimmed_ids_def set_filter set_map by blast
    then show False using out(2) own by (simp only:)
  qed
qed

text \<open>The running orders of a queue, from its stored states.\<close>

definition running_in :: "sequence_move_state \<Rightarrow> string set" where
  "running_in st = {i \<in> set (queue_order_ids st).
     \<exists>raw s. bt_get (queue_raw_states st) i = Some raw \<and> parse_state raw = Some s \<and> is_active s}"

lemma running_in_from_visible:
  assumes "st = from_visible apparatus visible stored raw frozen preflight"
  shows "running_orders (queue_raw_states st) - set (queue_frozen st) = running_in st"
proof -
  note ok = from_visible_ok [of apparatus visible stored raw frozen preflight, folded assms]
  have key: "trim i = i \<and> i \<in> set (queue_order_ids st)" if "(i, r) \<in> set (queue_raw_states st)" for i r
    using that ok(2,3) by (force simp: all_trimmed_def)
  have "(i, r) \<in> set (queue_raw_states st) \<longleftrightarrow> bt_get (queue_raw_states st) i = Some r" for i r
    using bt_get_in_set [OF ok(4)] by simp
  then have mem: "i \<in> running_in st \<longleftrightarrow>
      (\<exists>r s. (i, r) \<in> set (queue_raw_states st) \<and> parse_state r = Some s \<and> is_active s)" for i
    using key by (auto simp: running_in_def)
  have "running_orders (queue_raw_states st) = running_in st"
  proof (intro set_eqI iffI)
    fix i assume "i \<in> running_orders (queue_raw_states st)"
    then obtain j r s where j: "i = trim j" "(j, r) \<in> set (queue_raw_states st)" "parse_state r = Some s" "is_active s"
      by (auto simp: running_orders_def)
    then show "i \<in> running_in st" unfolding mem using key [OF j(2)] by auto
  next
    fix i assume "i \<in> running_in st"
    then obtain r s where r: "(i, r) \<in> set (queue_raw_states st)" "parse_state r = Some s" "is_active s"
      unfolding mem by blast
    then have "trim i = i" using key by blast
    then show "i \<in> running_orders (queue_raw_states st)" unfolding running_orders_def using r by force
  qed
  moreover have "running_in st \<inter> set (queue_frozen st) = {}" using ok(5) by (auto simp: running_in_def)
  ultimately show ?thesis by blast
qed

lemma move_target_bound: "move_target c rest = Inr t \<Longrightarrow> t \<le> length rest"
  by (auto simp: move_target_def bind_outcome_eq_Inr position_of_Some split: option.splits)

lemma move_target_fails: "move_target c rest = Inl e \<Longrightarrow> e = Err QueueReorderConflict"
  by (auto simp: move_target_def bind_outcome_eq_Inl ok_or_def split: option.splits)

section \<open>A command\<close>

lemma apply_move_refused:
  assumes "\<not> (validate_move c = Inr () \<and> move_apparatus c = queue_apparatus st \<and> move_order_id c \<notin> set (queue_frozen st)
    \<and> expected_version c = version st \<and> move_order_id c \<in> set (queue_order_ids st))"
  shows "\<exists>e. apply_move version st c = Inl (Err e) \<and> e \<in> {QueueReorderInvalid, QueueReorderFrozen, QueueReorderConflict}"
proof (cases "validate_move c")
  case (Inl e)
  then have "e = Err QueueReorderInvalid" by (simp add: validate_move_def guard_outcome_def split: if_splits)
  then show ?thesis using Inl by (simp add: apply_move_def)
next
  case (Inr u)
  have "position_of (move_order_id c) (queue_order_ids st) = None" if "move_order_id c \<notin> set (queue_order_ids st)"
    using that by (simp add: position_of_None)
  then show ?thesis using assms Inr by (auto simp: apply_move_def guard_outcome_def)
qed

lemma apply_move_outcome:
  fixes c :: sequence_move and version :: "sequence_move_state \<Rightarrow> string"
  assumes st: "st = from_visible apparatus visible stored raw frozen preflight"
  defines "x \<equiv> move_order_id c"
  defines "q \<equiv> queue_order_ids st"
  defines "rest \<equiv> filter (\<lambda>i. i \<noteq> x) q"
  shows "(\<exists>e. apply_move version st c = Inl (Err e) \<and> e \<in> {QueueReorderInvalid, QueueReorderFrozen, QueueReorderConflict})
    \<or> (\<exists>n t k. x \<in> set q \<and> move_target c rest = Inr t \<and> k \<le> length rest
        \<and> free_slot q (queue_raw_states st) (queue_frozen st) x k
        \<and> (\<forall>j\<le>length rest. free_slot q (queue_raw_states st) (queue_frozen st) x j
            \<longrightarrow> (abs_diff k t, abs_diff k n) \<le> (abs_diff j t, abs_diff j n))
        \<and> expected_version c = version st \<and> move_apparatus c = queue_apparatus st
        \<and> apply_move version st c = Inr \<lparr> result_order_ids = insert_at k x rest,
            result_version = version (st \<lparr> queue_order_ids := insert_at k x rest \<rparr>),
            result_adjusted = (insert_at k x rest \<noteq> insert_at t x rest), result_revision = None,
            result_event = map_option (\<lambda>d. \<lparr> delta_id = delta_id d, delta_before = delta_before d, delta_after = delta_after d,
                base_version = version st, next_version = version (st \<lparr> queue_order_ids := insert_at k x rest \<rparr>) \<rparr>)
              (compute_canonical_sequence_delta q (insert_at k x rest) x) \<rparr>)"
proof -
  note ok = from_visible_ok [of apparatus visible stored raw frozen preflight, folded st]
  have keys: "trim ` fst ` set (queue_raw_states st) \<subseteq> set q"
    using ok(2,3) by (auto simp: all_trimmed_def q_def)
  show ?thesis
  proof (cases "validate_move c = Inr () \<and> move_apparatus c = queue_apparatus st \<and> x \<notin> set (queue_frozen st)
      \<and> expected_version c = version st \<and> x \<in> set q")
    case False
    then show ?thesis using apply_move_refused unfolding x_def q_def by (intro disjI1) blast
  next
    case True
    then have v: "validate_move c = Inr ()" and a: "move_apparatus c = queue_apparatus st"
      and f: "x \<notin> set (queue_frozen st)" and e: "expected_version c = version st" and mem: "x \<in> set q" by blast+
    obtain n where n: "position_of x q = Some n" using mem by (metis option.exhaust position_of_None)
    have gone: "remove_at n q = rest" unfolding rest_def by (rule remove_at_filter) (use ok(1) n q_def in auto)
    show ?thesis
    proof (cases "move_target c rest")
      case (Inl e')
      then have "apply_move version st c = Inl (Err QueueReorderConflict)"
        using v a f e n gone move_target_fails [OF Inl]
        by (simp add: apply_move_def guard_outcome_def x_def [symmetric] q_def [symmetric] Let_def)
      then show ?thesis by simp
    next
      case (Inr t)
      from nearest_slot [OF ok(1,2) [folded q_def] n move_target_bound [OF Inr [unfolded rest_def]] keys, of "queue_frozen st", folded rest_def]
      obtain k where "k \<le> length rest" "nearest_allowed_sequence q (insert_at t x rest) x (queue_raw_states st) (queue_frozen st)
          = Inr (insert_at k x rest)" "free_slot q (queue_raw_states st) (queue_frozen st) x k"
        "\<forall>j\<le>length rest. free_slot q (queue_raw_states st) (queue_frozen st) x j
          \<longrightarrow> (abs_diff k t, abs_diff k n) \<le> (abs_diff j t, abs_diff j n)" by blast
      then show ?thesis
        using v a f e n gone Inr mem
        by (intro disjI2 exI [of _ n] exI [of _ t] exI [of _ k])
          (simp add: apply_move_def guard_outcome_def x_def [symmetric] q_def [symmetric] Let_def)
    qed
  qed
qed

end
