(* ===== verification/Queue_Move_Runs.thy ===== *)
theory Queue_Move_Runs
  imports Queue_Move_Laws
begin

text \<open>
  Moves over time: the event of a move brings a client's copy of the queue to the new one, the store
  shows the queue a move has left, and a repeated command has no second effect.
\<close>

section \<open>Events\<close>

lemma delta_correct:
  assumes q: "distinct q" "x \<in> set q" and k: "k \<le> length (filter (\<lambda>i. i \<noteq> x) q)"
  defines "new \<equiv> insert_at k x (filter (\<lambda>i. i \<noteq> x) q)"
  shows "case compute_canonical_sequence_delta q new x of
      None \<Rightarrow> new = q
    | Some d \<Rightarrow> apply_client_delta q d = new"
proof -
  define rest where "rest = filter (\<lambda>i. i \<noteq> x) q"
  have rest: "x \<notin> set rest" "distinct rest" "k \<le> length rest" and new: "new = insert_at k x rest"
    using q k by (simp_all add: rest_def new_def)
  obtain n where n: "position_of x q = Some n" using q(2) by (metis option.exhaust position_of_None)
  then have nq: "n < length q" "q ! n = x" by (simp_all add: position_of_Some)
  have home: "insert_at n x rest = q"
    using insert_remove_at [OF nq(1)] nq(2) remove_at_filter [OF q(1) n] by (simp add: rest_def)
  have pos: "position_of x new = Some k" unfolding new by (rule position_insert_at [OF rest(1,3)])
  have client: "apply_client_delta q \<lparr> delta_id = x,
      delta_before = (if k + 1 < length new then Some (new ! (k + 1)) else None),
      delta_after = (if 0 < k then Some (new ! (k - 1)) else None) \<rparr> = new"
  proof (cases "k = 0")
    case True
    show ?thesis
    proof (cases rest)
      case Nil
      then show ?thesis using True by (simp add: apply_client_delta_def new rest_def [symmetric] insert_at_def)
    next
      case (Cons y ys)
      then show ?thesis using True by (simp add: apply_client_delta_def new rest_def [symmetric] insert_at_def)
    qed
  next
    case False
    then have "new ! (k - 1) = rest ! (k - 1)" using rest(3) by (simp add: new insert_at_def nth_append)
    moreover have "position_of (rest ! (k - 1)) rest = Some (k - 1)"
      using False rest by (intro position_of_nth) auto
    ultimately show ?thesis using False by (simp add: apply_client_delta_def rest_def [symmetric] new)
  qed
  show ?thesis
  proof (cases "q = new \<or> n = k")
    case True
    then have "new = q" using home new by auto
    then show ?thesis by (simp add: compute_canonical_sequence_delta_def)
  next
    case False
    then show ?thesis using client pos n by (simp add: compute_canonical_sequence_delta_def)
  qed
qed

section \<open>The stored queue\<close>

lemma firsts_distinct: "distinct xs \<Longrightarrow> firsts xs = xs"
  by (simp add: firsts_def distinct_remdups_id)

lemma effective_of_itself:
  assumes "distinct s" "set s = visible_ids visible exc"
  shows "effective_apparatus_sequence_excluding s visible exc = s"
proof -
  have "trim i = i \<and> i \<noteq> []" if "i \<in> set s" for i
    using that assms(2) by (auto simp: visible_ids_def trimmed_ids_def)
  then have "map trim s = s" "filter (\<lambda>i. i \<noteq> []) s = s" by (simp_all add: map_idI)
  then have t: "trimmed_ids s = s" by (simp add: trimmed_ids_def)
  have "filter (\<lambda>i. i \<in> visible_ids visible exc) s = s" using assms(2) by (simp add: filter_id_conv)
  moreover have "filter (\<lambda>i. i \<in> visible_ids visible exc \<and> i \<notin> set s) xs = []" for xs
    using assms(2) by simp
  ultimately show ?thesis unfolding effective_sequence_split t by (simp add: firsts_distinct assms(1))
qed

lemma collect_keyed_cong:
  assumes "distinct xs" "distinct ys" "set xs = set ys"
  shows "bt_collect (map (\<lambda>i. (i, f i)) xs) = bt_collect (map (\<lambda>i. (i, f i)) ys)"
proof (rule bt_eqI)
  have "map_of (map (\<lambda>i. (i, f i)) zs) = (\<lambda>i. if i \<in> set zs then Some (f i) else None)" for zs
    by (induction zs) auto
  then show "bt_get (bt_collect (map (\<lambda>i. (i, f i)) xs)) k = bt_get (bt_collect (map (\<lambda>i. (i, f i)) ys)) k" for k
    using assms by (simp add: bt_get_collect_distinct o_def)
qed simp_all

lemma from_visible_stored:
  assumes "distinct s" "set s = set (queue_order_ids (from_visible a visible stored raw frozen preflight))"
  shows "from_visible a visible s raw frozen preflight =
    (from_visible a visible stored raw frozen preflight) \<lparr> queue_order_ids := s \<rparr>"
proof -
  define fs where "fs = bs_collect (filter (\<lambda>i. i \<in> set frozen \<or> bt_get raw i = Some ''frozen'') visible)"
  have s: "set s = visible_ids visible fs"
    using assms(2) by (simp add: from_visible_def fs_def [symmetric] Let_def effective_sequence_ok)
  then have "set s = set (effective_apparatus_sequence_excluding stored visible fs)" by (simp add: effective_sequence_ok)
  then show ?thesis
    by (simp add: from_visible_def fs_def [symmetric] Let_def effective_of_itself [OF assms(1) s]
        collect_keyed_cong [OF assms(1) effective_sequence_ok(1)])
qed

section \<open>Runs of commands\<close>

definition receipt_of :: "queue_action_actor \<Rightarrow> sequence_move \<Rightarrow> receipt_key" where
  "receipt_of actor c = (move_apparatus c, actor_role actor, actor_ref actor, move_key c)"

text \<open>The event a command commits: none when it fails, changes nothing or was committed before.\<close>

definition committed_event ::
  "move_store \<Rightarrow> queue_action_actor \<Rightarrow> sequence_move \<Rightarrow> sequence_move_result pm_result \<Rightarrow> sequence_event option" where
  "committed_event st actor c r =
     (case r of
        Inl _ \<Rightarrow> None
      | Inr result \<Rightarrow> if bt_get (move_receipts st) (receipt_of actor c) = None then result_event result else None)"

fun run_moves ::
  "(sequence_move_state \<Rightarrow> string) \<Rightarrow> queue_context \<Rightarrow> runtime_apparatus_configuration \<Rightarrow> (queue_action_actor \<times> sequence_move) list
   \<Rightarrow> move_store \<Rightarrow> sequence_event list \<times> move_store" where
  "run_moves version ctx canonical [] st = ([], st)"
| "run_moves version ctx canonical ((actor, c) # cs) st =
     (case move_apparatus_sequence version ctx canonical actor c st of (r, st') \<Rightarrow>
      case run_moves version ctx canonical cs st' of (events, st'') \<Rightarrow>
        ((case committed_event st actor c r of None \<Rightarrow> events | Some e \<Rightarrow> e # events), st''))"

text \<open>Each event starts from the version the one before has left.\<close>

fun chained :: "string \<Rightarrow> sequence_event list \<Rightarrow> string \<Rightarrow> bool" where
  "chained v [] w \<longleftrightarrow> v = w"
| "chained v (e # es) w \<longleftrightarrow> base_version e = v \<and> chained (next_version e) es w"

abbreviation own_view :: "queue_context \<Rightarrow> runtime_apparatus_configuration \<Rightarrow> move_store \<Rightarrow> sequence_move_state" where
  "own_view ctx canonical st \<equiv> queue_view ctx canonical st (source_apparatus_id (runtime_row canonical))"

lemma queue_view_from_visible:
  "\<exists>visible stored raw frozen preflight. queue_view ctx canonical st a =
     from_visible (source_apparatus_id (runtime_row canonical)) visible stored raw frozen preflight"
  unfolding queue_view_def from_data_def by blast

lemma queue_view_stored:
  assumes "distinct s" "set s = set (queue_order_ids (queue_view ctx canonical st a))"
    "stored_sequences st' = bt_insert a s (stored_sequences st)"
  shows "queue_view ctx canonical st' a = (queue_view ctx canonical st a) \<lparr> queue_order_ids := s \<rparr>"
  using assms unfolding queue_view_def from_data_def by (simp add: from_visible_stored)

lemma queue_view_same: "stored_sequences st' = stored_sequences st \<Longrightarrow> queue_view ctx canonical st' a = queue_view ctx canonical st a"
  by (simp add: queue_view_def)

lemma queue_move_step:
  assumes move: "move_apparatus_sequence version ctx canonical actor c st = (r, st')"
  shows "case committed_event st actor c r of
      None \<Rightarrow> own_view ctx canonical st' = own_view ctx canonical st
    | Some e \<Rightarrow> queue_order_ids (own_view ctx canonical st') =
          apply_client_delta (queue_order_ids (own_view ctx canonical st)) (sequence_delta.truncate e)
        \<and> base_version e = version (own_view ctx canonical st) \<and> next_version e = version (own_view ctx canonical st')"
proof (cases "validate_move c = Inr () \<and> bt_get (move_receipts st) (receipt_of actor c) = None
    \<and> is_ok (apply_move version (queue_view ctx canonical st (move_apparatus c)) c)")
  case False
  then have "st' = st \<and> committed_event st actor c r = None"
    using move by (auto simp: move_apparatus_sequence_def receipt_of_def committed_event_def Let_def is_ok_iff
        split: sum.splits option.splits prod.splits)
  then show ?thesis by simp
next
  case True
  let ?a = "source_apparatus_id (runtime_row canonical)" and ?v = "queue_view ctx canonical st (move_apparatus c)"
  let ?x = "move_order_id c" and ?q = "queue_order_ids ?v"
  obtain visible stored raw frozen preflight where v: "?v = from_visible ?a visible stored raw frozen preflight"
    using queue_view_from_visible by blast
  have dq: "distinct ?q" unfolding v by (rule from_visible_ok)
  obtain res where res: "apply_move version ?v c = Inr res" using True by (auto simp: is_ok_iff)
  let ?new = "result_order_ids res"
  obtain k where k: "k \<le> length (filter (\<lambda>i. i \<noteq> ?x) ?q)" "?x \<in> set ?q" "move_apparatus c = ?a"
      "?new = insert_at k ?x (filter (\<lambda>i. i \<noteq> ?x) ?q)"
      "result_event res = map_option (\<lambda>d. \<lparr> delta_id = delta_id d, delta_before = delta_before d, delta_after = delta_after d,
          base_version = version ?v, next_version = version (?v \<lparr> queue_order_ids := ?new \<rparr>) \<rparr>)
        (compute_canonical_sequence_delta ?q ?new ?x)"
  proof -
    have "queue_apparatus ?v = ?a" unfolding v by (simp add: from_visible_def Let_def)
    then show thesis using apply_move_outcome [OF v, of version c] res that by auto
  qed
  have delta: "case compute_canonical_sequence_delta ?q ?new ?x of None \<Rightarrow> ?new = ?q | Some d \<Rightarrow> apply_client_delta ?q d = ?new"
    unfolding k(4) by (rule delta_correct [OF dq k(2,1)])
  have dn: "distinct ?new" "set ?new = set ?q" using dq k(2) by (auto simp: k(4))
  show ?thesis
  proof (cases "compute_canonical_sequence_delta ?q ?new ?x")
    case None
    then have same: "stored_sequences st' = stored_sequences st" and "committed_event st actor c r = None"
      using move [symmetric] True res k(5) by (simp_all add: move_apparatus_sequence_def receipt_of_def committed_event_def)
    then show ?thesis by (simp add: queue_view_same [OF same])
  next
    case (Some d)
    then have some: "result_event res \<noteq> None" by (simp add: k(5))
    have "move_apparatus_sequence version ctx canonical actor c st = (Inr (res \<lparr> result_revision := Some 1 \<rparr>),
        \<lparr> stored_sequences = bt_insert (move_apparatus c) ?new (stored_sequences st),
          move_receipts = bt_insert (receipt_of actor c) (c, res \<lparr> result_revision := Some 1 \<rparr>) (move_receipts st) \<rparr>)"
      using True res some by (simp add: move_apparatus_sequence_def receipt_of_def)
    then have r: "r = Inr (res \<lparr> result_revision := Some 1 \<rparr>)"
      and st': "stored_sequences st' = bt_insert ?a ?new (stored_sequences st)"
      using move by (auto simp: k(3) [symmetric])
    have ev: "committed_event st actor c r = result_event res" using True by (simp add: r committed_event_def)
    have "own_view ctx canonical st' = ?v \<lparr> queue_order_ids := ?new \<rparr>"
      using queue_view_stored [OF dn [unfolded k(3)] st'] k(3) by simp
    then show ?thesis
      using ev k(3,5) Some delta by (cases d) (simp add: sequence_delta.truncate_def)
  qed
qed

text \<open>A repeated command answers as before and changes nothing.\<close>

lemma move_retried:
  assumes "move_apparatus_sequence version ctx canonical actor c st = (Inr result, st')"
  shows "move_apparatus_sequence version ctx' canonical' actor c st' = (Inr result, st')"
  using assms
  by (auto simp: move_apparatus_sequence_def Let_def split: sum.splits option.splits prod.splits if_splits)

section \<open>Properties\<close>

text \<open>C3: A move takes the order to the nearest free slot.  A command on a queue is refused only as malformed, frozen or out of
  date.  Otherwise the other orders keep their order, no order comes to stand before a running one
  behind which it stood, and among all slots for which this holds none is nearer to the requested one.\<close>

theorem move_takes_nearest_slot:
  assumes st: "st = from_visible apparatus visible stored raw frozen preflight"
  shows "let q = queue_order_ids st; x = move_order_id c; rest = filter (\<lambda>i. i \<noteq> x) q;
      free = (\<lambda>k. \<forall>y\<in>running_in st. not_overtaken q (insert_at k x rest) y) in
    case apply_move version st c of
      Inl e \<Rightarrow> e \<in> {Err QueueReorderInvalid, Err QueueReorderFrozen, Err QueueReorderConflict}
    | Inr res \<Rightarrow> \<exists>target k. move_target c rest = Inr target \<and> k \<le> length rest
        \<and> result_order_ids res = insert_at k x rest \<and> free k
        \<and> (\<forall>j\<le>length rest. free j \<longrightarrow> abs_diff k target \<le> abs_diff j target)"
proof -
  define q x rest free where "q = queue_order_ids st" "x = move_order_id c" "rest = filter (\<lambda>i. i \<noteq> x) q"
    "free = (\<lambda>k. \<forall>y\<in>running_in st. not_overtaken q (insert_at k x rest) y)"
  note ds = this
  have free: "free_slot q (queue_raw_states st) (queue_frozen st) x j \<longleftrightarrow> free j" for j
    unfolding free_slot_def ds running_in_from_visible [OF st] ..
  note out = apply_move_outcome [OF st, of version c, folded ds(1,2), folded ds(3), unfolded free]
  have "case apply_move version st c of
      Inl e \<Rightarrow> e \<in> {Err QueueReorderInvalid, Err QueueReorderFrozen, Err QueueReorderConflict}
    | Inr res \<Rightarrow> \<exists>target k. move_target c rest = Inr target \<and> k \<le> length rest
        \<and> result_order_ids res = insert_at k x rest \<and> free k
        \<and> (\<forall>j\<le>length rest. free j \<longrightarrow> abs_diff k target \<le> abs_diff j target)"
    using out
  proof (elim disjE exE conjE)
    fix n t k
    assume k: "move_target c rest = Inr t" "k \<le> length rest" "free k"
      and near: "\<forall>j\<le>length rest. free j \<longrightarrow> (abs_diff k t, abs_diff k n) \<le> (abs_diff j t, abs_diff j n)"
      and res: "apply_move version st c = Inr \<lparr> result_order_ids = insert_at k x rest,
            result_version = version (st \<lparr> queue_order_ids := insert_at k x rest \<rparr>),
            result_adjusted = (insert_at k x rest \<noteq> insert_at t x rest), result_revision = None,
            result_event = map_option (\<lambda>d. \<lparr> delta_id = delta_id d, delta_before = delta_before d, delta_after = delta_after d,
                base_version = version st, next_version = version (st \<lparr> queue_order_ids := insert_at k x rest \<rparr>) \<rparr>)
              (compute_canonical_sequence_delta q (insert_at k x rest) x) \<rparr>"
    have "abs_diff k t \<le> abs_diff j t" if "j \<le> length rest" "free j" for j
      using near that by force
    then show ?thesis using k res by (simp add: exI [of _ k])
  qed auto
  then show ?thesis unfolding Let_def ds .
qed

definition sample_queue :: sequence_move_state where
  "sample_queue = from_visible ''apparatus:default:bosma_8'' [''d'', ''c'', ''b'', ''a''] [''a'', ''b'', ''c'']
     [(''b'', ''in_progress'')] [] []"

definition sample_move :: sequence_move where
  "sample_move = \<lparr> move_apparatus = ''apparatus:default:bosma_8'', move_order_id = ''d'', before_order_id = Some ''a'',
     after_order_id = None, expected_version = replicate 64 CHR ''0'', move_key = ''k'' \<rparr>"

lemma sample_moved:
  "map_sum id result_order_ids (apply_move (\<lambda>_. replicate 64 CHR ''0'') sample_queue sample_move) = Inr [''a'', ''b'', ''d'', ''c'']"
  by code_simp

lemma move_takes_nearest_slot_witness:
  "\<exists>k. [''a'', ''b'', ''d'', ''c''] = insert_at k ''d'' (filter (\<lambda>i. i \<noteq> ''d'') (queue_order_ids sample_queue))
     \<and> (\<forall>y\<in>running_in sample_queue. not_overtaken (queue_order_ids sample_queue) [''a'', ''b'', ''d'', ''c''] y)"
proof -
  have x: "move_order_id sample_move = ''d''" by (simp add: sample_move_def)
  obtain res where res: "apply_move (\<lambda>_. replicate 64 CHR ''0'') sample_queue sample_move = Inr res"
    "result_order_ids res = [''a'', ''b'', ''d'', ''c'']"
    using sample_moved by (cases "apply_move (\<lambda>_. replicate 64 CHR ''0'') sample_queue sample_move") auto
  then show ?thesis
    using move_takes_nearest_slot [OF sample_queue_def, where c = sample_move and version = "\<lambda>_. replicate 64 CHR ''0''"] x
    by (auto simp: Let_def)
qed

text \<open>C4: Clients follow the queue.  Over any sequence of move commands, failed, repeated and ineffective ones included, a client
  that starts from the queue of an apparatus and applies the committed events in order
  holds the queue the store shows in the end, and the versions of the events form a chain from the
  first to the last.\<close>

theorem clients_follow_moves:
  "case run_moves version ctx canonical cs st of (events, st') \<Rightarrow>
     fold (\<lambda>e q. apply_client_delta q (sequence_delta.truncate e)) events
       (queue_order_ids (queue_view ctx canonical st (source_apparatus_id (runtime_row canonical))))
       = queue_order_ids (queue_view ctx canonical st' (source_apparatus_id (runtime_row canonical)))
     \<and> chained (version (queue_view ctx canonical st (source_apparatus_id (runtime_row canonical)))) events
         (version (queue_view ctx canonical st' (source_apparatus_id (runtime_row canonical))))"
proof (induction cs arbitrary: st)
  case (Cons a cs)
  obtain actor c where a: "a = (actor, c)" by (cases a)
  obtain r st1 where move: "move_apparatus_sequence version ctx canonical actor c st = (r, st1)" by force
  obtain events st2 where rest: "run_moves version ctx canonical cs st1 = (events, st2)" by force
  show ?case
    using queue_move_step [OF move] Cons.IH [of st1]
    by (cases "committed_event st actor c r") (simp_all add: a move rest)
qed simp

end
