(* ===== verification/Route_Laws.thy ===== *)
theory Route_Laws
  imports Route_Chain Compiler_Laws
begin

text \<open>
  Correctness of the route: the shared search visits exactly the nodes its specification names,
  the work stages are the stations reachable from the start, and the physical stages before and
  after a stage are those met first on the way.
\<close>

section \<open>The search\<close>

text \<open>
  What a search may visit: where it starts, and the neighbours of the known nodes it expands.
\<close>

inductive_set route_reach ::
  "string set \<Rightarrow> (string \<Rightarrow> string list) \<Rightarrow> (string \<Rightarrow> bool) \<Rightarrow> string set \<Rightarrow> string set"
  for known neighbours expand starts where
  reach_start: "i \<in> starts \<Longrightarrow> i \<in> route_reach known neighbours expand starts"
| reach_step: "j \<in> route_reach known neighbours expand starts \<Longrightarrow> j \<in> known \<Longrightarrow> expand j
    \<Longrightarrow> i \<in> set (neighbours j) \<Longrightarrow> i \<in> route_reach known neighbours expand starts"

definition route_closed ::
  "string set \<Rightarrow> (string \<Rightarrow> string list) \<Rightarrow> (string \<Rightarrow> bool) \<Rightarrow> string set \<Rightarrow> string set \<Rightarrow> bool" where
  "route_closed known neighbours expand V W \<longleftrightarrow>
     (\<forall>j\<in>V. j \<in> known \<longrightarrow> expand j \<longrightarrow> set (neighbours j) \<subseteq> W)"

lemma route_reach_least:
  "starts \<subseteq> V \<Longrightarrow> route_closed known neighbours expand V V
     \<Longrightarrow> route_reach known neighbours expand starts \<subseteq> V"
proof
  fix i
  assume V: "starts \<subseteq> V" "route_closed known neighbours expand V V"
  assume "i \<in> route_reach known neighbours expand starts"
  then show "i \<in> V" using V by induction (auto simp: route_closed_def)
qed

lemma route_loop_visits:
  assumes "route_closed (set known) neighbours expand (set visited) (set visited \<union> set queue)"
    and "set visited \<union> set queue \<subseteq> T"
    and "route_closed (set known) neighbours expand T T"
  shows "distinct (route_loop known neighbours report expand visited queue) \<and>
    (\<exists>V. set visited \<union> set queue \<subseteq> V \<and> V \<subseteq> T \<and>
      route_closed (set known) neighbours expand V V \<and>
      set (route_loop known neighbours report expand visited queue) =
        {i \<in> V - set visited. i \<in> set known \<and> report i})"
  using assms
proof (induction known neighbours report expand visited queue rule: route_loop.induct)
  case (1 known neighbours report expand visited)
  then show ?case by (intro conjI exI [of _ "set visited"]) auto
next
  case (2 known neighbours report expand visited i queue)
  let ?queue = "if expand i then queue @ neighbours i else queue"
  consider (seen) "i \<in> set visited" | (unknown) "i \<notin> set visited" "i \<notin> set known"
    | (visit) "i \<notin> set visited" "\<not> i \<notin> set known" by blast
  then show ?case
  proof cases
    case seen
    moreover have "set visited \<union> set (i # queue) = set visited \<union> set queue" using seen by auto
    ultimately show ?thesis using 2(1) [OF seen] 2(4-6) by auto
  next
    case unknown
    then have eq: "set visited \<union> set (i # queue) = set (i # visited) \<union> set queue" by auto
    have "route_closed (set known) neighbours expand (set (i # visited)) (set (i # visited) \<union> set queue)"
      using 2(4) unknown(2) by (auto simp: route_closed_def)
    then obtain V where V: "set (i # visited) \<union> set queue \<subseteq> V" "V \<subseteq> T"
      "route_closed (set known) neighbours expand V V"
      "set (route_loop known neighbours report expand (i # visited) queue) =
        {j \<in> V - set (i # visited). j \<in> set known \<and> report j}"
      and d: "distinct (route_loop known neighbours report expand (i # visited) queue)"
      using 2(2) [OF unknown _ _ 2(6)] 2(5) unfolding eq by blast
    show ?thesis using unknown d V by (intro conjI exI [of _ V]) auto
  next
    case visit
    have step: "set (i # visited) \<union> set ?queue \<subseteq> T"
      using 2(5,6) visit(2) by (auto simp: route_closed_def)
    have "route_closed (set known) neighbours expand (set (i # visited)) (set (i # visited) \<union> set ?queue)"
      using 2(4) by (auto simp: route_closed_def)
    then obtain V where V: "set (i # visited) \<union> set ?queue \<subseteq> V" "V \<subseteq> T"
      "route_closed (set known) neighbours expand V V"
      "set (route_loop known neighbours report expand (i # visited) ?queue) =
        {j \<in> V - set (i # visited). j \<in> set known \<and> report j}"
      and d: "distinct (route_loop known neighbours report expand (i # visited) ?queue)"
      using 2(3) [OF visit _ step 2(6)] by blast
    have "set visited \<union> set (i # queue) \<subseteq> V" using V(1) by (auto split: if_splits)
    then show ?thesis using visit d V(2-4) by (intro conjI exI [of _ V]) auto
  qed
qed

lemma route_loop_correct:
  "distinct (route_loop known neighbours report expand [] queue)"
  "set (route_loop known neighbours report expand [] queue) =
     {i \<in> route_reach (set known) neighbours expand (set queue). i \<in> set known \<and> report i}"
proof -
  let ?T = "route_reach (set known) neighbours expand (set queue)"
  have T: "set queue \<subseteq> ?T" "route_closed (set known) neighbours expand ?T ?T"
    by (auto simp: route_closed_def intro: route_reach.intros)
  then obtain V where V: "set queue \<subseteq> V" "V \<subseteq> ?T" "route_closed (set known) neighbours expand V V"
    "set (route_loop known neighbours report expand [] queue) = {i \<in> V. i \<in> set known \<and> report i}"
    and d: "distinct (route_loop known neighbours report expand [] queue)"
    using route_loop_visits [of known neighbours expand "[]" queue ?T report]
    by (auto simp: route_closed_def)
  have "V = ?T" using route_reach_least [OF V(1,3)] V(2) by simp
  then show "distinct (route_loop known neighbours report expand [] queue)"
    "set (route_loop known neighbours report expand [] queue) =
       {i \<in> ?T. i \<in> set known \<and> report i}"
    using V(4) d by simp_all
qed

declare route_loop.simps [simp del]

section \<open>Nodes by identifier\<close>

lemma find_distinct_key:
  "distinct (map f xs) \<Longrightarrow> find (\<lambda>x. f x = k) xs = Some x \<longleftrightarrow> x \<in> set xs \<and> f x = k"
  by (induction xs) force+

lemma node_exact_iff:
  "well_formed m \<Longrightarrow> node_exact m i = Some n \<longleftrightarrow> n \<in> set (nodes m) \<and> node_id n = i"
  by (simp add: node_exact_def find_distinct_key well_formed_def node_ids_def)

lemma node_exact_known: "i \<in> set (map_node_ids m) \<longleftrightarrow> node_exact m i \<noteq> None"
  by (force simp: node_exact_def find_None_iff)

section \<open>Work stages\<close>

text \<open>The stage a node stands for by itself.\<close>

definition own_stage :: "production_map_node \<Rightarrow> chain_stage" where
  "own_stage n = \<lparr> stage_node_id = node_id n, stage_apparatus_id = canonical_apparatus_identity n,
     station_title = display_title n \<rparr>"

definition same_place :: "production_map_node \<Rightarrow> production_map_node \<Rightarrow> bool" where
  "same_place n c \<longleftrightarrow> c = n \<or>
     kind n = NkApparatus \<and> kind c = NkApparatus \<and> trim (alternative_group_id n) \<noteq> []
     \<and> trim (alternative_group_id c) = trim (alternative_group_id n)"

lemma candidate_stage:
  assumes "kind c = NkApparatus" "trim (alternative_group_id c) \<noteq> []" "is_valid (trim (apparatus_id c))"
  shows "own_stage c = \<lparr> stage_node_id = node_id c, stage_apparatus_id = Some (trim (apparatus_id c)),
    station_title = display_title c \<rparr>"
  using assms by (simp add: own_stage_def canonical_apparatus_identity_def station_identity_def)

lemma set_stages_for_node:
  assumes "n \<in> set (nodes m)"
  shows "set (stages_for_node m n) =
    (if kind n = NkApparatus then
       if canonical_apparatus_identity n = None then {}
       else own_stage ` {c \<in> set (nodes m). same_place n c \<and> canonical_apparatus_identity c \<noteq> None}
     else {own_stage n})"
proof (cases "kind n = NkApparatus \<and> canonical_apparatus_identity n \<noteq> None \<and>
    trim (alternative_group_id n) \<noteq> []")
  case True
  let ?g = "trim (alternative_group_id n)"
  let ?C = "{c \<in> set (nodes m). kind c = NkApparatus \<and> trim (alternative_group_id c) = ?g
    \<and> is_valid (trim (apparatus_id c))}"
  have "?C = {c \<in> set (nodes m). same_place n c \<and> canonical_apparatus_identity c \<noteq> None}"
    using True by (auto simp: same_place_def canonical_apparatus_identity_def station_identity_def)
  moreover have "set (stages_for_node m n) = own_stage ` ?C"
    using True candidate_stage
    by (auto simp: stages_for_node_def group_candidates_def is_unassigned_alternative_apparatus_def
        image_iff)
  ultimately show ?thesis using True by auto
next
  case False
  then have "{c \<in> set (nodes m). same_place n c \<and> canonical_apparatus_identity c \<noteq> None} = {n}"
    if "kind n = NkApparatus" "canonical_apparatus_identity n \<noteq> None"
    using that assms by (auto simp: same_place_def)
  then show ?thesis
    using False
    by (auto simp: stages_for_node_def is_unassigned_alternative_apparatus_def own_stage_def)
qed

lemma push_stages_result:
  assumes "inj_on occurrence_identity (set stages \<union> set ss)"
    and "set seen = occurrence_identity ` set stages"
    and "distinct (map occurrence_identity stages)"
  shows "set (fst (push_stages ss stages seen)) = set stages \<union> set ss \<and>
    set (snd (push_stages ss stages seen)) = occurrence_identity ` (set stages \<union> set ss) \<and>
    distinct (map occurrence_identity (fst (push_stages ss stages seen)))"
  using assms
proof (induction ss arbitrary: stages seen)
  case Nil
  then show ?case by simp
next
  case (Cons s ss)
  show ?case
  proof (cases "occurrence_identity s \<in> set seen")
    case True
    then have "s \<in> set stages" using Cons.prems(1,2) by (auto dest: inj_onD)
    moreover have "inj_on occurrence_identity (set stages \<union> set ss)"
      using Cons.prems(1) by (rule inj_on_subset) auto
    ultimately show ?thesis using Cons True by auto
  next
    case False
    have "inj_on occurrence_identity (set (stages @ [s]) \<union> set ss)"
      using Cons.prems(1) by (rule inj_on_subset) auto
    then show ?thesis
      using Cons.IH [of "stages @ [s]" "bs_insert (occurrence_identity s) seen"] Cons.prems(2,3) False
      by auto
  qed
qed

definition all_stages :: "production_map_definition \<Rightarrow> chain_stage set" where
  "all_stages m = (\<Union>n\<in>set (nodes m). set (stages_for_node m n))"

abbreviation physical_stage :: "chain_stage \<Rightarrow> bool" where
  "physical_stage s \<equiv> stage_apparatus_id s \<noteq> None"

lemma virtual_own_stage [simp]: "kind n \<noteq> NkApparatus \<Longrightarrow> stage_apparatus_id (own_stage n) = None"
  by (simp add: own_stage_def canonical_apparatus_identity_def)

lemma stages_for_node_own:
  "n \<in> set (nodes m) \<Longrightarrow> s \<in> set (stages_for_node m n)
     \<Longrightarrow> \<exists>c\<in>set (nodes m). s = own_stage c \<and> same_place n c"
  by (auto simp: set_stages_for_node same_place_def split: if_splits)

lemma all_stages_own: "s \<in> all_stages m \<Longrightarrow> \<exists>c\<in>set (nodes m). s = own_stage c"
  unfolding all_stages_def using stages_for_node_own by blast

lemma all_stages_inj:
  assumes "distinct (map (\<lambda>n. trim (node_id n)) (nodes m))"
  shows "inj_on occurrence_identity (all_stages m)"
proof (rule inj_onI)
  fix s s'
  assume "s \<in> all_stages m" "s' \<in> all_stages m" and eq: "occurrence_identity s = occurrence_identity s'"
  then obtain c c' where c: "c \<in> set (nodes m)" "s = own_stage c"
    and c': "c' \<in> set (nodes m)" "s' = own_stage c'"
    using all_stages_own by blast
  with eq have "trim (node_id c) = trim (node_id c')" by (simp add: occurrence_identity_def own_stage_def)
  moreover have "inj_on (\<lambda>n. trim (node_id n)) (set (nodes m))" using assms by (simp add: distinct_map)
  ultimately have "c = c'" using c(1) c'(1) by (metis (mono_tags, lifting) inj_onD)
  then show "s = s'" using c c' by simp
qed

lemma work_stage_apparatus: "kind n = NkApparatus \<Longrightarrow> is_work_stage n flag"
  by simp

declare is_work_stage.simps [simp del] stages_loop.simps [simp del]

lemma stages_loop_result:
  assumes wf: "distinct (node_ids m)"
    and inj: "inj_on occurrence_identity (all_stages m)"
    and "set stages \<subseteq> all_stages m" "set seen = occurrence_identity ` set stages"
    and "distinct (map occurrence_identity stages)"
  shows "distinct (map occurrence_identity (stages_loop m is stages seen flag)) \<and>
    set (stages_loop m is stages seen flag) \<subseteq> all_stages m \<and>
    {s \<in> set (stages_loop m is stages seen flag). physical_stage s} =
      {s. physical_stage s \<and> (s \<in> set stages \<or>
        (\<exists>n\<in>set (nodes m). node_id n \<in> set is \<and> s \<in> set (stages_for_node m n)))}"
  using assms(3-)
proof (induction "is" arbitrary: stages seen flag)
  case Nil
  then show ?case by (auto simp: stages_loop.simps)
next
  case (Cons i rest)
  note step = stages_loop.simps(2) [of m i rest stages seen flag]
  show ?case
  proof (cases "bt_get (node_by_id m) i")
    case None
    then have "n \<in> set (nodes m) \<Longrightarrow> node_id n \<noteq> i" for n
      using node_by_id_get [OF wf, of i n] by simp
    moreover have "stages_loop m (i # rest) stages seen flag = stages_loop m rest stages seen flag"
      using step None by simp
    ultimately show ?thesis using Cons.IH [OF Cons.prems, of flag] by auto
  next
    case (Some node)
    then have node: "node \<in> set (nodes m)" "node_id node = i"
      using node_by_id_get [OF wf, of i node] by simp_all
    have only: "n = node" if "n \<in> set (nodes m)" "node_id n = i" for n
      using node_by_id_get [OF wf, of i n] Some that by simp
    have here: "(\<exists>n\<in>set (nodes m). node_id n \<in> set (i # rest) \<and> s \<in> set (stages_for_node m n)) \<longleftrightarrow>
      s \<in> set (stages_for_node m node) \<or>
      (\<exists>n\<in>set (nodes m). node_id n \<in> set rest \<and> s \<in> set (stages_for_node m n))" for s
      using node by (auto dest: only)
    let ?new = "stages_for_node m node"
    have sub: "set stages \<union> set ?new \<subseteq> all_stages m"
      using Cons.prems(1) node(1) by (auto simp: all_stages_def)
    show ?thesis
    proof (cases "is_work_stage node flag")
      case True
      obtain stages' seen' where p: "push_stages ?new stages seen = (stages', seen')" by force
      obtain flag' where eq:
        "stages_loop m (i # rest) stages seen flag = stages_loop m rest stages' seen' flag'"
        using step Some True p by (simp add: Let_def)
      have new: "set stages' = set stages \<union> set ?new" "set seen' = occurrence_identity ` set stages'"
        "distinct (map occurrence_identity stages')"
        using push_stages_result [OF inj_on_subset [OF inj sub] Cons.prems(2,3)] p by simp_all
      then show ?thesis using Cons.IH [of stages' seen' flag'] sub unfolding eq here by auto
    next
      case False
      then have "kind node \<noteq> NkApparatus" using work_stage_apparatus by blast
      then have virtual: "s \<in> set ?new \<Longrightarrow> \<not> physical_stage s" for s
        using node(1) by (simp add: set_stages_for_node)
      obtain flag' where eq:
        "stages_loop m (i # rest) stages seen flag = stages_loop m rest stages seen flag'"
        using step Some False by simp
      show ?thesis using Cons.IH [OF Cons.prems, of flag'] virtual unfolding eq here by blast
    qed
  qed
qed

section \<open>The route as a relation\<close>

definition route_edges :: "production_map_definition \<Rightarrow> (string \<times> string) set" where
  "route_edges m = {(u, v). v \<in> set (route_successors m u)}"

lemma route_reach_rtrancl:
  assumes "\<And>j. set (neighbours j) \<noteq> {} \<Longrightarrow> j \<in> known"
  shows "route_reach known neighbours (\<lambda>_. True) starts = {(u, v). v \<in> set (neighbours u)}\<^sup>* `` starts"
    (is "?R = ?E\<^sup>* `` starts")
proof
  show "?R \<subseteq> ?E\<^sup>* `` starts"
  proof
    fix i assume "i \<in> ?R"
    then show "i \<in> ?E\<^sup>* `` starts"
      by induction (auto simp: Image_iff intro: rtrancl_into_rtrancl)
  qed
  show "?E\<^sup>* `` starts \<subseteq> ?R"
  proof
    fix i assume "i \<in> ?E\<^sup>* `` starts"
    then obtain s where "s \<in> starts" "(s, i) \<in> ?E\<^sup>*" by auto
    from this(2) show "i \<in> ?R"
    proof induction
      case base
      show ?case using \<open>s \<in> starts\<close> by (rule reach_start)
    next
      case (step y z)
      moreover have "y \<in> known" by (rule assms) (use step(2) in auto)
      ultimately show ?case by (auto intro: reach_step)
    qed
  qed
qed

definition start_ids :: "production_map_definition \<Rightarrow> string set" where
  "start_ids m = node_id ` {n. find (\<lambda>n. kind n = NkStart) (nodes m) = Some n}"

lemma reachable_node_ids_correct:
  "distinct (reachable_node_ids m)"
  "set (reachable_node_ids m) = (route_edges m)\<^sup>* `` start_ids m \<inter> set (map_node_ids m)"
proof -
  have "j \<in> set (map_node_ids m)" if "set (route_successors m j) \<noteq> {}" for j
    using that unfolding node_exact_known by (cases "node_exact m j") (auto simp: route_successors_def)
  then have reach: "route_reach (set (map_node_ids m)) (route_successors m) (\<lambda>_. True) starts =
      {(u, v). v \<in> set (route_successors m u)}\<^sup>* `` starts" for starts
    by (intro route_reach_rtrancl)
  show "distinct (reachable_node_ids m)"
    by (auto simp: reachable_node_ids_def route_loop_correct split: option.splits)
  show "set (reachable_node_ids m) = (route_edges m)\<^sup>* `` start_ids m \<inter> set (map_node_ids m)"
  proof (cases "find (\<lambda>n. kind n = NkStart) (nodes m)")
    case None
    then show ?thesis by (simp add: reachable_node_ids_def start_ids_def)
  next
    case (Some n)
    then have "start_ids m = set [node_id n]" by (simp add: start_ids_def)
    moreover have "set (reachable_node_ids m) =
        (route_edges m)\<^sup>* `` set [node_id n] \<inter> set (map_node_ids m)"
      unfolding reachable_node_ids_def Some option.case route_loop_correct(2) reach route_edges_def
      by (simp only: simp_thms Collect_conj_eq Collect_mem_eq)
    ultimately show ?thesis by simp
  qed
qed

section \<open>Normal maps\<close>

text \<open>
  The maps the store holds: normalised and validated.
\<close>

definition normal_map :: "production_map_definition \<Rightarrow> bool" where
  "normal_map m \<longleftrightarrow> normalize_map m = m \<and> validate_map m = Inr ()"

lemma normalize_map_parts:
  "nodes (normalize_map m) = map normalize_node (nodes m)"
  "edges (normalize_map m) = map normalize_edge (edges m)"
  by (simp_all add: normalize_map_def)

lemma normal_map_ids:
  assumes "normal_map m"
  shows "well_formed m"
    and "n \<in> set (nodes m) \<Longrightarrow> trim (node_id n) = node_id n"
    and "e \<in> set (edges m) \<Longrightarrow> trim (edge_from e) = edge_from e \<and> trim (edge_to e) = edge_to e"
    and "e \<in> set (edges m) \<Longrightarrow> edge_from e \<in> set (map_node_ids m) \<and> edge_to e \<in> set (map_node_ids m)"
proof -
  have "nodes m = map normalize_node (nodes m)" "edges m = map normalize_edge (edges m)"
    using assms normalize_map_parts [of m] by (simp_all add: normal_map_def)
  then have n: "set (nodes m) = normalize_node ` set (nodes m)"
    and e: "set (edges m) = normalize_edge ` set (edges m)"
    by (metis list.set_map)+
  show "well_formed m" using assms validated_map(1) by (auto simp: normal_map_def)
  then show "edge_from e \<in> set (map_node_ids m) \<and> edge_to e \<in> set (map_node_ids m)"
    if "e \<in> set (edges m)"
    using that by (force simp: well_formed_def edge_pairs_def node_ids_def)
  show "trim (node_id n) = node_id n" if "n \<in> set (nodes m)"
    using that by (subst (asm) n) (auto simp: normalize_node_def)
  show "trim (edge_from e) = edge_from e \<and> trim (edge_to e) = edge_to e" if "e \<in> set (edges m)"
    using that by (subst (asm) e) (auto simp: normalize_edge_def)
qed

lemma stage_trimmed:
  assumes "normal_map m" "s \<in> all_stages m"
  shows "trim (stage_node_id s) = stage_node_id s"
  using all_stages_own [OF assms(2)] normal_map_ids(2) [OF assms(1)] by (auto simp: own_stage_def)

lemma normal_map_stages:
  assumes "normal_map m"
  shows "distinct (map stage_node_id (linear_work_stages m))"
    and "set (linear_work_stages m) \<subseteq> all_stages m"
    and "{s \<in> set (linear_work_stages m). physical_stage s} =
      {s. physical_stage s \<and> (\<exists>n\<in>set (nodes m).
        node_id n \<in> set (reachable_node_ids m) \<and> s \<in> set (stages_for_node m n))}"
proof -
  have d: "distinct (node_ids m)" using normal_map_ids(1) [OF assms] by (simp add: well_formed_def)
  have "map (\<lambda>n. trim (node_id n)) (nodes m) = node_ids m"
    using normal_map_ids(2) [OF assms] by (simp add: node_ids_def)
  then have "inj_on occurrence_identity (all_stages m)" using d by (intro all_stages_inj) simp
  note result = stages_loop_result [OF d this, of "[]" "[]" "reachable_node_ids m" False]
  show sub: "set (linear_work_stages m) \<subseteq> all_stages m"
    using result by (simp add: linear_work_stages_def)
  have "occurrence_identity s = stage_node_id s" if "s \<in> set (linear_work_stages m)" for s
    using sub that stage_trimmed [OF assms] by (auto simp: occurrence_identity_def)
  then have "map occurrence_identity (linear_work_stages m) = map stage_node_id (linear_work_stages m)"
    by simp
  moreover have "distinct (map occurrence_identity (linear_work_stages m))"
    using result by (simp add: linear_work_stages_def)
  ultimately show "distinct (map stage_node_id (linear_work_stages m))" by metis
  show "{s \<in> set (linear_work_stages m). physical_stage s} =
      {s. physical_stage s \<and> (\<exists>n\<in>set (nodes m).
        node_id n \<in> set (reachable_node_ids m) \<and> s \<in> set (stages_for_node m n))}"
    using result by (simp add: linear_work_stages_def)
qed

section \<open>Stages next to a stage\<close>

lemma physical_by_node_get:
  assumes "distinct (map stage_node_id stages)"
  shows "bt_get (physical_by_node stages) i = Some s \<longleftrightarrow>
    s \<in> set stages \<and> physical_stage s \<and> stage_node_id s = i"
proof -
  let ?kvs = "map (\<lambda>s. (stage_node_id s, s)) (filter physical_stage stages)"
  have "distinct (map fst ?kvs)" using assms by (simp add: comp_def distinct_map_filter)
  then show ?thesis by (auto simp: physical_by_node_def bt_get_collect_distinct map_of_eq_Some_iff)
qed

text \<open>A search passes a node that is neither terminal nor a physical stage.\<close>

definition passes :: "production_map_definition \<Rightarrow> chain_stage list \<Rightarrow> string \<Rightarrow> bool" where
  "passes m stages i \<longleftrightarrow> \<not> is_terminal_at m i \<and> bt_get (physical_by_node stages) i = None"

definition meets :: "production_map_definition \<Rightarrow> bool \<Rightarrow> string \<Rightarrow> string set" where
  "meets m previous i = route_reach (set (map_node_ids m)) (route_neighbours m previous)
     (passes m (linear_work_stages m)) (set (route_neighbours m previous i))"

lemma physical_stage_node:
  assumes "normal_map m" "s \<in> set (linear_work_stages m)" "physical_stage s"
  shows "stage_node_id s \<in> set (map_node_ids m)" "\<not> is_terminal_at m (stage_node_id s)"
proof -
  obtain c where c: "c \<in> set (nodes m)" "s = own_stage c"
    using assms(2) normal_map_stages(2) [OF assms(1)] all_stages_own by blast
  have k: "kind c = NkApparatus" by (rule ccontr) (use assms(3) c(2) in simp)
  show "stage_node_id s \<in> set (map_node_ids m)" using c(1) unfolding c(2) by (simp add: own_stage_def)
  have "node_exact m (node_id c) = Some c"
    using c(1) node_exact_iff [OF normal_map_ids(1) [OF assms(1)]] by simp
  then show "\<not> is_terminal_at m (stage_node_id s)"
    using k unfolding c(2) by (simp add: is_terminal_at_def kind_at_def own_stage_def)
qed

lemma set_adjacent_stages:
  assumes "normal_map m"
  shows "set (adjacent_physical_stages_for_node m i previous) =
    {s \<in> set (linear_work_stages m). physical_stage s \<and> stage_node_id s \<in> meets m previous (trim i)
      \<and> (\<exists>t\<in>set (linear_work_stages m). stage_node_id t = trim i)}"
proof -
  let ?L = "linear_work_stages m"
  note get = physical_by_node_get [OF normal_map_stages(1) [OF assms]]
  have here: "list_ex (\<lambda>t. trim (stage_node_id t) = trim i) ?L \<longleftrightarrow>
      (\<exists>t\<in>set ?L. stage_node_id t = trim i)"
    unfolding list_ex_iff using stage_trimmed [OF assms] normal_map_stages(2) [OF assms]
    by (metis subsetD)
  let ?get = "bt_get (physical_by_node ?L)"
  let ?found = "route_loop (map_node_ids m) (route_neighbours m previous)
    (\<lambda>j. \<not> is_terminal_at m j \<and> ?get j \<noteq> None) (\<lambda>j. \<not> is_terminal_at m j \<and> ?get j = None)
    [] (route_neighbours m previous (trim i))"
  have found: "set ?found =
      {j \<in> meets m previous (trim i). j \<in> set (map_node_ids m) \<and> \<not> is_terminal_at m j \<and> ?get j \<noteq> None}"
    unfolding route_loop_correct(2) meets_def passes_def by (rule refl)
  have "adjacent_physical_stages_for_node m i previous =
      (if \<exists>t\<in>set ?L. stage_node_id t = trim i then filter_map ?get ?found else [])"
    unfolding adjacent_physical_stages_for_node_def adjacent_physical_stages_for_node_with_stages_def
      here Let_def by (simp only: if_not_P split: if_split) blast
  moreover have "set (filter_map ?get ?found) =
      {s \<in> set ?L. physical_stage s \<and> stage_node_id s \<in> meets m previous (trim i)}"
  proof (rule set_eqI)
    fix s
    have "s \<in> set (filter_map ?get ?found) \<longleftrightarrow> (\<exists>j. ?get j = Some s \<and> j \<in> meets m previous (trim i)
        \<and> j \<in> set (map_node_ids m) \<and> \<not> is_terminal_at m j)"
      unfolding set_filter_map found by blast
    also have "\<dots> \<longleftrightarrow> s \<in> set ?L \<and> physical_stage s \<and> stage_node_id s \<in> meets m previous (trim i)"
      unfolding get using physical_stage_node [OF assms, of s] by blast
    finally show "s \<in> set (filter_map ?get ?found) \<longleftrightarrow>
        s \<in> {s \<in> set ?L. physical_stage s \<and> stage_node_id s \<in> meets m previous (trim i)}"
      unfolding mem_Collect_eq .
  qed
  ultimately show ?thesis by auto
qed

section \<open>Forwards and backwards\<close>

lemma route_reach_mono:
  "starts \<subseteq> route_reach known neighbours expand starts'
     \<Longrightarrow> route_reach known neighbours expand starts \<subseteq> route_reach known neighbours expand starts'"
  by (rule route_reach_least) (auto simp: route_closed_def intro: reach_step)

lemma route_reach_opposite:
  assumes opposite: "\<And>u v. u \<in> known \<Longrightarrow> v \<in> known \<Longrightarrow> v \<in> set (f u) \<Longrightarrow> u \<in> set (g v)"
    and inside: "\<And>u. set (f u) \<subseteq> known"
    and "b \<in> route_reach known f expand (set (f a))" "a \<in> known"
  shows "a \<in> route_reach known g expand (set (g b))"
  using assms(3)
proof induction
  case (reach_start i)
  then show ?case using opposite inside assms(4) by (blast intro: route_reach.reach_start)
next
  case (reach_step j i)
  have "j \<in> set (g i)" using reach_step opposite inside by blast
  then have "set (g j) \<subseteq> route_reach known g expand (set (g i))"
    using reach_step(2,3) by (blast intro: route_reach.intros)
  then show ?case using route_reach_mono reach_step.IH by blast
qed

text \<open>No apparatus of the map belongs to an alternative group.\<close>

definition ungrouped :: "production_map_definition \<Rightarrow> bool" where
  "ungrouped m = list_all (\<lambda>n. kind n = NkApparatus \<longrightarrow> trim (alternative_group_id n) = []) (nodes m)"

lemma ungrouped_matches:
  assumes "ungrouped m"
  shows "route_matches m i c \<longleftrightarrow> i \<noteq> [] \<and> trim c = i"
proof -
  have "n \<in> set (nodes m)" if "node_trimmed m i = Some n" for n
    using that by (auto simp: node_trimmed_def find_Some_iff)
  then have "\<not> route_node_has_aliases m i"
    using assms by (fastforce simp: route_node_has_aliases_def ungrouped_def list_all_iff split: option.splits)
  then show ?thesis by (auto simp: route_matches_def)
qed

definition route_link :: "production_map_definition \<Rightarrow> string \<Rightarrow> string \<Rightarrow> bool" where
  "route_link m u v \<longleftrightarrow> (u = v \<longrightarrow> u = []) \<and>
     (\<exists>e\<in>set (edges m). edge_from e = u \<and> edge_to e = v \<and>
        (\<exists>n. node_exact m u = Some n \<and> route_edge_allowed n e))"

lemma ungrouped_neighbours:
  assumes "normal_map m" "ungrouped m" "trim i = i"
  shows "v \<in> set (route_successors m i) \<longleftrightarrow> route_link m i v"
    and "u \<in> set (route_predecessors m i) \<longleftrightarrow> route_link m u i"
proof -
  have trimmed: "trim (edge_from e) = edge_from e" "trim (edge_to e) = edge_to e"
    if "e \<in> set (edges m)" for e
    using that normal_map_ids(3) [OF assms(1)] by auto
  show "v \<in> set (route_successors m i) \<longleftrightarrow> route_link m i v"
    using trimmed assms(3)
    by (cases "node_exact m i")
      (auto simp: route_successors_def route_link_def ungrouped_matches [OF assms(2)])
  show "u \<in> set (route_predecessors m i) \<longleftrightarrow> route_link m u i"
    using trimmed assms(3)
    by (auto simp: route_predecessors_def route_link_def ungrouped_matches [OF assms(2)]
        split: option.splits) blast+
qed

lemma neighbours_known:
  assumes "normal_map m"
  shows "set (route_neighbours m previous i) \<subseteq> set (map_node_ids m)"
  using normal_map_ids(4) [OF assms]
  by (cases "node_exact m i")
    (auto simp: route_neighbours_def route_successors_def route_predecessors_def)

lemma known_trimmed: "normal_map m \<Longrightarrow> i \<in> set (map_node_ids m) \<Longrightarrow> trim i = i"
  using normal_map_ids(2) by auto

lemma meets_opposite:
  assumes "normal_map m" "ungrouped m" "a \<in> set (map_node_ids m)" "b \<in> meets m previous a"
  shows "a \<in> meets m (\<not> previous) b"
  using assms(4,3) unfolding meets_def
proof (rule route_reach_opposite [rotated 2])
  fix u v
  assume "u \<in> set (map_node_ids m)" "v \<in> set (map_node_ids m)"
    and "v \<in> set (route_neighbours m previous u)"
  then show "u \<in> set (route_neighbours m (\<not> previous) v)"
    using ungrouped_neighbours [OF assms(1,2) known_trimmed [OF assms(1)]]
    by (auto simp: route_neighbours_def split: if_splits)
qed (rule neighbours_known [OF assms(1)])

section \<open>A sample route\<close>

definition route_sample :: production_map_definition where
  "route_sample = sample_map \<lparr>
     nodes := [sample_node ''s'' NkStart,
       (sample_node ''p'' NkApparatus) \<lparr> apparatus_id := ''apparatus:default:bosma_7'' \<rparr>,
       sample_node ''t'' NkTask,
       (sample_node ''l'' NkApparatus) \<lparr> apparatus_id := ''apparatus:default:laminat_1'' \<rparr>,
       sample_node ''e'' NkEnd],
     edges := [sample_edge ''s'' ''p'' [], sample_edge ''p'' ''t'' [], sample_edge ''t'' ''l'' [],
       sample_edge ''l'' ''e'' []] \<rparr>"

definition print_stage :: chain_stage where
  "print_stage = \<lparr> stage_node_id = ''p'', stage_apparatus_id = Some ''apparatus:default:bosma_7'',
     station_title = ''p'' \<rparr>"

definition laminate_stage :: chain_stage where
  "laminate_stage = \<lparr> stage_node_id = ''l'', stage_apparatus_id = Some ''apparatus:default:laminat_1'',
     station_title = ''l'' \<rparr>"

lemma route_sample_normal: "normal_map route_sample"
  by code_simp

lemma route_sample_ungrouped: "ungrouped route_sample"
  by code_simp

lemma route_sample_stages:
  "linear_work_stages route_sample =
     [print_stage, \<lparr> stage_node_id = ''t'', stage_apparatus_id = None, station_title = ''t'' \<rparr>,
      laminate_stage]"
  by code_simp

lemma route_sample_next: "next_work_stages_for_node route_sample ''p'' = [laminate_stage]"
  by code_simp

section \<open>Properties\<close>

lemma work_stages_route:
  assumes "normal_map m"
  shows "distinct (map stage_node_id (linear_work_stages m)) \<and>
    (\<forall>s. s \<in> set (linear_work_stages m) \<and> stage_apparatus_id s \<noteq> None \<longleftrightarrow>
      (\<exists>n\<in>set (nodes m). \<exists>c\<in>set (nodes m). node_id n \<in> (route_edges m)\<^sup>* `` start_ids m \<and>
        canonical_apparatus_identity n \<noteq> None \<and> same_place n c \<and>
        canonical_apparatus_identity c \<noteq> None \<and> s = own_stage c))"
proof (intro conjI allI)
  show "distinct (map stage_node_id (linear_work_stages m))"
    by (rule normal_map_stages(1) [OF assms])
  have apparatus: "canonical_apparatus_identity n \<noteq> None \<Longrightarrow> kind n = NkApparatus" for n
    by (auto simp: canonical_apparatus_identity_def split: if_splits)
  have identity: "stage_apparatus_id (own_stage n) = canonical_apparatus_identity n" for n
    by (simp add: own_stage_def)
  fix s
  have "s \<in> set (linear_work_stages m) \<and> stage_apparatus_id s \<noteq> None \<longleftrightarrow>
      (\<exists>n\<in>set (nodes m). node_id n \<in> set (reachable_node_ids m) \<and> physical_stage s
        \<and> s \<in> set (stages_for_node m n))"
    using normal_map_stages(3) [OF assms] by blast
  also have "\<dots> \<longleftrightarrow> (\<exists>n\<in>set (nodes m). \<exists>c\<in>set (nodes m). node_id n \<in> set (reachable_node_ids m) \<and>
        canonical_apparatus_identity n \<noteq> None \<and> same_place n c \<and>
        canonical_apparatus_identity c \<noteq> None \<and> s = own_stage c)"
    using apparatus identity by (intro bex_cong refl) (auto simp: set_stages_for_node)
  finally show "s \<in> set (linear_work_stages m) \<and> stage_apparatus_id s \<noteq> None \<longleftrightarrow>
      (\<exists>n\<in>set (nodes m). \<exists>c\<in>set (nodes m). node_id n \<in> (route_edges m)\<^sup>* `` start_ids m \<and>
        canonical_apparatus_identity n \<noteq> None \<and> same_place n c \<and>
        canonical_apparatus_identity c \<noteq> None \<and> s = own_stage c)"
    unfolding reachable_node_ids_correct(2) by auto
qed

text \<open>C21: The work stages of a stored map.  No node occurs twice among them, and the physical ones are
  exactly the apparatus with a canonical identity that stand on the route from the start or are
  interchangeable with one that does.\<close>

theorem work_stages_correct:
  assumes "normal_map m"
  shows "distinct (map stage_node_id (linear_work_stages m)) \<and>
    (\<forall>s. s \<in> set (linear_work_stages m) \<and> stage_apparatus_id s \<noteq> None \<longleftrightarrow>
      (\<exists>n\<in>set (nodes m). \<exists>c\<in>set (nodes m). node_id n \<in> (route_edges m)\<^sup>* `` start_ids m \<and>
        canonical_apparatus_identity n \<noteq> None \<and> same_place n c \<and>
        canonical_apparatus_identity c \<noteq> None \<and> s = own_stage c))"
  by (rule work_stages_route [OF assms])

theorem work_stages_correct_witness:
  "normal_map route_sample \<and> print_stage \<in> set (linear_work_stages route_sample) \<and>
   distinct (map stage_node_id (linear_work_stages route_sample)) \<and>
   (\<exists>n\<in>set (nodes route_sample). node_id n \<in> (route_edges route_sample)\<^sup>* `` start_ids route_sample \<and>
     canonical_apparatus_identity n \<noteq> None)"
proof -
  have "print_stage \<in> set (linear_work_stages route_sample) \<and> stage_apparatus_id print_stage \<noteq> None"
    by (simp add: route_sample_stages print_stage_def)
  then show ?thesis
    using work_stages_correct [OF route_sample_normal] route_sample_normal by blast
qed

text \<open>C22: The physical stages found next to an occurrence of a stored map, in either direction, are
  exactly the physical work stages that the route meets first: it leaves the occurrence and passes
  only nodes that are neither terminal nor physical stages.  Nothing is found next to a node that
  is no work stage.\<close>

theorem adjacent_stages_correct:
  assumes "normal_map m"
  shows "set (adjacent_physical_stages_for_node m i previous) =
    (if trim i \<in> stage_node_id ` set (linear_work_stages m)
     then {s \<in> set (linear_work_stages m). stage_apparatus_id s \<noteq> None \<and>
       stage_node_id s \<in> meets m previous (trim i)}
     else {})"
  unfolding set_adjacent_stages [OF assms] by (auto dest: sym)

theorem adjacent_stages_correct_witness:
  "normal_map route_sample \<and> laminate_stage \<in> set (next_work_stages_for_node route_sample ''p'') \<and>
   ''l'' \<in> meets route_sample False ''p''"
proof -
  have p: "trim ''p'' = ''p''" by code_simp
  have l: "laminate_stage \<in> set (adjacent_physical_stages_for_node route_sample ''p'' False)"
    using route_sample_next by (simp add: next_work_stages_for_node_def)
  then have "stage_node_id laminate_stage \<in> meets route_sample False ''p''"
    unfolding adjacent_stages_correct [OF route_sample_normal] p by (simp split: if_splits)
  then show ?thesis
    using l route_sample_normal by (simp add: next_work_stages_for_node_def laminate_stage_def)
qed



end
