(* ===== verification/Queue_Order_Laws.thy ===== *)
theory Queue_Order_Laws
  imports Queue_Moves Queue_Laws Route_Laws
begin

text \<open>
  The orders in the queue of an apparatus are those whose route leads over it; reading them from cached
  projections gives the same orders.
\<close>

section \<open>Stages of an apparatus\<close>

lemma task_identity_invalid: "is_valid a \<Longrightarrow> task_stage_identity i \<noteq> a"
  by (auto simp: is_valid_def validate_shape_def task_stage_identity_def starts_with_def apparatus_id_prefix_def
      split: if_splits)

lemma stage_on_apparatus: "is_valid a \<Longrightarrow> stage_identity s = a \<longleftrightarrow> stage_apparatus_id s = Some a"
  using task_identity_invalid by (auto simp: stage_identity_def split: option.splits)

lemma has_stage_on_apparatus:
  "is_valid a \<Longrightarrow> map_has_work_stage_for_station m a \<longleftrightarrow> (\<exists>s\<in>set (linear_work_stages m). stage_apparatus_id s = Some a)"
  by (simp add: map_has_work_stage_for_station_def list_ex_iff is_valid_trim stage_on_apparatus)

section \<open>Orders\<close>

lemma visible_orders:
  assumes "is_valid a"
  shows "visible_order_ids_for_apparatus maps a = map (\<lambda>m. trim (map_id m))
    (filter (\<lambda>m. trim (map_id m) \<noteq> [] \<and> \<not> is_template_map m
      \<and> (\<exists>s\<in>set (linear_work_stages m). stage_apparatus_id s = Some a)) maps)"
  using assms
  by (simp add: visible_order_ids_for_apparatus_def is_valid_trim has_stage_on_apparatus filter_map o_def conj_commute conj_left_commute)

lemma projected_orders_agree:
  assumes "\<forall>p\<in>set ps. projection_ok p" "is_valid a"
  shows "fst (projected_orders a ps) = visible_order_ids_for_apparatus (map projected ps) a"
    "map projected (snd (projected_orders a ps)) = map projected ps"
proof -
  have "fst (projected_orders a ps) = visible_order_ids_for_apparatus (map projected ps) a
      \<and> map projected (snd (projected_orders a ps)) = map projected ps"
    using assms(1)
  proof (induction ps)
    case (Cons p ps)
    obtain stages p' where p': "projection_stages p = (stages, p')" by force
    have "serves (projected p) (is_cached p) (linear_work_stages (projected p)) (projection_stages p)"
      using Cons.prems by (intro serves_stages) simp
    then have st: "stages = linear_work_stages (projected p)" "projected p' = projected p" by (simp_all add: serves_def p')
    obtain orders ps' where rest: "projected_orders a ps = (orders, ps')" by force
    have IH: "orders = visible_order_ids_for_apparatus (map projected ps) a" "map projected ps' = map projected ps"
      using Cons by (simp_all add: rest)
    have vis: "visible_order_ids_for_apparatus (map projected (p # ps)) a =
        (if trim (map_id (projected p)) \<noteq> [] \<and> \<not> is_template_map (projected p)
            \<and> (\<exists>s\<in>set (linear_work_stages (projected p)). stage_apparatus_id s = Some a)
         then [trim (map_id (projected p))] else []) @ visible_order_ids_for_apparatus (map projected ps) a"
      by (simp add: visible_orders [OF assms(2)])
    show ?case
      unfolding vis by (cases "is_template_map (projected p)") (simp_all add: p' st rest IH list_ex_iff)
  qed (simp add: visible_orders assms(2))
  then show "fst (projected_orders a ps) = visible_order_ids_for_apparatus (map projected ps) a"
    "map projected (snd (projected_orders a ps)) = map projected ps" by simp_all
qed

lemma selected_orders_agree:
  assumes "\<forall>p\<in>set ps. projection_ok p" "is_valid (source_apparatus_id (runtime_row c))"
  shows "fst (selected_order_ids_for_projection ps c) = selected_order_ids_for_apparatus (map projected ps) c"
  using projected_orders_agree [OF assms]
  by (auto simp: selected_order_ids_for_projection_def selected_order_ids_for_apparatus_def retain_selected_print_orders_def
      split: prod.splits)

text \<open>The queue of an apparatus.\<close>

definition on_route :: "string \<Rightarrow> production_map_definition \<Rightarrow> bool" where
  "on_route a m \<longleftrightarrow>
     (\<exists>n\<in>set (nodes m). \<exists>k\<in>set (nodes m). node_id n \<in> (route_edges m)\<^sup>* `` start_ids m
        \<and> canonical_apparatus_identity n \<noteq> None \<and> same_place n k \<and> canonical_apparatus_identity k = Some a)"

lemma on_route_stage:
  assumes "normal_map m"
  shows "(\<exists>s\<in>set (linear_work_stages m). stage_apparatus_id s = Some a) \<longleftrightarrow> on_route a m"
proof -
  note stages = conjunct2 [OF work_stages_route [OF assms], rule_format]
  have own: "stage_apparatus_id (own_stage k) = canonical_apparatus_identity k" for k by (simp add: own_stage_def)
  have "(\<exists>s\<in>set (linear_work_stages m). stage_apparatus_id s = Some a) \<longleftrightarrow>
      (\<exists>s. (s \<in> set (linear_work_stages m) \<and> stage_apparatus_id s \<noteq> None) \<and> stage_apparatus_id s = Some a)" by auto
  also have "\<dots> \<longleftrightarrow> on_route a m" unfolding stages on_route_def by (force simp: own)
  finally show ?thesis .
qed

lemma queue_members:
  fixes c :: runtime_apparatus_configuration
  assumes maps: "\<forall>m\<in>set maps. normal_map m" and a: "a = source_apparatus_id (runtime_row c)" "is_valid a"
  shows "i \<in> set (queue_order_ids (from_data c maps stored raw frozen preflight)) \<longleftrightarrow>
    (\<exists>m\<in>set maps. i = trim (map_id m) \<and> i \<noteq> [] \<and> \<not> is_template_map m \<and> on_route a m)
    \<and> (is_print_apparatus c \<longrightarrow> allowed_by_print maps c i) \<and> i \<notin> set frozen \<and> bt_get raw i \<noteq> Some ''frozen''"
proof -
  let ?v = "selected_order_ids_for_apparatus maps c"
  let ?f = "filter (\<lambda>i. i \<in> set frozen \<or> bt_get raw i = Some ''frozen'') ?v"
  have stage: "(\<exists>s\<in>set (linear_work_stages m). stage_apparatus_id s = Some a) \<longleftrightarrow> on_route a m" if "m \<in> set maps" for m
    using on_route_stage maps that by blast
  have sel: "j \<in> set ?v \<longleftrightarrow> (\<exists>m\<in>set maps. j = trim (map_id m) \<and> j \<noteq> [] \<and> \<not> is_template_map m \<and> on_route a m)
      \<and> (is_print_apparatus c \<longrightarrow> allowed_by_print maps c j)" for j
    unfolding selected_order_ids_for_apparatus_def retain_selected_print_orders_def a(1) [symmetric] visible_orders [OF a(2)]
    using stage by auto
  have trimmed: "trim j = j \<and> j \<noteq> []" if "j \<in> set ?v" for j using that unfolding sel by auto
  have "set (trimmed_ids ?v) = set ?v" "set (trimmed_ids (bs_collect ?f)) = set ?f"
    using trimmed by (force simp: trimmed_ids_def)+
  then have "set (queue_order_ids (from_data c maps stored raw frozen preflight)) = set ?v - set ?f"
    unfolding from_data_def from_visible_def Let_def sequence_move_state.simps effective_sequence_split
    by (auto simp: visible_ids_def)
  then have "i \<in> set (queue_order_ids (from_data c maps stored raw frozen preflight)) \<longleftrightarrow>
      i \<in> set ?v \<and> i \<notin> set frozen \<and> bt_get raw i \<noteq> Some ''frozen''" by auto
  then show ?thesis unfolding sel by blast
qed

end
