(* ===== verification/Capacity.thy ===== *)
theory Capacity
  imports Run_Session Route_Chain Apparatus_Projection "HOL-Library.Signed_Division"
begin

text \<open>
  Capacity of apparatus: profiles, downtimes, reservations and the scheduler
  (\<^verbatim>\<open>capacity/mod.rs\<close>, \<^verbatim>\<open>capacity/scheduler.rs\<close>) and the store of reservations
  (\<^verbatim>\<open>capacity/memory_store.rs\<close>).  Times are Unix seconds in 64-bit integers that wrap, as in a
  release build.  The calendar of the \<^verbatim>\<open>time\<close> library is the parameter \<open>civil\<close>: weekday (Monday is
  one), hour and minute of a time stamp, or nothing when the library has no date for it.
\<close>

section \<open>Data\<close>

record capacity_profile =
  profile_apparatus_id :: string
  profile_apparatus :: string
  capacity_slots :: nat
  setup_minutes :: nat
  cleanup_minutes :: nat
  efficiency_percent :: nat
  finite_capacity :: bool
  working_windows :: "working_window list"
  capabilities :: "string list"
  capability_levels :: "(string, nat) btree_map"
  profile_notes :: string
  profile_updated_at_unix :: int

record capability_requirement =
  requirement_code :: string
  min_level :: nat

definition normalized_codes_equal :: "string \<Rightarrow> string \<Rightarrow> bool" where
  "normalized_codes_equal left right = eq_ignore_ascii_case (trim left) (trim right)"

definition capability_level :: "capacity_profile \<Rightarrow> string \<Rightarrow> nat" where
  "capability_level p code =
     (case find (\<lambda>(key, _). normalized_codes_equal key code) (capability_levels p) of
        Some (_, level) \<Rightarrow> level
      | None \<Rightarrow> if list_ex (\<lambda>item. normalized_codes_equal item code) (capabilities p) then 1 else 0)"

definition profile_supports :: "capacity_profile \<Rightarrow> capability_requirement list \<Rightarrow> bool" where
  "profile_supports p requirements =
     list_all (\<lambda>r. min_level r \<le> capability_level p (requirement_code r)) requirements"

record downtime =
  downtime_id :: string
  downtime_apparatus_id :: string
  downtime_apparatus :: string
  downtime_starts_at :: int
  downtime_ends_at :: int
  downtime_reason :: string
  downtime_active :: bool
  downtime_actor :: queue_action_actor
  downtime_created_at :: int

datatype schedule_status = SchPlanned | SchActive | SchPaused | SchCompleted | SchCancelled

definition parse_schedule_status :: "string \<Rightarrow> schedule_status option" where
  "parse_schedule_status v =
     (let v = trim v in
      if eq_ignore_ascii_case v ''planned'' then Some SchPlanned
      else if eq_ignore_ascii_case v ''active'' then Some SchActive
      else if eq_ignore_ascii_case v ''paused'' then Some SchPaused
      else if eq_ignore_ascii_case v ''completed'' then Some SchCompleted
      else if eq_ignore_ascii_case v ''cancelled'' then Some SchCancelled
      else None)"

fun schedule_status_as_str :: "schedule_status \<Rightarrow> string" where
  "schedule_status_as_str SchPlanned = ''planned''"
| "schedule_status_as_str SchActive = ''active''"
| "schedule_status_as_str SchPaused = ''paused''"
| "schedule_status_as_str SchCompleted = ''completed''"
| "schedule_status_as_str SchCancelled = ''cancelled''"

fun reserves_capacity :: "schedule_status \<Rightarrow> bool" where
  "reserves_capacity SchPlanned = True"
| "reserves_capacity SchActive = True"
| "reserves_capacity _ = False"

record reservation =
  reservation_id :: string
  reservation_key :: string
  reservation_order_id :: string
  reservation_apparatus_id :: string
  reservation_apparatus :: string
  starts_at_unix :: int
  ends_at_unix :: int
  requested_duration_minutes :: nat
  reserved_duration_minutes :: nat
  schedule_status_of :: schedule_status
  reservation_priority :: int
  reservation_source :: string
  reservation_reason :: string
  reservation_requirements :: "capability_requirement list"
  reservation_actor :: queue_action_actor
  reservation_created_at :: int

record schedule_candidate =
  candidate_apparatus_id :: string
  candidate_apparatus :: string

record schedule_request =
  request_order_id :: string
  request_apparatus_id :: string
  request_apparatus :: string
  earliest_start_unix :: int
  latest_end_unix :: "int option"
  duration_minutes :: nat
  request_priority :: int
  request_source :: string
  request_reason :: string
  idempotency_key :: string
  capability_requirements :: "capability_requirement list"
  candidate_apparatuses :: "schedule_candidate list"
  request_actor :: queue_action_actor

record cancel_request =
  cancel_reservation_id :: string
  cancel_reason :: string
  cancel_actor :: queue_action_actor

section \<open>The scheduler\<close>

definition candidate_allowed_for_order :: "production_map_definition \<Rightarrow> string \<Rightarrow> string \<Rightarrow> bool" where
  "candidate_allowed_for_order m source candidate \<longleftrightarrow>
     list_ex (\<lambda>n. kind n = NkApparatus \<and> trim (apparatus_id n) = source) (nodes m)
     \<and> list_ex (\<lambda>n. kind n = NkApparatus \<and> trim (apparatus_id n) = candidate) (nodes m)"

text \<open>\<^verbatim>\<open>div_ceil\<close> panics on a zero divisor; the sums are far below the range of \<^verbatim>\<open>u64\<close>.\<close>

definition u64_max :: int where
  "u64_max = 18446744073709551615"

definition u32_max :: int where
  "u32_max = 4294967295"

definition effective_duration_minutes :: "capacity_profile \<Rightarrow> nat \<Rightarrow> int pm_result" where
  "effective_duration_minutes p duration =
     (if efficiency_percent p = 0 then Inl Panic
      else
        let efficiency = int (efficiency_percent p);
            run = (int duration * 100 + efficiency - 1) div efficiency;
            total = min u64_max (run + int (setup_minutes p));
            total = min u64_max (total + int (cleanup_minutes p)) in
        if total \<le> u32_max then Inr total else Inl (Err ScheduleInputInvalid))"

definition active_session_reservation :: "'j order_run_session \<Rightarrow> reservation" where
  "active_session_reservation s =
     \<lparr> reservation_id = ''active-session:'' @ trim (session_id s),
       reservation_key = ''active-session:'' @ trim (session_id s),
       reservation_order_id = trim (session_order_id s),
       reservation_apparatus_id = trim (session_apparatus s),
       reservation_apparatus = trim (session_apparatus s),
       starts_at_unix = max (started_at_unix s) 60,
       ends_at_unix = i64_max,
       requested_duration_minutes = 1,
       reserved_duration_minutes = 1,
       schedule_status_of = SchActive,
       reservation_priority = 2147483647,
       reservation_source = ''active_run_session'',
       reservation_reason = ''active execution without a schedule reservation'',
       reservation_requirements = [],
       reservation_actor =
         \<lparr> actor_role = worker_role s, actor_ref = worker_ref s,
           actor_display_name = worker_display_name s \<rparr>,
       reservation_created_at = started_at_unix s \<rparr>"

definition holds_active :: "'j order_run_session \<Rightarrow> reservation \<Rightarrow> bool" where
  "holds_active s r \<longleftrightarrow> schedule_status_of r = SchActive
     \<and> trim (reservation_order_id r) = trim (session_order_id s)
     \<and> reservation_apparatus_id r = trim (session_apparatus s)"

fun add_active_sessions :: "reservation list \<Rightarrow> 'j order_run_session list \<Rightarrow> reservation list" where
  "add_active_sessions result [] = result"
| "add_active_sessions result (s # ss) =
     (if session_status s \<noteq> RunActive \<or> \<not> is_valid (trim (session_apparatus s))
         \<or> list_ex (holds_active s) result
      then add_active_sessions result ss
      else add_active_sessions (result @ [active_session_reservation s]) ss)"

definition reservations_with_active_sessions ::
  "reservation list \<Rightarrow> 'j order_run_session list \<Rightarrow> reservation list" where
  "reservations_with_active_sessions reservations sessions = add_active_sessions reservations sessions"

definition intervals_overlap :: "int \<Rightarrow> int \<Rightarrow> int \<Rightarrow> int \<Rightarrow> bool" where
  "intervals_overlap left_start left_end right_start right_end \<longleftrightarrow>
     left_start < right_end \<and> right_start < left_end"

type_synonym calendar = "int \<Rightarrow> (nat \<times> nat \<times> nat) option"

definition fits_working_window :: "calendar \<Rightarrow> capacity_profile \<Rightarrow> int \<Rightarrow> int \<Rightarrow> bool" where
  "fits_working_window civil p start finish =
     (if working_windows p = [] then True
      else
        (case (civil start, civil (wrap_i64 (finish - 1))) of
           (Some (start_weekday, start_hour, start_min), Some (end_weekday, end_hour, end_min)) \<Rightarrow>
             if start_weekday \<noteq> end_weekday then False
             else
               list_ex (\<lambda>w. window_weekday w = start_weekday
                   \<and> start_minute w \<le> start_hour * 60 + start_min
                   \<and> end_hour * 60 + end_min + 1 \<le> end_minute w) (working_windows p)
         | _ \<Rightarrow> False))"

definition blocked_by_downtime :: "downtime list \<Rightarrow> string \<Rightarrow> int \<Rightarrow> int \<Rightarrow> bool" where
  "blocked_by_downtime downtimes apparatus start finish =
     list_ex (\<lambda>d. downtime_active d \<and> downtime_apparatus_id d = apparatus
       \<and> intervals_overlap start finish (downtime_starts_at d) (downtime_ends_at d)) downtimes"

definition conflicting :: "reservation list \<Rightarrow> string \<Rightarrow> int \<Rightarrow> int \<Rightarrow> reservation list" where
  "conflicting reservations apparatus start finish =
     filter (\<lambda>r. reserves_capacity (schedule_status_of r) \<and> reservation_apparatus_id r = apparatus
       \<and> intervals_overlap start finish (starts_at_unix r) (ends_at_unix r)) reservations"

definition max_schedule_horizon_minutes :: int where
  "max_schedule_horizon_minutes = 366 * 24 * 60"

definition slot_free ::
  "calendar \<Rightarrow> capacity_profile \<Rightarrow> string \<Rightarrow> downtime list \<Rightarrow> reservation list \<Rightarrow> int \<Rightarrow> int \<Rightarrow> bool" where
  "slot_free civil p apparatus downtimes reservations start finish \<longleftrightarrow>
     fits_working_window civil p start finish
     \<and> \<not> blocked_by_downtime downtimes apparatus start finish
     \<and> \<not> (finite_capacity p
          \<and> capacity_slots p \<le> length (conflicting reservations apparatus start finish))"

text \<open>
  The loop over the minutes.  The cursor and the horizon are whole minutes, so that the step never
  leaves the range of the integers.
\<close>

function slot_loop ::
  "(int \<Rightarrow> int \<Rightarrow> bool) \<Rightarrow> int option \<Rightarrow> int \<Rightarrow> int \<Rightarrow> int \<Rightarrow> (int \<times> int) pm_result" where
  "slot_loop free latest_end duration cursor horizon =
     (if cursor < horizon then
        let finish = wrap_i64 (cursor + duration * 60) in
        if (case latest_end of Some latest \<Rightarrow> latest < finish | None \<Rightarrow> False)
        then Inl (Err CapacityNoWorkingWindow)
        else if free cursor finish then Inr (cursor, finish)
        else slot_loop free latest_end duration (cursor + 60) horizon
      else Inl (Err CapacityNoWorkingWindow))"
  by pat_completeness auto
termination
  by (relation "measure (\<lambda>(_, _, _, cursor, horizon). nat (horizon - cursor))") auto

declare slot_loop.simps [simp del]

definition first_minute :: "int \<Rightarrow> int" where
  "first_minute earliest = wrap_i64 ((wrap_i64 (max earliest 60 + 59) sdiv 60) * 60)"

definition find_schedule_slot ::
  "calendar \<Rightarrow> capacity_profile \<Rightarrow> schedule_request \<Rightarrow> string \<Rightarrow> int \<Rightarrow> downtime list \<Rightarrow> reservation list
   \<Rightarrow> (int \<times> int) pm_result" where
  "find_schedule_slot civil p input apparatus duration downtimes reservations =
     (let cursor = first_minute (earliest_start_unix input);
          horizon = wrap_i64 (cursor + max_schedule_horizon_minutes * 60) in
      slot_loop (slot_free civil p apparatus downtimes reservations) (latest_end_unix input)
        duration cursor horizon)"

section \<open>The store of reservations\<close>

record capacity_store =
  downtimes_map :: "(string, downtime) btree_map"
  reservations_map :: "(string, reservation) btree_map"

definition apparatus_downtimes :: "capacity_store \<Rightarrow> downtime list" where
  "apparatus_downtimes st = bt_values (downtimes_map st)"

definition put_apparatus_downtime :: "capacity_store \<Rightarrow> downtime \<Rightarrow> capacity_store" where
  "put_apparatus_downtime st d =
     st \<lparr> downtimes_map := bt_insert (trim (downtime_id d)) d (downtimes_map st) \<rparr>"

definition apparatus_schedule_reservations :: "capacity_store \<Rightarrow> reservation list" where
  "apparatus_schedule_reservations st = bt_values (reservations_map st)"

definition reservation_by_idempotency_key :: "capacity_store \<Rightarrow> string \<Rightarrow> reservation option" where
  "reservation_by_idempotency_key st key =
     find (\<lambda>r. reservation_key r = trim key) (apparatus_schedule_reservations st)"

definition put_apparatus_schedule_reservation ::
  "capacity_store \<Rightarrow> reservation \<Rightarrow> nat \<Rightarrow> bool \<Rightarrow> (reservation \<times> capacity_store) pm_result" where
  "put_apparatus_schedule_reservation st r slots limited =
     (case find (\<lambda>item. reservation_key item = reservation_key r) (apparatus_schedule_reservations st) of
        Some existing \<Rightarrow>
          if reservation_order_id existing \<noteq> reservation_order_id r
             \<or> reservation_apparatus_id existing \<noteq> reservation_apparatus_id r
          then Inl (Err ScheduleIdempotencyConflict)
          else Inr (existing, st)
      | None \<Rightarrow>
          let conflicts = length (filter (\<lambda>item. reserves_capacity (schedule_status_of item)
                \<and> reservation_apparatus_id item = reservation_apparatus_id r
                \<and> starts_at_unix item < ends_at_unix r \<and> starts_at_unix r < ends_at_unix item)
              (apparatus_schedule_reservations st)) in
          if limited \<and> (slots = 0 \<or> slots \<le> conflicts) then Inl (Err CapacityConflict)
          else Inr (r, st \<lparr> reservations_map := bt_insert (reservation_id r) r (reservations_map st) \<rparr>))"

definition cancelled :: "cancel_request \<Rightarrow> reservation \<Rightarrow> reservation" where
  "cancelled input r = r \<lparr>
     schedule_status_of := SchCancelled,
     reservation_reason :=
       (if trim (cancel_reason input) = [] then reservation_reason r
        else reservation_reason r @ ''; cancelled: '' @ trim (cancel_reason input)),
     reservation_actor := cancel_actor input \<rparr>"

definition cancel_apparatus_schedule_reservation ::
  "capacity_store \<Rightarrow> cancel_request \<Rightarrow> (reservation \<times> capacity_store) pm_result" where
  "cancel_apparatus_schedule_reservation st input =
     bind_outcome (ok_or (bt_get (reservations_map st) (trim (cancel_reservation_id input)))
         ScheduleReservationNotFound) (\<lambda>r.
     if schedule_status_of r \<noteq> SchPlanned then Inl (Err ScheduleReservationLocked)
     else Inr (cancelled input r,
       st \<lparr> reservations_map :=
         bt_insert (trim (cancel_reservation_id input)) (cancelled input r) (reservations_map st) \<rparr>))"

fun status_change_allowed :: "schedule_status \<Rightarrow> schedule_status \<Rightarrow> bool" where
  "status_change_allowed old SchActive \<longleftrightarrow> old = SchPlanned \<or> old = SchPaused"
| "status_change_allowed old SchPaused \<longleftrightarrow> old = SchActive"
| "status_change_allowed old SchCompleted \<longleftrightarrow> old = SchPlanned \<or> old = SchActive \<or> old = SchPaused"
| "status_change_allowed old SchPlanned \<longleftrightarrow> False"
| "status_change_allowed old SchCancelled \<longleftrightarrow> False"

definition update_apparatus_schedule_reservation_status ::
  "capacity_store \<Rightarrow> string \<Rightarrow> string \<Rightarrow> schedule_status \<Rightarrow> queue_action_actor \<Rightarrow> capacity_store pm_result"
where
  "update_apparatus_schedule_reservation_status st order apparatus new actor =
     (case find (\<lambda>(_, r). trim (reservation_order_id r) = trim order
                \<and> reservation_apparatus_id r = apparatus) (reservations_map st) of
        None \<Rightarrow> Inr st
      | Some (k, r) \<Rightarrow>
          if schedule_status_of r = new then Inr st
          else if \<not> status_change_allowed (schedule_status_of r) new
          then Inl (Err ScheduleReservationLocked)
          else Inr (st \<lparr> reservations_map := bt_insert k
            (r \<lparr> schedule_status_of := new, reservation_actor := actor \<rparr>) (reservations_map st) \<rparr>))"

end
