(* ===== verification/Capacity_Service.thy ===== *)
theory Capacity_Service
  imports Capacity
begin

text \<open>
  The capacity service (\<^verbatim>\<open>capacity/service.rs\<close>): the check before an apparatus starts to work, the
  normal form of requests, and scheduling an order on the best of its candidate apparatus.  What
  the service reads from other services is a context: the maps, the run sessions, the resolver of
  apparatus configurations, the calendar and the clock.
\<close>

section \<open>Context\<close>

record 'j capacity_context =
  ctx_maps :: "production_map_definition list"
  ctx_sessions :: "'j order_run_session list"
  ctx_resolve :: "string \<Rightarrow> runtime_apparatus_configuration option pm_result"
  ctx_civil :: calendar
  ctx_now :: int

definition canonical_id_of :: "string \<Rightarrow> string option" where
  "canonical_id_of v = (if is_valid (trim v) then Some (trim v) else None)"

definition resolve_canonical_apparatus ::
  "'j capacity_context \<Rightarrow> string \<Rightarrow> runtime_apparatus_configuration pm_result" where
  "resolve_canonical_apparatus ctx apparatus =
     bind_outcome (ctx_resolve ctx apparatus) (\<lambda>found.
     bind_outcome (ok_or found StoreFailed) (\<lambda>c.
     if source_apparatus_id (runtime_row c) \<noteq> apparatus \<or> \<not> has_coherent_source c
        \<or> \<not> configuration_is_active c
     then Inl (Err StoreFailed) else Inr c))"

definition validated_canonical_apparatus ::
  "'j capacity_context \<Rightarrow> string \<Rightarrow> runtime_apparatus_configuration pm_result" where
  "validated_canonical_apparatus ctx apparatus =
     bind_outcome (resolve_canonical_apparatus ctx apparatus) (\<lambda>c.
     if source_apparatus_id (runtime_row c) \<noteq> apparatus \<or> \<not> has_coherent_source c
     then Inl (Err StoreFailed) else Inr c)"

fun capability_code_name :: "equipment_capability_code \<Rightarrow> string" where
  "capability_code_name CapPrint = ''print''"
| "capability_code_name CapLaminate = ''laminate''"
| "capability_code_name CapCut = ''cut''"
| "capability_code_name CapPackage = ''package''"
| "capability_code_name CapGlue = ''glue''"
| "capability_code_name CapTooling = ''tooling''"
| "capability_code_name CapVirtualTask = ''virtual_task''"
| "capability_code_name CapTraining = ''training''"

definition canonical_capacity_profile ::
  "runtime_apparatus_configuration \<Rightarrow> int \<Rightarrow> capacity_profile pm_result" where
  "canonical_capacity_profile c now =
     (if \<not> has_coherent_source c \<or> \<not> configuration_is_active c then Inl (Err StoreFailed)
      else
        let levels = bt_collect (map (\<lambda>(code, level). (capability_code_name code, level))
              (runtime_capabilities (runtime_row c)));
            row = capacity_row c in
        Inr \<lparr> profile_apparatus_id = source_apparatus_id (runtime_row c),
          profile_apparatus = display_name (runtime_display (runtime_row c)),
          capacity_slots = row_capacity_slots row,
          setup_minutes = row_setup_minutes row,
          cleanup_minutes = row_cleanup_minutes row,
          efficiency_percent = row_efficiency_percent row,
          finite_capacity = row_finite_capacity row,
          working_windows = map (\<lambda>w. WorkingWindow (window_weekday w) (start_minute w) (end_minute w))
            (row_working_windows row),
          capabilities = bt_keys levels,
          capability_levels = levels,
          profile_notes = [],
          profile_updated_at_unix = now \<rparr>)"

definition canonical_capacity_profile_for ::
  "'j capacity_context \<Rightarrow> string \<Rightarrow> capacity_profile pm_result" where
  "canonical_capacity_profile_for ctx apparatus =
     bind_outcome (validated_canonical_apparatus ctx apparatus)
       (\<lambda>c. canonical_capacity_profile c (ctx_now ctx))"

section \<open>Before an apparatus starts\<close>

definition active_sessions_for :: "'j capacity_context \<Rightarrow> string \<Rightarrow> 'j order_run_session list" where
  "active_sessions_for ctx apparatus =
     filter (\<lambda>s. session_status s = RunActive \<and> trim (session_apparatus s) = trim apparatus)
       (ctx_sessions ctx)"

fun occupied_by_states ::
  "string \<Rightarrow> string \<Rightarrow> all_queue_states \<Rightarrow> string list \<Rightarrow> string list pm_result" where
  "occupied_by_states apparatus order [] occupied = Inr occupied"
| "occupied_by_states apparatus order ((candidate, states) # rest) occupied =
     (case canonical_id_of candidate of
        None \<Rightarrow> Inl (Err StoreFailed)
      | Some candidate_id \<Rightarrow>
          if candidate_id \<noteq> apparatus then occupied_by_states apparatus order rest occupied
          else occupied_by_states apparatus order rest
            (fold (\<lambda>(other, state) occ.
               if parse_state state = Some InProgress \<and> \<not> eq_ignore_ascii_case other order
               then bs_insert (trim other) occ else occ) states occupied))"

fun occupied_by_sessions ::
  "string \<Rightarrow> string \<Rightarrow> 'j order_run_session list \<Rightarrow> string list \<Rightarrow> string list pm_result" where
  "occupied_by_sessions apparatus order [] occupied = Inr occupied"
| "occupied_by_sessions apparatus order (s # ss) occupied =
     (case canonical_id_of (session_apparatus s) of
        None \<Rightarrow> Inl (Err StoreFailed)
      | Some session_apparatus_id \<Rightarrow>
          occupied_by_sessions apparatus order ss
            (if session_status s = RunActive \<and> session_apparatus_id = apparatus
                \<and> \<not> eq_ignore_ascii_case (session_order_id s) order
             then bs_insert (trim (session_order_id s)) occupied else occupied))"

definition occupied_by_reservations ::
  "string \<Rightarrow> string \<Rightarrow> int \<Rightarrow> reservation list \<Rightarrow> string list \<Rightarrow> string list" where
  "occupied_by_reservations apparatus order now reservations occupied =
     fold (\<lambda>r occ.
       if reserves_capacity (schedule_status_of r) \<and> reservation_apparatus_id r = apparatus
          \<and> starts_at_unix r \<le> now \<and> now < ends_at_unix r
          \<and> \<not> eq_ignore_ascii_case (reservation_order_id r) order
       then bs_insert (trim (reservation_order_id r)) occ else occ) reservations occupied"

definition ensure_apparatus_execution_capacity ::
  "'j capacity_context \<Rightarrow> capacity_store \<Rightarrow> string \<Rightarrow> string \<Rightarrow> all_queue_states \<Rightarrow> unit pm_result" where
  "ensure_apparatus_execution_capacity ctx st apparatus order all_states =
     (let order = trim order; now = ctx_now ctx in
      bind_outcome (ok_or (canonical_id_of apparatus) CapacityProfileNotFound) (\<lambda>requested.
      bind_outcome (canonical_capacity_profile_for ctx requested) (\<lambda>profile.
      let apparatus = profile_apparatus_id profile in
      if list_ex (\<lambda>d. downtime_active d \<and> downtime_apparatus_id d = apparatus
           \<and> downtime_starts_at d \<le> now \<and> now < downtime_ends_at d) (apparatus_downtimes st)
      then Inl (Err CapacityUnavailable)
      else if \<not> fits_working_window (ctx_civil ctx) profile now (wrap_i64 (now + 60))
      then Inl (Err CapacityNoWorkingWindow)
      else
        bind_outcome (occupied_by_states apparatus order all_states []) (\<lambda>occupied.
        bind_outcome (occupied_by_sessions apparatus order (active_sessions_for ctx apparatus) occupied)
          (\<lambda>occupied.
        let occupied = occupied_by_reservations apparatus order now
              (apparatus_schedule_reservations st) occupied in
        guard_outcome (\<not> (finite_capacity profile \<and> capacity_slots profile \<le> length occupied))
          CapacityConflict)))))"

section \<open>Snapshot and downtimes\<close>

fun collect_apparatus_ids :: "string list \<Rightarrow> string list \<Rightarrow> string list pm_result" where
  "collect_apparatus_ids [] ids = Inr ids"
| "collect_apparatus_ids (a # as) ids =
     bind_outcome (ok_or (canonical_id_of a) StoreFailed)
       (\<lambda>i. collect_apparatus_ids as (bs_insert i ids))"

record capacity_snapshot =
  snapshot_profiles :: "capacity_profile list"
  snapshot_downtimes :: "downtime list"
  snapshot_reservations :: "reservation list"

definition apparatus_capacity_snapshot ::
  "'j capacity_context \<Rightarrow> capacity_store \<Rightarrow> capacity_snapshot pm_result" where
  "apparatus_capacity_snapshot ctx st =
     (let downtimes = apparatus_downtimes st;
          reservations = apparatus_schedule_reservations st in
      bind_outcome
        (collect_apparatus_ids
          (concat (map (\<lambda>m. filter_map stage_apparatus_id (linear_work_stages m)) (ctx_maps ctx))) [])
        (\<lambda>ids.
      let ids = fold bs_insert (map downtime_apparatus_id downtimes) ids;
          ids = fold bs_insert (map reservation_apparatus_id reservations) ids in
      bind_outcome (map_outcome (canonical_capacity_profile_for ctx) ids) (\<lambda>profiles.
      Inr \<lparr> snapshot_profiles = profiles, snapshot_downtimes = downtimes,
        snapshot_reservations = reservations \<rparr>)))"

definition normalize_downtime :: "int \<Rightarrow> downtime \<Rightarrow> downtime pm_result" where
  "normalize_downtime now d =
     (let i = trim (downtime_id d);
          d = d \<lparr> downtime_id := (if i = [] then ''apparatus-downtime:'' @ decimal_of_int now else i),
            downtime_apparatus := trim (downtime_apparatus d),
            downtime_reason := trim (downtime_reason d) \<rparr> in
      if downtime_starts_at d \<le> 0 \<or> downtime_ends_at d \<le> downtime_starts_at d \<or> downtime_reason d = []
      then Inl (Err CapacityProfileInvalid)
      else Inr (if downtime_created_at d \<le> 0 then d \<lparr> downtime_created_at := now \<rparr> else d))"

definition service_put_apparatus_downtime ::
  "'j capacity_context \<Rightarrow> capacity_store \<Rightarrow> downtime \<Rightarrow> (downtime \<times> capacity_store) pm_result" where
  "service_put_apparatus_downtime ctx st d =
     bind_outcome (validated_canonical_apparatus ctx (downtime_apparatus_id d)) (\<lambda>c.
     bind_outcome (normalize_downtime (ctx_now ctx)
         (d \<lparr> downtime_apparatus := display_name (runtime_display (runtime_row c)) \<rparr>)) (\<lambda>d.
     Inr (d, put_apparatus_downtime st d)))"

section \<open>Scheduling an order\<close>

fun keep_requirements :: "capability_requirement list \<Rightarrow> string list \<Rightarrow> capability_requirement list" where
  "keep_requirements [] seen = []"
| "keep_requirements (r # rs) seen =
     (let r = r \<lparr> requirement_code := to_ascii_lowercase (trim (requirement_code r)),
                 min_level := max (min_level r) 1 \<rparr> in
      if requirement_code r = [] \<or> requirement_code r \<in> set seen then keep_requirements rs seen
      else r # keep_requirements rs (bs_insert (requirement_code r) seen))"

fun keep_candidates :: "string \<Rightarrow> schedule_candidate list \<Rightarrow> string list \<Rightarrow> schedule_candidate list" where
  "keep_candidates primary [] seen = []"
| "keep_candidates primary (c # cs) seen =
     (let c = c \<lparr> candidate_apparatus := trim (candidate_apparatus c) \<rparr>;
          key = candidate_apparatus_id c in
      if key \<noteq> primary \<and> key \<notin> set seen then c # keep_candidates primary cs (bs_insert key seen)
      else keep_candidates primary cs seen)"

definition normalize_schedule_request :: "schedule_request \<Rightarrow> schedule_request pm_result" where
  "normalize_schedule_request input =
     (let input = input \<lparr> request_order_id := trim (request_order_id input),
            request_apparatus_id := trim (request_apparatus_id input),
            request_apparatus := trim (request_apparatus input),
            request_source := trim (request_source input),
            request_reason := trim (request_reason input),
            idempotency_key := trim (idempotency_key input) \<rparr> in
      if request_order_id input = [] \<or> request_apparatus_id input = []
         \<or> duration_minutes input = 0 \<or> 30 * 24 * 60 < int (duration_minutes input)
         \<or> earliest_start_unix input \<le> 0
         \<or> idempotency_key input = [] \<or> 200 < int (str_len (idempotency_key input))
      then Inl (Err ScheduleInputInvalid)
      else
        bind_outcome (ok_or (canonical_id_of (request_apparatus_id input)) ScheduleInputInvalid)
          (\<lambda>primary.
        if (case latest_end_unix input of
              None \<Rightarrow> False
            | Some latest \<Rightarrow> latest \<le> earliest_start_unix input)
        then Inl (Err ScheduleInputInvalid)
        else Inr (input \<lparr>
          capability_requirements := keep_requirements (capability_requirements input) [],
          candidate_apparatuses := keep_candidates primary (candidate_apparatuses input) [] \<rparr>)))"

record scheduled_candidate =
  sc_index :: nat
  sc_candidate :: schedule_candidate
  sc_profile :: capacity_profile
  sc_reserved_duration :: int
  sc_starts_at :: int
  sc_ends_at :: int

record candidate_search =
  route_candidate_count :: nat
  supported_candidate_count :: nat
  capability_not_supported :: bool
  capability_level_insufficient :: bool
  best_slot :: "scheduled_candidate option"

definition is_better :: "int \<Rightarrow> nat \<Rightarrow> scheduled_candidate option \<Rightarrow> bool" where
  "is_better start index best =
     (case best of
        None \<Rightarrow> True
      | Some b \<Rightarrow> start < sc_starts_at b \<or> start = sc_starts_at b \<and> index < sc_index b)"

definition try_candidate ::
  "'j capacity_context \<Rightarrow> production_map_definition \<Rightarrow> schedule_request \<Rightarrow> string \<Rightarrow> downtime list
   \<Rightarrow> reservation list \<Rightarrow> nat \<Rightarrow> schedule_candidate \<Rightarrow> candidate_search \<Rightarrow> candidate_search pm_result" where
  "try_candidate ctx m input apparatus downtimes reservations index candidate search =
     (if \<not> candidate_allowed_for_order m apparatus (candidate_apparatus_id candidate) then Inr search
      else
        let search = search \<lparr> route_candidate_count := route_candidate_count search + 1 \<rparr> in
        bind_outcome (validated_canonical_apparatus ctx (candidate_apparatus_id candidate)) (\<lambda>c.
        bind_outcome (canonical_capacity_profile c (ctx_now ctx)) (\<lambda>profile.
        let candidate = \<lparr> candidate_apparatus_id = candidate_apparatus_id candidate,
              candidate_apparatus = display_name (runtime_display (runtime_row c)) \<rparr> in
        if \<not> profile_supports profile (capability_requirements input) then
          Inr (if list_ex (\<lambda>r. capability_level profile (requirement_code r) = 0)
                    (capability_requirements input)
               then search \<lparr> capability_not_supported := True \<rparr>
               else search \<lparr> capability_level_insufficient := True \<rparr>)
        else
          let search = search \<lparr> supported_candidate_count := supported_candidate_count search + 1 \<rparr> in
          bind_outcome (effective_duration_minutes profile (duration_minutes input)) (\<lambda>reserved.
          case find_schedule_slot (ctx_civil ctx) profile input (candidate_apparatus_id candidate)
                 reserved downtimes reservations of
            Inl _ \<Rightarrow> Inr search
          | Inr (start, finish) \<Rightarrow>
              Inr (if is_better start index (best_slot search)
                   then search \<lparr> best_slot := Some
                     \<lparr> sc_index = index, sc_candidate = candidate, sc_profile = profile,
                       sc_reserved_duration = reserved, sc_starts_at = start, sc_ends_at = finish \<rparr> \<rparr>
                   else search)))))"

fun try_candidates ::
  "'j capacity_context \<Rightarrow> production_map_definition \<Rightarrow> schedule_request \<Rightarrow> string \<Rightarrow> downtime list
   \<Rightarrow> reservation list \<Rightarrow> nat \<Rightarrow> schedule_candidate list \<Rightarrow> candidate_search \<Rightarrow> candidate_search pm_result"
where
  "try_candidates ctx m input apparatus downtimes reservations index [] search = Inr search"
| "try_candidates ctx m input apparatus downtimes reservations index (c # cs) search =
     bind_outcome (try_candidate ctx m input apparatus downtimes reservations index c search)
       (try_candidates ctx m input apparatus downtimes reservations (index + 1) cs)"

definition new_reservation :: "schedule_request \<Rightarrow> scheduled_candidate \<Rightarrow> int \<Rightarrow> reservation" where
  "new_reservation input best now =
     \<lparr> reservation_id = ''apparatus-reservation:'' @ idempotency_key input,
       reservation_key = idempotency_key input,
       reservation_order_id = request_order_id input,
       reservation_apparatus_id = candidate_apparatus_id (sc_candidate best),
       reservation_apparatus = candidate_apparatus (sc_candidate best),
       starts_at_unix = sc_starts_at best,
       ends_at_unix = sc_ends_at best,
       requested_duration_minutes = duration_minutes input,
       reserved_duration_minutes = nat (sc_reserved_duration best),
       schedule_status_of = SchPlanned,
       reservation_priority = request_priority input,
       reservation_source = request_source input,
       reservation_reason = request_reason input,
       reservation_requirements = capability_requirements input,
       reservation_actor = request_actor input,
       reservation_created_at = now \<rparr>"

definition no_slot_error :: "candidate_search \<Rightarrow> production_map_error" where
  "no_slot_error search =
     (if supported_candidate_count search = 0 then
        if capability_not_supported search then CapabilityNotSupported
        else if capability_level_insufficient search then CapabilityLevelInsufficient
        else CapacityNoWorkingWindow
      else CapacityNoWorkingWindow)"

definition check_audit_session :: "'j capacity_context \<Rightarrow> 'j order_run_session \<Rightarrow> unit pm_result" where
  "check_audit_session ctx s =
     bind_outcome (ok_or (canonical_id_of (session_apparatus s)) StoreFailed) (\<lambda>i.
     bind_outcome (validated_canonical_apparatus ctx i) (\<lambda>_. Inr ()))"

definition schedule_apparatus_order ::
  "'j capacity_context \<Rightarrow> capacity_store \<Rightarrow> schedule_request \<Rightarrow> (reservation \<times> capacity_store) pm_result"
where
  "schedule_apparatus_order ctx st input =
     bind_outcome (normalize_schedule_request input) (\<lambda>input.
     bind_outcome (ok_or (canonical_id_of (request_apparatus_id input)) ScheduleInputInvalid)
       (\<lambda>apparatus.
     bind_outcome (validated_canonical_apparatus ctx apparatus) (\<lambda>_.
     bind_outcome (ok_or (find (\<lambda>m. trim (map_id m) = request_order_id input) (ctx_maps ctx)) MapNotFound)
       (\<lambda>m.
     case reservation_by_idempotency_key st (idempotency_key input) of
       Some existing \<Rightarrow>
         if trim (reservation_order_id existing) \<noteq> request_order_id input
            \<or> reservation_apparatus_id existing \<noteq> apparatus
         then Inl (Err ScheduleIdempotencyConflict)
         else Inr (existing, st)
     | None \<Rightarrow>
         bind_outcome (each_outcome (check_audit_session ctx) (ctx_sessions ctx)) (\<lambda>_.
         let reservations = reservations_with_active_sessions
               (apparatus_schedule_reservations st) (ctx_sessions ctx);
             candidates = \<lparr> candidate_apparatus_id = apparatus, candidate_apparatus = [] \<rparr>
               # candidate_apparatuses input in
         bind_outcome
           (try_candidates ctx m input apparatus (apparatus_downtimes st) reservations 0 candidates
             \<lparr> route_candidate_count = 0, supported_candidate_count = 0,
               capability_not_supported = False, capability_level_insufficient = False,
               best_slot = None \<rparr>) (\<lambda>search.
         if route_candidate_count search = 0 then Inl (Err MoveNotAllowed)
         else
           (case best_slot search of
              Some best \<Rightarrow>
                put_apparatus_schedule_reservation st (new_reservation input best (ctx_now ctx))
                  (capacity_slots (sc_profile best)) (finite_capacity (sc_profile best))
            | None \<Rightarrow> Inl (Err (no_slot_error search)))))))))"

end
