(* ===== verification/Capacity_Laws.thy ===== *)
theory Capacity_Laws
  imports Capacity_Service Contract_Laws
begin

text \<open>
  Correctness of the capacity component: the scheduler finds the earliest free slot, bookings never
  exceed the slots of an apparatus, scheduling picks the best candidate and can be retried, and
  durations are computed without a panic for every valid apparatus.
\<close>

section \<open>The slot loop\<close>

text \<open>
  What the loop returns, when no time leaves the range of the integers: the first free minute, or
  the error when no minute that still meets the deadline is free.
\<close>

definition meets_deadline :: "int option \<Rightarrow> int \<Rightarrow> bool" where
  "meets_deadline latest finish \<longleftrightarrow> (case latest of Some l \<Rightarrow> finish \<le> l | None \<Rightarrow> True)"

definition slot_result ::
  "(int \<Rightarrow> int \<Rightarrow> bool) \<Rightarrow> int option \<Rightarrow> int \<Rightarrow> int \<Rightarrow> int \<Rightarrow> (int \<times> int) pm_result \<Rightarrow> bool" where
  "slot_result free latest duration cursor horizon r \<longleftrightarrow>
     (case r of
        Inr (s, e) \<Rightarrow>
          (\<exists>k. s = cursor + 60 * int k \<and>
            (\<forall>j<k. \<not> free (cursor + 60 * int j) (cursor + 60 * int j + duration * 60))) \<and>
          s < horizon \<and> e = s + duration * 60 \<and> free s e \<and> meets_deadline latest e
      | Inl x \<Rightarrow> x = Err CapacityNoWorkingWindow \<and>
          (\<forall>k. cursor + 60 * int k < horizon \<longrightarrow>
            meets_deadline latest (cursor + 60 * int k + duration * 60) \<longrightarrow>
            \<not> free (cursor + 60 * int k) (cursor + 60 * int k + duration * 60)))"

lemma slot_result_step:
  assumes taken: "\<not> free cursor (cursor + duration * 60)"
    and later: "slot_result free latest duration (cursor + 60) horizon r"
  shows "slot_result free latest duration cursor horizon r"
proof (cases r)
  case (Inl x)
  have "\<not> free (cursor + 60 * int k) (cursor + 60 * int k + duration * 60)"
    if "cursor + 60 * int k < horizon" "meets_deadline latest (cursor + 60 * int k + duration * 60)" for k
  proof (cases k)
    case 0
    then show ?thesis using taken by simp
  next
    case (Suc j)
    then have eq: "cursor + 60 * int k = cursor + 60 + 60 * int j" by simp
    show ?thesis using later that Inl unfolding eq slot_result_def by simp
  qed
  then show ?thesis using later Inl by (auto simp: slot_result_def)
next
  case (Inr p)
  obtain s e where p: "p = (s, e)" by force
  obtain k where s: "s = cursor + 60 + 60 * int k"
    and none: "\<forall>j<k. \<not> free (cursor + 60 + 60 * int j) (cursor + 60 + 60 * int j + duration * 60)"
    using later Inr p by (auto simp: slot_result_def)
  have "\<not> free (cursor + 60 * int j) (cursor + 60 * int j + duration * 60)" if "j < Suc k" for j
  proof (cases j)
    case 0
    then show ?thesis using taken by simp
  next
    case (Suc i)
    then have eq: "cursor + 60 * int j = cursor + 60 + 60 * int i" by simp
    show ?thesis using none that Suc unfolding eq by simp
  qed
  moreover have "s = cursor + 60 * int (Suc k)" using s by simp
  ultimately have "\<exists>k. s = cursor + 60 * int k \<and>
      (\<forall>j<k. \<not> free (cursor + 60 * int j) (cursor + 60 * int j + duration * 60))" by blast
  then show ?thesis using later unfolding slot_result_def Inr p sum.case prod.case by blast
qed

lemma slot_loop_result:
  assumes "0 \<le> cursor" "0 \<le> duration" "in_i64 (horizon + duration * 60)"
  shows "slot_result free latest duration cursor horizon (slot_loop free latest duration cursor horizon)"
  using assms
proof (induction free latest duration cursor horizon rule: slot_loop.induct)
  case (1 free latest duration cursor horizon)
  note step = slot_loop.simps [of free latest duration cursor horizon]
  let ?e = "cursor + duration * 60"
  show ?case
  proof (cases "cursor < horizon")
    case False
    then show ?thesis using step by (auto simp: slot_result_def)
  next
    case True
    then have wrap: "wrap_i64 ?e = ?e"
      using 1(2-4) by (intro wrap_id) (auto simp: in_i64_def i64_min_def)
    then have unfold: "slot_loop free latest duration cursor horizon =
        (if \<not> meets_deadline latest ?e then Inl (Err CapacityNoWorkingWindow)
         else if free cursor ?e then Inr (cursor, ?e)
         else slot_loop free latest duration (cursor + 60) horizon)"
      using step True by (auto simp: Let_def meets_deadline_def split: option.splits)
    consider (late) "\<not> meets_deadline latest ?e" | (free) "meets_deadline latest ?e" "free cursor ?e"
      | (taken) "meets_deadline latest ?e" "\<not> free cursor ?e" by blast
    then show ?thesis
    proof cases
      case late
      then have "\<not> meets_deadline latest (cursor + 60 * int k + duration * 60)" for k
        by (auto simp: meets_deadline_def split: option.splits)
      then show ?thesis using late unfold by (simp add: slot_result_def)
    next
      case free
      then show ?thesis using True unfold by (auto simp: slot_result_def intro!: exI [of _ 0])
    next
      case taken
      have "\<not> (case latest of None \<Rightarrow> False | Some l \<Rightarrow> l < wrap_i64 ?e)"
        using taken(1) wrap by (auto simp: meets_deadline_def split: option.splits)
      then have "slot_result free latest duration (cursor + 60) horizon
          (slot_loop free latest duration (cursor + 60) horizon)"
        using 1(1) [OF True refl] taken(2) wrap 1(2-4) by simp
      then have "slot_result free latest duration cursor horizon
          (slot_loop free latest duration (cursor + 60) horizon)"
        by (rule slot_result_step [rotated]) (rule taken(2))
      then show ?thesis using taken unfold by simp
    qed
  qed
qed

lemma round_up: "(m::int) \<le> (m + 59) div 60 * 60" "(m + 59) div 60 * 60 < m + 60"
  by presburger+

lemma first_minute_range:
  assumes "earliest \<le> i64_max - 59"
  shows "first_minute earliest mod 60 = 0" "max earliest 60 \<le> first_minute earliest"
    "first_minute earliest < max earliest 60 + 60"
proof -
  define m where "m = max earliest 60"
  have m: "60 \<le> m" "m \<le> i64_max - 59" using assms by (auto simp: m_def i64_max_def)
  have "wrap_i64 (m + 59) = m + 59"
    using m by (intro wrap_id) (auto simp: in_i64_def i64_max_def i64_min_def)
  moreover have "(m + 59) sdiv 60 = (m + 59) div 60" using m(1) by (simp add: signed_divide_int_def)
  moreover have "wrap_i64 ((m + 59) div 60 * 60) = (m + 59) div 60 * 60"
    using m round_up [of m] by (intro wrap_id) (auto simp: in_i64_def i64_max_def i64_min_def)
  ultimately have eq: "first_minute earliest = (m + 59) div 60 * 60"
    by (simp add: first_minute_def m_def)
  show "first_minute earliest mod 60 = 0" unfolding eq by simp
  show "max earliest 60 \<le> first_minute earliest" "first_minute earliest < max earliest 60 + 60"
    unfolding eq m_def [symmetric] by (rule round_up)+
qed

lemma whole_minutes:
  assumes "c mod 60 = 0" "t mod 60 = 0" "c \<le> t"
  shows "\<exists>k. t = c + 60 * int k"
  using assms by (intro exI [of _ "nat ((t - c) div 60)"]) (auto simp: mod_eq_0_iff_dvd)

lemma whole_minute_from:
  assumes "earliest \<le> i64_max - 59" "t mod 60 = 0" "max earliest 60 \<le> t"
  shows "first_minute earliest \<le> t"
proof -
  obtain a b where "first_minute earliest = 60 * a" "t = 60 * b"
    using first_minute_range(1) [OF assms(1)] assms(2) by (metis mod_0_imp_dvd dvd_def)
  moreover have "first_minute earliest < t + 60"
    using first_minute_range(3) [OF assms(1)] add_right_mono [OF assms(3), of 60] by (rule less_le_trans)
  ultimately show ?thesis by simp
qed

lemma find_schedule_slot_result:
  fixes duration :: int
  assumes "0 < earliest_start_unix input" "0 \<le> duration"
    and "earliest_start_unix input + 31622400 + 120 + duration * 60 \<le> i64_max"
  defines "first \<equiv> first_minute (earliest_start_unix input)"
  shows "slot_result (slot_free civil p apparatus downtimes reservations) (latest_end_unix input) duration
    first (first + 31622400) (find_schedule_slot civil p input apparatus duration downtimes reservations)"
proof -
  let ?e = "earliest_start_unix input"
  have r: "max ?e 60 \<le> first" "first < max ?e 60 + 60"
    unfolding first_def using first_minute_range [of ?e] assms(1-3) by auto
  have m: "max ?e 60 \<le> ?e + 59" using assms(1) by auto
  have in64: "in_i64 (first + 31622400 + duration * 60)" "in_i64 (first + 31622400)"
    using r m assms(2,3) by (auto simp: in_i64_def i64_min_def)
  then have "find_schedule_slot civil p input apparatus duration downtimes reservations =
      slot_loop (slot_free civil p apparatus downtimes reservations) (latest_end_unix input) duration
        first (first + 31622400)"
    by (simp add: find_schedule_slot_def max_schedule_horizon_minutes_def Let_def first_def)
  then show ?thesis using slot_loop_result [of first duration "first + 31622400"] r assms(2) in64 by simp
qed

text \<open>The same result, told about all whole minutes of the horizon.\<close>

lemma free_minutes:
  fixes duration :: int
  assumes "0 < earliest_start_unix input" "0 \<le> duration"
    and "earliest_start_unix input + 31622400 + 120 + duration * 60 \<le> i64_max"
    and "t mod 60 = 0" "earliest_start_unix input \<le> t" "60 \<le> t"
  shows "\<exists>k. t = first_minute (earliest_start_unix input) + 60 * int k"
proof (rule whole_minutes)
  have e: "earliest_start_unix input \<le> i64_max - 59" using assms(2,3) by simp
  show "first_minute (earliest_start_unix input) mod 60 = 0" using first_minute_range(1) [OF e] .
  show "first_minute (earliest_start_unix input) \<le> t"
    using assms(4-6) by (intro whole_minute_from [OF e]) simp_all
qed fact

lemma found_slot:
  fixes duration :: int
  assumes "0 < earliest_start_unix input" "0 \<le> duration"
    and "earliest_start_unix input + 31622400 + 120 + duration * 60 \<le> i64_max"
    and found: "find_schedule_slot civil p input apparatus duration downtimes reservations = Inr (s, e)"
  shows "s mod 60 = 0" "earliest_start_unix input \<le> s" "e = s + duration * 60"
    "slot_free civil p apparatus downtimes reservations s e" "meets_deadline (latest_end_unix input) e"
    "\<And>t. t mod 60 = 0 \<Longrightarrow> earliest_start_unix input \<le> t \<Longrightarrow> 60 \<le> t \<Longrightarrow> t < s \<Longrightarrow>
       \<not> slot_free civil p apparatus downtimes reservations t (t + duration * 60)"
proof -
  let ?first = "first_minute (earliest_start_unix input)"
  let ?free = "slot_free civil p apparatus downtimes reservations"
  have small: "earliest_start_unix input \<le> i64_max - 59" using assms(2,3) by simp
  obtain k where k: "s = ?first + 60 * int k"
    and none: "\<forall>j<k. \<not> ?free (?first + 60 * int j) (?first + 60 * int j + duration * 60)"
    and rest: "e = s + duration * 60" "?free s e" "meets_deadline (latest_end_unix input) e"
    using find_schedule_slot_result [OF assms(1-3), of civil p apparatus downtimes reservations] found
    by (auto simp: slot_result_def)
  show "s mod 60 = 0" using k first_minute_range(1) [OF small] by (auto simp: mod_simps)
  have "earliest_start_unix input \<le> ?first" using first_minute_range(2) [OF small] by simp
  then show "earliest_start_unix input \<le> s" using k by simp
  show "e = s + duration * 60" "?free s e" "meets_deadline (latest_end_unix input) e" by (fact rest)+
  show "\<not> ?free t (t + duration * 60)"
    if "t mod 60 = 0" "earliest_start_unix input \<le> t" "60 \<le> t" "t < s" for t
    using free_minutes [OF assms(1-3) that(1-3)] k none that(4) by auto
qed

lemma no_slot:
  fixes duration :: int
  assumes "0 < earliest_start_unix input" "0 \<le> duration"
    and "earliest_start_unix input + 31622400 + 120 + duration * 60 \<le> i64_max"
    and none: "find_schedule_slot civil p input apparatus duration downtimes reservations = Inl x"
  shows "x = Err CapacityNoWorkingWindow"
    "\<And>t. t mod 60 = 0 \<Longrightarrow> earliest_start_unix input \<le> t \<Longrightarrow> 60 \<le> t \<Longrightarrow>
       t < earliest_start_unix input + 31622400 \<Longrightarrow>
       meets_deadline (latest_end_unix input) (t + duration * 60) \<Longrightarrow>
       \<not> slot_free civil p apparatus downtimes reservations t (t + duration * 60)"
proof -
  let ?first = "first_minute (earliest_start_unix input)"
  have small: "earliest_start_unix input \<le> i64_max - 59" using assms(2,3) by simp
  have r: "slot_result (slot_free civil p apparatus downtimes reservations) (latest_end_unix input) duration
      ?first (?first + 31622400) (Inl x)"
    using find_schedule_slot_result [OF assms(1-3), of civil p apparatus downtimes reservations] none by simp
  then show "x = Err CapacityNoWorkingWindow" by (simp add: slot_result_def)
  show "\<not> slot_free civil p apparatus downtimes reservations t (t + duration * 60)"
    if t: "t mod 60 = 0" "earliest_start_unix input \<le> t" "60 \<le> t"
      "t < earliest_start_unix input + 31622400"
      "meets_deadline (latest_end_unix input) (t + duration * 60)" for t
  proof -
    obtain k where k: "t = ?first + 60 * int k" using free_minutes [OF assms(1-3) t(1-3)] ..
    have "earliest_start_unix input \<le> ?first" using first_minute_range(2) [OF small] by simp
    then show ?thesis using r t(4,5) k by (auto simp: slot_result_def)
  qed
qed

text \<open>Near the end of the integers the first minute wraps.\<close>

lemma wrap_above:
  assumes "i64_max < i" "i \<le> i64_max + 18446744073709551616"
  shows "wrap_i64 i = i - 18446744073709551616"
proof -
  have "(i + 9223372036854775808) mod 18446744073709551616 =
      (i + 9223372036854775808 - 18446744073709551616) mod 18446744073709551616"
    by (rule minus_mod_self2 [symmetric])
  also have "\<dots> = i + 9223372036854775808 - 18446744073709551616"
    using assms by (intro mod_pos_pos_trivial) (auto simp: i64_max_def)
  finally show ?thesis by (simp add: wrap_i64_def)
qed

lemma first_minute_wraps:
  assumes "i64_max - 59 < earliest" "earliest \<le> i64_max"
  shows "first_minute earliest \<le> - 9223372036854775740" "- 9223372036854775800 \<le> first_minute earliest"
proof -
  define y where "y = 18446744073709551616 - 59 - earliest"
  have y: "9223372036854775750 \<le> y" "y \<le> 9223372036854775808"
    using assms by (auto simp: y_def i64_max_def)
  have w: "wrap_i64 (earliest + 59) = - y"
    using assms by (subst wrap_above) (auto simp: i64_max_def y_def)
  have "(- y) sdiv 60 = - (y div 60)" using y by (simp add: signed_divide_int_def)
  moreover have q: "153722867280912929 \<le> y div 60" "y div 60 \<le> 153722867280912930"
    using y by linarith+
  moreover have "wrap_i64 (- (y div 60) * 60) = - (y div 60) * 60"
    using q by (intro wrap_id) (auto simp: in_i64_def i64_min_def i64_max_def)
  ultimately have "first_minute earliest = - (y div 60) * 60"
    using assms w by (simp add: first_minute_def max_def i64_max_def)
  then show "first_minute earliest \<le> - 9223372036854775740" "- 9223372036854775800 \<le> first_minute earliest"
    using q by linarith+
qed

section \<open>The best candidate\<close>

text \<open>What it means that a candidate offers a slot.\<close>

definition candidate_slot ::
  "'j capacity_context \<Rightarrow> production_map_definition \<Rightarrow> schedule_request \<Rightarrow> string \<Rightarrow> downtime list
   \<Rightarrow> reservation list \<Rightarrow> schedule_candidate \<Rightarrow> capacity_profile \<Rightarrow> int \<Rightarrow> int \<Rightarrow> int \<Rightarrow> bool" where
  "candidate_slot ctx m input apparatus downtimes reservations c p reserved s e \<longleftrightarrow>
     candidate_allowed_for_order m apparatus (candidate_apparatus_id c) \<and>
     canonical_capacity_profile_for ctx (candidate_apparatus_id c) = Inr p \<and>
     profile_supports p (capability_requirements input) \<and>
     effective_duration_minutes p (duration_minutes input) = Inr reserved \<and>
     find_schedule_slot (ctx_civil ctx) p input (candidate_apparatus_id c) reserved downtimes reservations
       = Inr (s, e)"

text \<open>The state of the search after the candidates in \<open>tried\<close>.\<close>

definition no_later :: "scheduled_candidate \<Rightarrow> int \<Rightarrow> nat \<Rightarrow> bool" where
  "no_later b s j \<longleftrightarrow> sc_starts_at b < s \<or> sc_starts_at b = s \<and> sc_index b \<le> j"

definition search_ok ::
  "(schedule_candidate \<Rightarrow> capacity_profile \<Rightarrow> int \<Rightarrow> int \<Rightarrow> int \<Rightarrow> bool) \<Rightarrow> schedule_candidate list
   \<Rightarrow> scheduled_candidate option \<Rightarrow> bool" where
  "search_ok offers tried best \<longleftrightarrow>
     (case best of
        None \<Rightarrow> \<forall>j<length tried. \<forall>p d s e. \<not> offers (tried ! j) p d s e
      | Some b \<Rightarrow>
          sc_index b < length tried \<and>
          candidate_apparatus_id (sc_candidate b) = candidate_apparatus_id (tried ! sc_index b) \<and>
          offers (tried ! sc_index b) (sc_profile b) (sc_reserved_duration b) (sc_starts_at b) (sc_ends_at b) \<and>
          (\<forall>j<length tried. \<forall>p d s e. offers (tried ! j) p d s e \<longrightarrow> no_later b s j))"

lemma search_ok_skip:
  assumes "search_ok offers tried best" "\<And>p d s e. \<not> offers c p d s e"
  shows "search_ok offers (tried @ [c]) best"
  using assms
  by (cases best) (simp_all add: search_ok_def nth_append less_Suc_eq all_conj_distrib disj_imp, blast+)

lemma search_ok_offer:
  assumes ok: "search_ok offers tried best"
    and offer: "offers c p d s e" and only: "\<And>p' d' s' e'. offers c p' d' s' e' \<Longrightarrow> s' = s"
    and new: "sc_index b = length tried" "candidate_apparatus_id (sc_candidate b) = candidate_apparatus_id c"
      "sc_profile b = p" "sc_reserved_duration b = d" "sc_starts_at b = s" "sc_ends_at b = e"
  shows "search_ok offers (tried @ [c]) (if is_better s (length tried) best then Some b else best)"
proof (cases "is_better s (length tried) best")
  case True
  have "no_later b s' j" if "j < Suc (length tried)" "offers ((tried @ [c]) ! j) p' d' s' e'" for j p' d' s' e'
  proof (cases "j = length tried")
    case True
    then show ?thesis using that only new by (simp add: no_later_def)
  next
    case False
    then have j: "j < length tried" "offers (tried ! j) p' d' s' e'" using that by (simp_all add: nth_append)
    then obtain old where "best = Some old" "no_later old s' j"
      using ok by (cases best) (simp_all add: search_ok_def, blast+)
    then show ?thesis
      using True new ok by (auto simp: no_later_def is_better_def search_ok_def)
  qed
  then show ?thesis using True offer new by (simp add: search_ok_def)
next
  case False
  then obtain old where old: "best = Some old" by (auto simp: is_better_def split: option.splits)
  have "no_later old s' j" if "j < Suc (length tried)" "offers ((tried @ [c]) ! j) p' d' s' e'" for j p' d' s' e'
  proof (cases "j = length tried")
    case True
    then have "s' = s" using that only by simp
    then show ?thesis using False old ok True by (auto simp: no_later_def is_better_def search_ok_def)
  next
    case False
    then have "j < length tried" "offers (tried ! j) p' d' s' e'" using that by (simp_all add: nth_append)
    then show ?thesis using ok old by (simp add: search_ok_def) blast
  qed
  then show ?thesis using False ok old by (simp add: search_ok_def nth_append)
qed

lemma canonical_profile_id:
  "canonical_capacity_profile_for ctx a = Inr p \<Longrightarrow> profile_apparatus_id p = a"
  by (auto simp: canonical_capacity_profile_for_def validated_canonical_apparatus_def
      canonical_capacity_profile_def bind_outcome_eq_Inr Let_def split: if_splits)

lemma try_candidate_ok:
  fixes ctx :: "'j capacity_context" and m input apparatus downtimes reservations
  defines "offers \<equiv> candidate_slot ctx m input apparatus downtimes reservations"
  assumes ok: "search_ok offers tried (best_slot search)"
    and run: "try_candidate ctx m input apparatus downtimes reservations (length tried) c search = Inr search'"
  shows "search_ok offers (tried @ [c]) (best_slot search')"
proof (cases "candidate_allowed_for_order m apparatus (candidate_apparatus_id c)")
  case False
  then show ?thesis
    using run search_ok_skip [OF ok]
    by (simp add: try_candidate_def offers_def candidate_slot_def)
next
  case True
  obtain cfg p where cfg: "validated_canonical_apparatus ctx (candidate_apparatus_id c) = Inr cfg"
    and p: "canonical_capacity_profile cfg (ctx_now ctx) = Inr p"
    using run True by (auto simp: try_candidate_def bind_outcome_eq_Inr Let_def)
  have profile: "canonical_capacity_profile_for ctx (candidate_apparatus_id c) = Inr p"
    using cfg p by (simp add: canonical_capacity_profile_for_def)
  show ?thesis
  proof (cases "profile_supports p (capability_requirements input)")
    case False
    then have "best_slot search' = best_slot search"
      using run True cfg p by (auto simp: try_candidate_def Let_def)
    moreover have "\<not> offers c p' d s e" for p' d s e
      using False profile by (auto simp: offers_def candidate_slot_def)
    ultimately show ?thesis using search_ok_skip [OF ok] by simp
  next
    case supported: True
    obtain d where d: "effective_duration_minutes p (duration_minutes input) = Inr d"
      using run True cfg p supported by (auto simp: try_candidate_def bind_outcome_eq_Inr Let_def)
    let ?slot = "find_schedule_slot (ctx_civil ctx) p input (candidate_apparatus_id c) d downtimes reservations"
    have offer: "offers c p' d' s e \<longleftrightarrow> p' = p \<and> d' = d \<and> ?slot = Inr (s, e)" for p' d' s e
      using True profile supported d by (auto simp: offers_def candidate_slot_def)
    show ?thesis
    proof (cases ?slot)
      case (Inl x)
      then have "best_slot search' = best_slot search"
        using run True cfg p supported d by (auto simp: try_candidate_def Let_def)
      then show ?thesis using search_ok_skip [OF ok] offer Inl by simp
    next
      case (Inr r)
      obtain s e where r: "r = (s, e)" by force
      have "best_slot search' = (if is_better s (length tried) (best_slot search)
          then Some \<lparr> sc_index = length tried,
            sc_candidate = \<lparr> candidate_apparatus_id = candidate_apparatus_id c,
              candidate_apparatus = display_name (runtime_display (runtime_row cfg)) \<rparr>,
            sc_profile = p, sc_reserved_duration = d, sc_starts_at = s, sc_ends_at = e \<rparr>
          else best_slot search)"
        using run True cfg p supported d Inr r by (auto simp: try_candidate_def Let_def)
      then show ?thesis
        using Inr r offer by (simp only:) (intro search_ok_offer [OF ok], simp_all)
    qed
  qed
qed

lemma try_candidates_ok:
  fixes ctx :: "'j capacity_context" and m input apparatus downtimes reservations
  defines "offers \<equiv> candidate_slot ctx m input apparatus downtimes reservations"
  assumes "search_ok offers tried (best_slot search)"
    and "try_candidates ctx m input apparatus downtimes reservations (length tried) cs search = Inr search'"
  shows "search_ok offers (tried @ cs) (best_slot search')"
  using assms(2,3)
proof (induction cs arbitrary: tried search)
  case (Cons c cs)
  obtain s where s: "try_candidate ctx m input apparatus downtimes reservations (length tried) c search = Inr s"
    and rest: "try_candidates ctx m input apparatus downtimes reservations (length (tried @ [c])) cs s = Inr search'"
    using Cons.prems(2) by (auto simp: bind_outcome_eq_Inr)
  have "search_ok offers (tried @ [c]) (best_slot s)"
    unfolding offers_def by (rule try_candidate_ok [OF Cons.prems(1) [unfolded offers_def] s])
  from Cons.IH [OF this rest] show ?case by simp
qed simp

text \<open>A booking that is new is the best slot of the candidates, put into the store.\<close>

lemma new_booking:
  fixes ctx :: "'j capacity_context"
  assumes run: "schedule_apparatus_order ctx st input = Inr (r, st')"
    and n: "normalize_schedule_request input = Inr n"
    and fresh: "reservation_by_idempotency_key st (idempotency_key n) = None"
  obtains m b where
    "find (\<lambda>m. trim (map_id m) = request_order_id n) (ctx_maps ctx) = Some m"
    "search_ok (candidate_slot ctx m n (trim (request_apparatus_id n)) (apparatus_downtimes st)
        (reservations_with_active_sessions (apparatus_schedule_reservations st) (ctx_sessions ctx)))
      (\<lparr> candidate_apparatus_id = trim (request_apparatus_id n), candidate_apparatus = [] \<rparr>
        # candidate_apparatuses n) (Some b)"
    "put_apparatus_schedule_reservation st (new_reservation n b (ctx_now ctx))
       (capacity_slots (sc_profile b)) (finite_capacity (sc_profile b)) = Inr (r, st')"
proof -
  obtain m where valid: "is_valid (trim (request_apparatus_id n))"
    and m: "find (\<lambda>m. trim (map_id m) = request_order_id n) (ctx_maps ctx) = Some m"
    using run n by (auto simp: schedule_apparatus_order_def bind_outcome_eq_Inr canonical_id_of_def split: if_splits)
  let ?empty = "\<lparr> route_candidate_count = 0, supported_candidate_count = 0, capability_not_supported = False,
      capability_level_insufficient = False, best_slot = None \<rparr>"
  let ?cands = "\<lparr> candidate_apparatus_id = trim (request_apparatus_id n), candidate_apparatus = [] \<rparr>
        # candidate_apparatuses n"
  let ?rs = "reservations_with_active_sessions (apparatus_schedule_reservations st) (ctx_sessions ctx)"
  obtain search where search: "try_candidates ctx m n (trim (request_apparatus_id n)) (apparatus_downtimes st)
        ?rs 0 ?cands ?empty = Inr search"
    and rest: "(case best_slot search of
        Some best \<Rightarrow> put_apparatus_schedule_reservation st (new_reservation n best (ctx_now ctx))
          (capacity_slots (sc_profile best)) (finite_capacity (sc_profile best))
      | None \<Rightarrow> Inl (Err (no_slot_error search))) = Inr (r, st')"
    using run n fresh valid m
    by (auto simp: schedule_apparatus_order_def bind_outcome_eq_Inr canonical_id_of_def Let_def
        simp del: try_candidates.simps split: if_splits)
  obtain b where b: "best_slot search = Some b" using rest by (cases "best_slot search") auto
  have "search_ok (candidate_slot ctx m n (trim (request_apparatus_id n)) (apparatus_downtimes st) ?rs)
      ([] @ ?cands) (best_slot search)"
    using search by (intro try_candidates_ok [where search = ?empty]) (simp_all add: search_ok_def del: try_candidates.simps)
  then show thesis using that [OF m, of b] rest b by simp
qed

end
