(* ===== verification/Capacity_Plan.thy ===== *)
theory Capacity_Plan
  imports Capacity_Laws Route_Laws
begin

text \<open>
  The plan of an apparatus over time: a relation of the steps that change the store of
  reservations, the number of bookings that hold a slot at a time, retries of a request, and the
  properties of the capacity component.
\<close>

section \<open>Bookings\<close>

definition holds_slot :: "string \<Rightarrow> int \<Rightarrow> reservation \<Rightarrow> bool" where
  "holds_slot a t r \<longleftrightarrow> reserves_capacity (schedule_status_of r) \<and> reservation_apparatus_id r = a
     \<and> starts_at_unix r \<le> t \<and> t < ends_at_unix r"

definition occupancy :: "capacity_store \<Rightarrow> string \<Rightarrow> int \<Rightarrow> nat" where
  "occupancy st a t = length (filter (holds_slot a t) (apparatus_schedule_reservations st))"

lemma length_filter_insert:
  "length (filter P (bt_values (bt_insert k v m))) \<le> length (filter P (bt_values m)) + (if P v then 1 else 0)"
  by (induction m) (auto simp: bt_values_def)

lemma length_filter_replace:
  assumes "bt_wf m" "(k, r) \<in> set m" "P v \<Longrightarrow> P r"
  shows "length (filter P (bt_values (bt_insert k v m))) \<le> length (filter P (bt_values m))"
  using assms by (induction m) (fastforce simp: bt_values_def bt_wf_Cons)+

lemma length_filter_mono:
  "(\<And>x. P x \<Longrightarrow> Q x) \<Longrightarrow> length (filter P xs) \<le> length (filter Q xs)"
  by (induction xs) auto

text \<open>
  The steps of the service.  The contexts are the configurations the service may see.  A paused
  booking that becomes active takes its slot back without a check of the plan, so it is not a step
  here; starting work is checked separately.
\<close>

definition resumes :: "capacity_store \<Rightarrow> string \<Rightarrow> string \<Rightarrow> schedule_status \<Rightarrow> bool" where
  "resumes st order a new \<longleftrightarrow> new = SchActive \<and>
     list_ex (\<lambda>r. trim (reservation_order_id r) = trim order \<and> reservation_apparatus_id r = a
       \<and> schedule_status_of r = SchPaused) (apparatus_schedule_reservations st)"

inductive capacity_step :: "'j capacity_context set \<Rightarrow> capacity_store \<Rightarrow> capacity_store \<Rightarrow> bool"
  for ctxs where
  step_downtime: "\<lbrakk> ctx \<in> ctxs; service_put_apparatus_downtime ctx st d = Inr (d', st') \<rbrakk>
    \<Longrightarrow> capacity_step ctxs st st'"
| step_schedule: "\<lbrakk> ctx \<in> ctxs; schedule_apparatus_order ctx st input = Inr (r, st') \<rbrakk>
    \<Longrightarrow> capacity_step ctxs st st'"
| step_cancel: "cancel_apparatus_schedule_reservation st cancel = Inr (r, st') \<Longrightarrow> capacity_step ctxs st st'"
| step_status: "\<lbrakk> update_apparatus_schedule_reservation_status st order a new actor = Inr st';
    \<not> resumes st order a new \<rbrakk> \<Longrightarrow> capacity_step ctxs st st'"

definition empty_store :: capacity_store where
  "empty_store = \<lparr> downtimes_map = [], reservations_map = [] \<rparr>"

definition slots_agree :: "(string \<Rightarrow> nat option) \<Rightarrow> 'j capacity_context \<Rightarrow> bool" where
  "slots_agree slots ctx \<longleftrightarrow> (\<forall>a p. canonical_capacity_profile_for ctx a = Inr p \<longrightarrow>
     slots a = (if finite_capacity p then Some (capacity_slots p) else None))"

definition within_capacity :: "(string \<Rightarrow> nat option) \<Rightarrow> capacity_store \<Rightarrow> bool" where
  "within_capacity slots st \<longleftrightarrow> bt_wf (reservations_map st) \<and>
     (\<forall>a n t. slots a = Some n \<longrightarrow> occupancy st a t \<le> n)"

lemma within_replace:
  assumes "within_capacity slots st" "(k, r) \<in> set (reservations_map st)"
    and "\<And>a t. holds_slot a t v \<Longrightarrow> holds_slot a t r"
  shows "within_capacity slots (st \<lparr> reservations_map := bt_insert k v (reservations_map st) \<rparr>)"
proof -
  have wf: "bt_wf (reservations_map st)" using assms(1) by (simp add: within_capacity_def)
  have "length (filter (holds_slot a t) (bt_values (bt_insert k v (reservations_map st))))
      \<le> length (filter (holds_slot a t) (bt_values (reservations_map st)))" for a t
    using length_filter_replace [OF wf assms(2), of "holds_slot a t" v] assms(3) by blast
  then show ?thesis
    using assms(1) unfolding within_capacity_def occupancy_def apparatus_schedule_reservations_def
    by (simp add: bt_wf_insert) (meson order_trans)
qed

lemma within_put:
  assumes ok: "within_capacity slots st"
    and put: "put_apparatus_schedule_reservation st r n limited = Inr (r', st')"
    and slots: "slots (reservation_apparatus_id r) = (if limited then Some n else None)"
  shows "within_capacity slots st'"
proof (cases "find (\<lambda>item. reservation_key item = reservation_key r) (apparatus_schedule_reservations st)")
  case (Some existing)
  then have "st' = st" using put by (auto simp: put_apparatus_schedule_reservation_def split: if_splits)
  then show ?thesis using ok by simp
next
  case None
  let ?rs = "apparatus_schedule_reservations st"
  let ?overlaps = "\<lambda>i. reserves_capacity (schedule_status_of i)
    \<and> reservation_apparatus_id i = reservation_apparatus_id r
    \<and> starts_at_unix i < ends_at_unix r \<and> starts_at_unix r < ends_at_unix i"
  have st': "st' = st \<lparr> reservations_map := bt_insert (reservation_id r) r (reservations_map st) \<rparr>"
    and room: "limited \<Longrightarrow> length (filter ?overlaps ?rs) < n"
    using put None by (auto simp: put_apparatus_schedule_reservation_def Let_def split: if_splits)
  have "occupancy st' a t \<le> k" if k: "slots a = Some k" for a t k
  proof (cases "holds_slot a t r")
    case True
    then have "a = reservation_apparatus_id r" by (simp add: holds_slot_def)
    then have lim: limited "k = n" using slots k by (auto split: if_splits)
    have "holds_slot a t i \<Longrightarrow> ?overlaps i" for i using True by (auto simp: holds_slot_def)
    then have "occupancy st a t \<le> length (filter ?overlaps ?rs)"
      unfolding occupancy_def by (intro length_filter_mono) blast
    then show ?thesis
      using length_filter_insert [of "holds_slot a t" "reservation_id r" r "reservations_map st"]
        room [OF lim(1)] lim(2) True
      by (simp add: occupancy_def st' apparatus_schedule_reservations_def)
  next
    case False
    have "occupancy st a t \<le> k" using ok k by (simp add: within_capacity_def)
    then show ?thesis
      using length_filter_insert [of "holds_slot a t" "reservation_id r" r "reservations_map st"] False
      by (simp add: occupancy_def st' apparatus_schedule_reservations_def)
  qed
  then show ?thesis using ok by (simp add: within_capacity_def st')
qed

lemma within_cancel:
  assumes ok: "within_capacity slots st"
    and run: "cancel_apparatus_schedule_reservation st input = Inr (r, st')"
  shows "within_capacity slots st'"
proof -
  let ?k = "trim (cancel_reservation_id input)"
  obtain old where old: "bt_get (reservations_map st) ?k = Some old"
    and st': "st' = st \<lparr> reservations_map := bt_insert ?k (cancelled input old) (reservations_map st) \<rparr>"
    using run
    by (auto simp: cancel_apparatus_schedule_reservation_def bind_outcome_eq_Inr split: if_splits)
  show ?thesis
    unfolding st' using map_of_SomeD [OF old]
    by (rule within_replace [OF ok]) (simp add: holds_slot_def cancelled_def)
qed

lemma within_status:
  assumes ok: "within_capacity slots st"
    and run: "update_apparatus_schedule_reservation_status st order a new actor = Inr st'"
    and "\<not> resumes st order a new"
  shows "within_capacity slots st'"
proof (cases "st' = st")
  case True
  then show ?thesis using ok by simp
next
  case False
  let ?matches = "\<lambda>(_, r). trim (reservation_order_id r) = trim order \<and> reservation_apparatus_id r = a"
  obtain k r where found: "find ?matches (reservations_map st) = Some (k, r)"
    and allowed: "status_change_allowed (schedule_status_of r) new"
    and st': "st' = st \<lparr> reservations_map :=
      bt_insert k (r \<lparr> schedule_status_of := new, reservation_actor := actor \<rparr>) (reservations_map st) \<rparr>"
    using run False
    by (auto simp: update_apparatus_schedule_reservation_status_def split: option.splits if_splits)
  have mem: "(k, r) \<in> set (reservations_map st)" "?matches (k, r)"
    using found by (auto simp: find_Some_iff) (metis nth_mem)
  then have "r \<in> set (apparatus_schedule_reservations st)"
    by (force simp: apparatus_schedule_reservations_def bt_values_def)
  then have "reserves_capacity new \<Longrightarrow> reserves_capacity (schedule_status_of r)"
    using allowed mem(2) assms(3) by (cases new) (auto simp: resumes_def list_ex_iff)
  then show ?thesis
    unfolding st' by (intro within_replace [OF ok mem(1)]) (simp add: holds_slot_def)
qed

lemma within_schedule:
  assumes ok: "within_capacity slots st" and agree: "slots_agree slots ctx"
    and run: "schedule_apparatus_order ctx st input = Inr (r, st')"
  shows "within_capacity slots st'"
proof -
  obtain n where n: "normalize_schedule_request input = Inr n"
    using run by (auto simp: schedule_apparatus_order_def bind_outcome_eq_Inr)
  show ?thesis
  proof (cases "reservation_by_idempotency_key st (idempotency_key n)")
    case (Some existing)
    then have "st' = st"
      using run n by (auto simp: schedule_apparatus_order_def bind_outcome_eq_Inr split: if_splits)
    then show ?thesis using ok by simp
  next
    case None
    show ?thesis
    proof (rule new_booking [OF run n None])
      fix m b
      let ?cands = "\<lparr> candidate_apparatus_id = trim (request_apparatus_id n), candidate_apparatus = [] \<rparr>
        # candidate_apparatuses n"
      assume "search_ok (candidate_slot ctx m n (trim (request_apparatus_id n)) (apparatus_downtimes st)
          (reservations_with_active_sessions (apparatus_schedule_reservations st) (ctx_sessions ctx)))
        ?cands (Some b)"
      then have "canonical_capacity_profile_for ctx (candidate_apparatus_id (sc_candidate b)) = Inr (sc_profile b)"
        by (simp add: search_ok_def candidate_slot_def)
      then have "slots (reservation_apparatus_id (new_reservation n b (ctx_now ctx))) =
          (if finite_capacity (sc_profile b) then Some (capacity_slots (sc_profile b)) else None)"
        using agree by (simp add: slots_agree_def new_reservation_def)
      moreover assume "put_apparatus_schedule_reservation st (new_reservation n b (ctx_now ctx))
        (capacity_slots (sc_profile b)) (finite_capacity (sc_profile b)) = Inr (r, st')"
      ultimately show ?thesis by (intro within_put [OF ok])
    qed
  qed
qed

lemma within_step:
  assumes "capacity_step ctxs st st'" "\<And>ctx. ctx \<in> ctxs \<Longrightarrow> slots_agree slots ctx" "within_capacity slots st"
  shows "within_capacity slots st'"
  using assms(1)
proof cases
  case (step_downtime ctx d d')
  then show ?thesis
    using assms(3)
    by (auto simp: service_put_apparatus_downtime_def bind_outcome_eq_Inr put_apparatus_downtime_def
        within_capacity_def occupancy_def apparatus_schedule_reservations_def)
next
  case (step_schedule ctx input r)
  then show ?thesis using within_schedule assms(2,3) by blast
next
  case (step_cancel cancel r)
  then show ?thesis using within_cancel assms(3) by blast
next
  case (step_status order a new actor)
  then show ?thesis using within_status assms(3) by blast
qed

section \<open>Retries\<close>

lemma find_inserted:
  "find P (bt_values m) = None \<Longrightarrow> P v \<Longrightarrow> find P (bt_values (bt_insert k v m)) = Some v"
  by (induction m) (auto simp: bt_values_def split: if_splits)

lemma put_then_lookup:
  assumes "put_apparatus_schedule_reservation st r n limited = Inr (r', st')"
  shows "find (\<lambda>i. reservation_key i = reservation_key r) (apparatus_schedule_reservations st') = Some r'"
proof (cases "find (\<lambda>i. reservation_key i = reservation_key r) (apparatus_schedule_reservations st)")
  case (Some existing)
  then show ?thesis using assms by (auto simp: put_apparatus_schedule_reservation_def split: if_splits)
next
  case None
  then show ?thesis
    using assms
    by (auto simp: put_apparatus_schedule_reservation_def apparatus_schedule_reservations_def Let_def
        intro!: find_inserted split: if_splits)
qed

lemma normalized_trimmed:
  assumes "normalize_schedule_request input = Inr n"
  shows "request_order_id n = trim (request_order_id input)" "idempotency_key n = trim (idempotency_key input)"
    "request_apparatus_id n = trim (request_apparatus_id input)"
    "earliest_start_unix n = earliest_start_unix input" "0 < earliest_start_unix n"
    "0 < duration_minutes n" "int (duration_minutes n) \<le> 43200"
  using assms by (auto simp: normalize_schedule_request_def bind_outcome_eq_Inr Let_def split: if_splits)

lemma booked_key:
  assumes run: "schedule_apparatus_order ctx st input = Inr (r, st')"
    and n: "normalize_schedule_request input = Inr n"
  shows "reservation_by_idempotency_key st' (idempotency_key n) = Some r"
    "trim (reservation_order_id r) = request_order_id n"
proof -
  have both: "reservation_by_idempotency_key st' (idempotency_key n) = Some r
      \<and> trim (reservation_order_id r) = request_order_id n"
  proof (cases "reservation_by_idempotency_key st (idempotency_key n)")
    case (Some existing)
    then show ?thesis
      using run n by (auto simp: schedule_apparatus_order_def bind_outcome_eq_Inr split: if_splits)
  next
    case None
    show ?thesis
    proof (rule new_booking [OF run n None])
      fix m b
      let ?r = "new_reservation n b (ctx_now ctx)"
      assume put: "put_apparatus_schedule_reservation st ?r
        (capacity_slots (sc_profile b)) (finite_capacity (sc_profile b)) = Inr (r, st')"
      have "r = ?r"
        using put None normalized_trimmed(2) [OF n]
        by (auto simp: put_apparatus_schedule_reservation_def reservation_by_idempotency_key_def
            new_reservation_def Let_def split: if_splits)
      then show ?thesis
        using put_then_lookup [OF put] normalized_trimmed(1,2) [OF n]
        by (simp add: reservation_by_idempotency_key_def new_reservation_def)
    qed
  qed
  then show "reservation_by_idempotency_key st' (idempotency_key n) = Some r"
    "trim (reservation_order_id r) = request_order_id n" by simp_all
qed

section \<open>Orders that occupy an apparatus\<close>

text \<open>The other orders at work on an apparatus: in its queue, in a run session or booked for now.\<close>

definition queued_others :: "string \<Rightarrow> string \<Rightarrow> all_queue_states \<Rightarrow> string set" where
  "queued_others a order all_states =
     {trim other | other c states state. (c, states) \<in> set all_states \<and> trim c = a \<and> (other, state) \<in> set states
        \<and> parse_state state = Some InProgress \<and> \<not> eq_ignore_ascii_case other order}"

definition running_others :: "string \<Rightarrow> string \<Rightarrow> 'j order_run_session list \<Rightarrow> string set" where
  "running_others a order sessions =
     {trim (session_order_id s) | s. s \<in> set sessions \<and> session_status s = RunActive
        \<and> trim (session_apparatus s) = a \<and> \<not> eq_ignore_ascii_case (session_order_id s) order}"

definition booked_others :: "string \<Rightarrow> string \<Rightarrow> int \<Rightarrow> reservation list \<Rightarrow> string set" where
  "booked_others a order now reservations =
     {trim (reservation_order_id r) | r. r \<in> set reservations \<and> holds_slot a now r
        \<and> \<not> eq_ignore_ascii_case (reservation_order_id r) order}"

lemma insert_if_set:
  fixes f :: "'a \<Rightarrow> string" and P
  defines "add \<equiv> fold (\<lambda>x occ. if P x then bs_insert (f x) occ else occ)"
  shows "set (add xs occ) = set occ \<union> {f x | x. x \<in> set xs \<and> P x}"
    and "sorted_wrt (<) occ \<Longrightarrow> sorted_wrt (<) (add xs occ)"
  unfolding add_def by (induction xs arbitrary: occ) (auto simp: sorted_bs_insert)

lemma occupied_by_states_result:
  assumes "\<forall>(c, _)\<in>set all_states. is_valid (trim c)" "sorted_wrt (<) occ"
  obtains occ' where "occupied_by_states a order all_states occ = Inr occ'" "sorted_wrt (<) occ'"
    "set occ' = set occ \<union> queued_others a order all_states"
  using assms
proof (induction all_states arbitrary: occ thesis)
  case Nil
  then show ?case by (simp add: queued_others_def)
next
  case (Cons e all_states)
  obtain c states where e: "e = (c, states)" by force
  let ?in_use = "\<lambda>(other, state). parse_state state = Some InProgress \<and> \<not> eq_ignore_ascii_case other order"
  let ?add = "fold (\<lambda>x occ. if ?in_use x then bs_insert (trim (fst x)) occ else occ)"
  define next_occ where "next_occ = (if trim c = a then ?add states occ else occ)"
  have sorted: "sorted_wrt (<) next_occ"
    using Cons.prems(3) insert_if_set(2) [of occ ?in_use "\<lambda>x. trim (fst x)" states] by (simp add: next_occ_def)
  have members: "set next_occ = set occ \<union> (if trim c = a then {trim (fst x) | x. x \<in> set states \<and> ?in_use x} else {})"
    using insert_if_set(1) [of ?in_use "\<lambda>x. trim (fst x)" states occ] by (simp add: next_occ_def)
  have unfold: "occupied_by_states a order (e # all_states) occ = occupied_by_states a order all_states next_occ"
    using Cons.prems(2) by (simp add: e canonical_id_of_def next_occ_def case_prod_unfold)
  have rest: "\<forall>(c, _)\<in>set all_states. is_valid (trim c)" using Cons.prems(2) by simp
  obtain occ' where r: "occupied_by_states a order all_states next_occ = Inr occ'" "sorted_wrt (<) occ'"
    "set occ' = set next_occ \<union> queued_others a order all_states"
    using Cons.IH [OF _ rest sorted] by blast
  have "set occ' = set occ \<union> queued_others a order (e # all_states)"
    unfolding r(3) members e queued_others_def by (auto split: if_splits)
  then show ?case using Cons.prems(1) unfold r(1,2) by simp
qed

lemma occupied_by_sessions_result:
  assumes "\<forall>s\<in>set sessions. is_valid (trim (session_apparatus s))" "sorted_wrt (<) occ"
  obtains occ' where "occupied_by_sessions a order sessions occ = Inr occ'" "sorted_wrt (<) occ'"
    "set occ' = set occ \<union> running_others a order sessions"
  using assms
proof (induction sessions arbitrary: occ thesis)
  case Nil
  then show ?case by (simp add: running_others_def)
next
  case (Cons s sessions)
  let ?runs = "session_status s = RunActive \<and> trim (session_apparatus s) = a
    \<and> \<not> eq_ignore_ascii_case (session_order_id s) order"
  let ?occ = "if ?runs then bs_insert (trim (session_order_id s)) occ else occ"
  have sorted: "sorted_wrt (<) ?occ" using Cons.prems(3) by (simp add: sorted_bs_insert)
  have unfold: "occupied_by_sessions a order (s # sessions) occ = occupied_by_sessions a order sessions ?occ"
    using Cons.prems(2) by (simp add: canonical_id_of_def)
  have rest: "\<forall>s\<in>set sessions. is_valid (trim (session_apparatus s))" using Cons.prems(2) by simp
  obtain occ' where r: "occupied_by_sessions a order sessions ?occ = Inr occ'" "sorted_wrt (<) occ'"
    "set occ' = set ?occ \<union> running_others a order sessions"
    using Cons.IH [OF _ rest sorted] by blast
  have "set occ' = set occ \<union> running_others a order (s # sessions)"
    unfolding r(3) running_others_def by auto
  then show ?case using Cons.prems(1) unfold r(1,2) by simp
qed

lemma running_others_active:
  "trim a = a \<Longrightarrow> running_others a order (active_sessions_for ctx a) = running_others a order (ctx_sessions ctx)"
  by (auto simp: running_others_def active_sessions_for_def)

lemma occupied_by_reservations_result:
  shows "set (occupied_by_reservations a order now rs occ) = set occ \<union> booked_others a order now rs"
    and "sorted_wrt (<) occ \<Longrightarrow> sorted_wrt (<) (occupied_by_reservations a order now rs occ)"
proof -
  let ?P = "\<lambda>r. reserves_capacity (schedule_status_of r) \<and> reservation_apparatus_id r = a
    \<and> starts_at_unix r \<le> now \<and> now < ends_at_unix r \<and> \<not> eq_ignore_ascii_case (reservation_order_id r) order"
  show "set (occupied_by_reservations a order now rs occ) = set occ \<union> booked_others a order now rs"
    using insert_if_set(1) [of ?P "\<lambda>r. trim (reservation_order_id r)" rs occ]
    by (auto simp: occupied_by_reservations_def booked_others_def holds_slot_def)
  show "sorted_wrt (<) occ \<Longrightarrow> sorted_wrt (<) (occupied_by_reservations a order now rs occ)"
    using insert_if_set(2) [of occ ?P "\<lambda>r. trim (reservation_order_id r)" rs]
    by (simp add: occupied_by_reservations_def)
qed

section \<open>Durations\<close>

lemma ceiling_is_least:
  assumes "0 < (e::nat)"
  shows "(LEAST n. d * 100 \<le> n * e) = (d * 100 + e - 1) div e"
proof (rule Least_equality)
  have "d * 100 + e - 1 = (d * 100 + e - 1) div e * e + (d * 100 + e - 1) mod e" by simp
  moreover have "(d * 100 + e - 1) mod e \<le> e - 1" using mod_less_divisor [OF assms] by (metis Suc_pred' assms less_Suc_eq_le)
  ultimately show "d * 100 \<le> (d * 100 + e - 1) div e * e" using assms by linarith
  show "(d * 100 + e - 1) div e \<le> n" if "d * 100 \<le> n * e" for n
  proof -
    have "d * 100 + e - 1 < (n + 1) * e" using that assms by simp
    then show ?thesis by (metis Suc_eq_plus1 less_Suc_eq_le less_mult_imp_div_less)
  qed
qed

lemma duration_value:
  assumes "0 < efficiency_percent p"
  shows "effective_duration_minutes p d =
    (let total = (LEAST n. d * 100 \<le> n * efficiency_percent p) + setup_minutes p + cleanup_minutes p in
     if int total \<le> u32_max then Inr (int total) else Inl (Err ScheduleInputInvalid))"
proof -
  let ?e = "efficiency_percent p"
  have "int d * 100 + int ?e - 1 = int (d * 100 + ?e - 1)" using assms by simp
  then have "(int d * 100 + int ?e - 1) div int ?e = int (LEAST n. d * 100 \<le> n * ?e)"
    by (simp only: ceiling_is_least [OF assms] zdiv_int)
  then show ?thesis
    using assms by (simp only: effective_duration_minutes_def Let_def) (auto simp: u32_max_def u64_max_def)
qed

lemma projected_profile:
  assumes "validate_revision r = Inr ()" "revision_is_active r"
  obtains p where
    "canonical_capacity_profile (configuration_of_set (project_apparatus_revision r h)) now = Inr p"
    "capacity_slots p = capacity_slots_of (capacity r)" "setup_minutes p = setup_minutes_of (capacity r)"
    "cleanup_minutes p = cleanup_minutes_of (capacity r)"
    "efficiency_percent p = efficiency_percent_of (capacity r)"
    "0 < efficiency_percent p" "0 < capacity_slots p"
proof -
  let ?c = "configuration_of_set (project_apparatus_revision r h)"
  have "configuration_is_active ?c"
    using assms(2) unfolding configuration_is_active_def revision_is_active_def projected_fields by simp
  moreover have "row_setup_minutes (capacity_row ?c) = setup_minutes_of (capacity r)"
    "row_cleanup_minutes (capacity_row ?c) = cleanup_minutes_of (capacity r)"
    by (simp_all add: configuration_of_set_def project_apparatus_revision_def
      runtime_apparatus_configuration.defs Let_def split: capacity_availability.split)
  moreover have "0 < efficiency_percent_of (capacity r)" "0 < capacity_slots_of (capacity r)"
    using validated_revision(3) [OF assms(1)]
    by (auto simp: validate_capacity_def bind_outcome_eq_Inr Let_def)
  ultimately show thesis
    using that projected_sources [of r h] projected_fields(7,8) [of r h]
    by (simp add: canonical_capacity_profile_def Let_def)
qed

section \<open>A sample plan\<close>

text \<open>The calendar of Unix time, in which day zero is a Thursday.\<close>

definition sample_civil :: calendar where
  "sample_civil t = Some (nat ((t div 86400 + 3) mod 7 + 1), nat (t mod 86400 div 3600), nat (t mod 3600 div 60))"

definition sample_ctx :: "unit capacity_context" where
  "sample_ctx = \<lparr> ctx_maps = [route_sample], ctx_sessions = [],
     ctx_resolve = (\<lambda>a. Inr (Some (configuration_of_set
       (project_apparatus_revision (sample_revision \<lparr> revision_apparatus_id := a \<rparr>) [])))),
     ctx_civil = sample_civil, ctx_now = 345600 \<rparr>"

definition sample_actor :: queue_action_actor where
  "sample_actor = \<lparr> actor_role = ''worker'', actor_ref = ''w1'', actor_display_name = ''W'' \<rparr>"

definition sample_request :: schedule_request where
  "sample_request = \<lparr> request_order_id = map_id route_sample,
     request_apparatus_id = ''apparatus:default:laminat_1'', request_apparatus = [],
     earliest_start_unix = 345590, latest_end_unix = None, duration_minutes = 10, request_priority = 0,
     request_source = [], request_reason = [], idempotency_key = '' k1 '', capability_requirements = [],
     candidate_apparatuses = [\<lparr> candidate_apparatus_id = ''apparatus:default:bosma_7'', candidate_apparatus = [] \<rparr>],
     request_actor = sample_actor \<rparr>"

text \<open>The laminator is down for an hour, so that the order goes to the other apparatus.\<close>

definition sample_store :: capacity_store where
  "sample_store = put_apparatus_downtime empty_store
     \<lparr> downtime_id = ''d'', downtime_apparatus_id = ''apparatus:default:laminat_1'', downtime_apparatus = [],
       downtime_starts_at = 345600, downtime_ends_at = 345720, downtime_reason = ''repair'',
       downtime_active = True, downtime_actor = sample_actor, downtime_created_at = 1 \<rparr>"

definition sample_booking :: reservation where
  "sample_booking = \<lparr> reservation_id = ''apparatus-reservation:k1'', reservation_key = ''k1'',
     reservation_order_id = map_id route_sample, reservation_apparatus_id = ''apparatus:default:bosma_7'',
     reservation_apparatus = ''Laminator'', starts_at_unix = 345600, ends_at_unix = 347400,
     requested_duration_minutes = 10, reserved_duration_minutes = 30, schedule_status_of = SchPlanned,
     reservation_priority = 0, reservation_source = [], reservation_reason = [],
     reservation_requirements = [], reservation_actor = sample_actor, reservation_created_at = 345600 \<rparr>"

definition booked_store :: capacity_store where
  "booked_store = sample_store \<lparr> reservations_map := [(''apparatus-reservation:k1'', sample_booking)] \<rparr>"

lemma sample_booked: "schedule_apparatus_order sample_ctx sample_store sample_request = Inr (sample_booking, booked_store)"
  by code_simp

lemma sample_slots: "slots_agree (\<lambda>_. Some 1) sample_ctx"
proof -
  have "finite_capacity p \<and> capacity_slots p = 1" if "canonical_capacity_profile_for sample_ctx a = Inr p" for a p
    using that
    by (auto simp: canonical_capacity_profile_for_def validated_canonical_apparatus_def
        resolve_canonical_apparatus_def sample_ctx_def canonical_capacity_profile_def bind_outcome_eq_Inr Let_def
        configuration_of_set_def project_apparatus_revision_def runtime_apparatus_configuration.defs
        sample_revision_def sample_draft_def normalize_draft_def canonical_apparatus_draft.defs
        split: if_splits)
  then show ?thesis by (simp add: slots_agree_def)
qed

section \<open>Properties\<close>



text \<open>C6: The plan never exceeds the capacity.  Whatever downtimes are entered, orders scheduled,
  bookings cancelled and statuses changed, starting with an empty store: at no time do more
  bookings hold a slot of an apparatus than it has slots.  Taking a paused booking up again is the
  one change left out.\<close>

theorem capacity_never_exceeded:
  assumes "(capacity_step ctxs)\<^sup>*\<^sup>* empty_store st" "\<forall>ctx\<in>ctxs. slots_agree slots ctx" "slots a = Some n"
  shows "occupancy st a t \<le> n"
proof -
  have "within_capacity slots empty_store"
    by (simp add: within_capacity_def occupancy_def empty_store_def apparatus_schedule_reservations_def
        bt_values_def)
  then have "within_capacity slots st"
    by (rule rtranclp_induct [OF assms(1)]) (use within_step assms(2) in blast)
  then show ?thesis using assms(3) by (simp add: within_capacity_def)
qed

theorem capacity_never_exceeded_witness:
  "\<exists>st. (capacity_step {sample_ctx})\<^sup>*\<^sup>* empty_store st \<and>
    occupancy st ''apparatus:default:laminat_1'' 345600 = 1 \<and>
    (\<forall>t. occupancy st ''apparatus:default:laminat_1'' t \<le> 1)"
proof -
  let ?run = "schedule_apparatus_order sample_ctx empty_store sample_request"
  let ?st = "snd (projr ?run)"
  have "is_ok ?run" and one: "occupancy ?st ''apparatus:default:laminat_1'' 345600 = 1" by code_simp+
  then have "?run = Inr (fst (projr ?run), ?st)" by (cases ?run) simp_all
  then have steps: "(capacity_step {sample_ctx})\<^sup>*\<^sup>* empty_store ?st"
    by (intro r_into_rtranclp step_schedule [OF singletonI])
  show ?thesis
    using capacity_never_exceeded [OF steps, of "\<lambda>_. Some 1"] sample_slots steps one by fastforce
qed

text \<open>C8: Scheduling books the best candidate.  A new booking is planned on the primary apparatus or
  one of its alternatives, each on the route of the order and able to do the work, in a slot this
  candidate offers.  No candidate offers an earlier start, and of those with the same start it is
  the first.\<close>

theorem schedule_picks_best:
  assumes "schedule_apparatus_order ctx st input = Inr (r, st')"
    and "normalize_schedule_request input = Inr n"
    and "reservation_by_idempotency_key st (idempotency_key n) = None"
    and "cands = \<lparr> candidate_apparatus_id = trim (request_apparatus_id n), candidate_apparatus = [] \<rparr>
        # candidate_apparatuses n"
    and "rs = reservations_with_active_sessions (apparatus_schedule_reservations st) (ctx_sessions ctx)"
  shows "\<exists>m\<in>set (ctx_maps ctx). \<exists>i<length cands. \<exists>p d.
    trim (map_id m) = request_order_id n \<and> schedule_status_of r = SchPlanned \<and>
    reservation_order_id r = request_order_id n \<and>
    reservation_apparatus_id r = candidate_apparatus_id (cands ! i) \<and> reserved_duration_minutes r = nat d \<and>
    candidate_slot ctx m n (trim (request_apparatus_id n)) (apparatus_downtimes st) rs (cands ! i) p d
      (starts_at_unix r) (ends_at_unix r) \<and>
    (\<forall>j<length cands. \<forall>p' d' s e.
      candidate_slot ctx m n (trim (request_apparatus_id n)) (apparatus_downtimes st) rs (cands ! j) p' d' s e \<longrightarrow>
      starts_at_unix r < s \<or> starts_at_unix r = s \<and> i \<le> j)"
proof (rule new_booking [OF assms(1-3)])
  fix m b
  let ?offers = "candidate_slot ctx m n (trim (request_apparatus_id n)) (apparatus_downtimes st) rs"
  assume m: "find (\<lambda>m. trim (map_id m) = request_order_id n) (ctx_maps ctx) = Some m"
    and ok: "search_ok (candidate_slot ctx m n (trim (request_apparatus_id n)) (apparatus_downtimes st)
        (reservations_with_active_sessions (apparatus_schedule_reservations st) (ctx_sessions ctx)))
      (\<lparr> candidate_apparatus_id = trim (request_apparatus_id n), candidate_apparatus = [] \<rparr>
        # candidate_apparatuses n) (Some b)"
    and put: "put_apparatus_schedule_reservation st (new_reservation n b (ctx_now ctx))
      (capacity_slots (sc_profile b)) (finite_capacity (sc_profile b)) = Inr (r, st')"
  have best: "search_ok ?offers cands (Some b)" using ok assms(4,5) by simp
  have "r = new_reservation n b (ctx_now ctx)"
    using put assms(3) normalized_trimmed(2) [OF assms(2)]
    by (auto simp: put_apparatus_schedule_reservation_def reservation_by_idempotency_key_def
        new_reservation_def Let_def split: if_splits)
  then have r: "schedule_status_of r = SchPlanned" "reservation_order_id r = request_order_id n"
    "reservation_apparatus_id r = candidate_apparatus_id (sc_candidate b)"
    "reserved_duration_minutes r = nat (sc_reserved_duration b)"
    "starts_at_unix r = sc_starts_at b" "ends_at_unix r = sc_ends_at b"
    by (simp_all add: new_reservation_def)
  have "m \<in> set (ctx_maps ctx)" "trim (map_id m) = request_order_id n"
    using m by (auto simp: find_Some_iff)
  then show ?thesis
    using best unfolding r search_ok_def option.case no_later_def
    by (intro bexI [of _ m] exI [of _ "sc_index b"] exI [of _ "sc_profile b"]
        exI [of _ "sc_reserved_duration b"]) auto
qed

theorem schedule_picks_best_witness:
  "\<exists>n p d. normalize_schedule_request sample_request = Inr n \<and>
    candidate_slot sample_ctx route_sample n ''apparatus:default:laminat_1'' (apparatus_downtimes sample_store) []
      (candidate_apparatuses n ! 0) p d 345600 347400"
proof -
  let ?n = "projr (normalize_schedule_request sample_request)"
  let ?cands = "\<lparr> candidate_apparatus_id = trim (request_apparatus_id ?n), candidate_apparatus = [] \<rparr>
        # candidate_apparatuses ?n"
  have "is_ok (normalize_schedule_request sample_request)" by code_simp
  then have n: "normalize_schedule_request sample_request = Inr ?n"
    by (cases "normalize_schedule_request sample_request") simp_all
  have "reservation_by_idempotency_key sample_store (idempotency_key ?n) = None"
    and len: "length (candidate_apparatuses ?n) = 1"
    and primary: "trim (request_apparatus_id ?n) = ''apparatus:default:laminat_1''"
    and facts: "reservation_apparatus_id sample_booking \<noteq> trim (request_apparatus_id ?n)"
      "ctx_maps sample_ctx = [route_sample]"
      "reservations_with_active_sessions (apparatus_schedule_reservations sample_store) (ctx_sessions sample_ctx) = []"
      "starts_at_unix sample_booking = 345600" "ends_at_unix sample_booking = 347400"
    by code_simp+
  then obtain i p d where i: "i < length ?cands"
    "reservation_apparatus_id sample_booking = candidate_apparatus_id (?cands ! i)"
    "candidate_slot sample_ctx route_sample ?n (trim (request_apparatus_id ?n)) (apparatus_downtimes sample_store) []
      (?cands ! i) p d 345600 347400"
    using schedule_picks_best [OF sample_booked n _ refl refl] by (simp only: facts) auto
  have "i = 1" using i(1,2) facts(1) len by (cases i) auto
  then show ?thesis using n i(3) primary by auto
qed

text \<open>C34: Sending a request again.  When the order was booked on the requested apparatus, the same
  request returns the same booking and changes nothing.  When it was booked on an alternative, the
  same request is refused as a conflict with itself.\<close>

theorem schedule_retry:
  assumes "schedule_apparatus_order ctx st input = Inr (r, st')"
  shows "schedule_apparatus_order ctx st' input =
    (if reservation_apparatus_id r = trim (request_apparatus_id input) then Inr (r, st')
     else Inl (Err ScheduleIdempotencyConflict))"
proof -
  obtain n where n: "normalize_schedule_request input = Inr n"
    using assms by (auto simp: schedule_apparatus_order_def bind_outcome_eq_Inr)
  note booked = booked_key [OF assms n] and fields = normalized_trimmed(3) [OF n]
  obtain c m where "canonical_id_of (request_apparatus_id n) = Some (trim (request_apparatus_id input))"
    "validated_canonical_apparatus ctx (trim (request_apparatus_id input)) = Inr c"
    "find (\<lambda>m. trim (map_id m) = request_order_id n) (ctx_maps ctx) = Some m"
    using assms n fields
    by (auto simp: schedule_apparatus_order_def bind_outcome_eq_Inr canonical_id_of_def split: if_splits)
  then show ?thesis using n booked by (simp add: schedule_apparatus_order_def)
qed

theorem schedule_retry_witness:
  "schedule_apparatus_order sample_ctx sample_store sample_request = Inr (sample_booking, booked_store) \<and>
   schedule_apparatus_order sample_ctx booked_store sample_request = Inl (Err ScheduleIdempotencyConflict)"
proof -
  have "reservation_apparatus_id sample_booking \<noteq> trim (request_apparatus_id sample_request)" by code_simp
  then show ?thesis using schedule_retry [OF sample_booked] sample_booked by simp
qed

text \<open>C32: The check before work starts.  For an apparatus with a profile it answers exactly what the
  plan says: unavailable in a downtime, no working window outside the windows, a conflict when the
  other orders at work on the apparatus fill its slots, and otherwise the work may start.  An order
  that is queued, running and booked at once counts once.\<close>

theorem execution_capacity_check:
  assumes "is_valid (trim apparatus)" "canonical_capacity_profile_for ctx (trim apparatus) = Inr p"
    and "\<forall>(c, _)\<in>set all_states. is_valid (trim c)"
    and "others = queued_others (trim apparatus) (trim order) all_states
      \<union> running_others (trim apparatus) (trim order) (ctx_sessions ctx)
      \<union> booked_others (trim apparatus) (trim order) (ctx_now ctx) (apparatus_schedule_reservations st)"
  shows "ensure_apparatus_execution_capacity ctx st apparatus order all_states =
    (if \<exists>d\<in>set (apparatus_downtimes st). downtime_active d \<and> downtime_apparatus_id d = trim apparatus
          \<and> downtime_starts_at d \<le> ctx_now ctx \<and> ctx_now ctx < downtime_ends_at d
     then Inl (Err CapacityUnavailable)
     else if \<not> fits_working_window (ctx_civil ctx) p (ctx_now ctx) (wrap_i64 (ctx_now ctx + 60))
     then Inl (Err CapacityNoWorkingWindow)
     else if finite_capacity p \<and> capacity_slots p \<le> card others then Inl (Err CapacityConflict)
     else Inr ())"
proof -
  let ?a = "trim apparatus" and ?o = "trim order"
  obtain o1 where o1: "occupied_by_states ?a ?o all_states [] = Inr o1" "sorted_wrt (<) o1"
    "set o1 = queued_others ?a ?o all_states"
    using occupied_by_states_result [OF assms(3), of "[]" ?a ?o] by auto
  have v: "\<forall>s\<in>set (active_sessions_for ctx ?a). is_valid (trim (session_apparatus s))"
    using assms(1) by (simp add: active_sessions_for_def)
  obtain o2 where o2: "occupied_by_sessions ?a ?o (active_sessions_for ctx ?a) o1 = Inr o2"
    "sorted_wrt (<) o2" "set o2 = set o1 \<union> running_others ?a ?o (ctx_sessions ctx)"
    by (rule occupied_by_sessions_result [OF v o1(2), where a = ?a and order = ?o])
      (simp add: running_others_active)
  define o3 where "o3 = occupied_by_reservations ?a ?o (ctx_now ctx) (apparatus_schedule_reservations st) o2"
  have "set o3 = others" "distinct o3"
    using occupied_by_reservations_result [where occ = o2] o1(3) o2(2,3) assms(4)
    by (auto simp: o3_def strict_sorted_iff)
  then have len: "length o3 = card others" using distinct_card [of o3] by simp
  show ?thesis
    unfolding ensure_apparatus_execution_capacity_def Let_def canonical_id_of_def if_P [OF assms(1)]
      ok_or_simps bind_outcome_simps assms(2) canonical_profile_id [OF assms(2)] o1(1) o2(1)
      o3_def [symmetric] len list_ex_iff
    by (auto simp only: guard_outcome_def split: if_split)
qed

theorem execution_capacity_check_witness:
  "ensure_apparatus_execution_capacity sample_ctx booked_store ''apparatus:default:bosma_7'' ''o2''
     [(''apparatus:default:bosma_7'', [(map_id route_sample, ''in_progress'')])] = Inl (Err CapacityConflict) \<and>
   ensure_apparatus_execution_capacity sample_ctx booked_store ''apparatus:default:bosma_7'' (map_id route_sample)
     [] = Inr ()"
proof -
  let ?a = "''apparatus:default:bosma_7''"
  let ?p = "projr (canonical_capacity_profile_for sample_ctx ?a)"
  have a: "is_valid (trim ?a)" "trim ?a = ?a" "trim ''o2'' = ''o2''"
    "trim (map_id route_sample) = map_id route_sample" by code_simp+
  have "is_ok (canonical_capacity_profile_for sample_ctx ?a)" by code_simp
  then have p: "canonical_capacity_profile_for sample_ctx (trim ?a) = Inr ?p"
    unfolding a by (cases "canonical_capacity_profile_for sample_ctx ?a") simp_all
  have fit: "fits_working_window (ctx_civil sample_ctx) ?p (ctx_now sample_ctx) (wrap_i64 (ctx_now sample_ctx + 60))"
    and slots: "finite_capacity ?p" "capacity_slots ?p = 1"
    and down: "\<not> list_ex (\<lambda>d. downtime_active d \<and> downtime_apparatus_id d = ?a
      \<and> downtime_starts_at d \<le> ctx_now sample_ctx \<and> ctx_now sample_ctx < downtime_ends_at d)
      (apparatus_downtimes booked_store)"
    and book: "apparatus_schedule_reservations booked_store = [sample_booking]" "ctx_sessions sample_ctx = []"
      "holds_slot ?a (ctx_now sample_ctx) sample_booking"
      "\<not> eq_ignore_ascii_case (reservation_order_id sample_booking) ''o2''"
      "eq_ignore_ascii_case (reservation_order_id sample_booking) (map_id route_sample)"
      "trim (reservation_order_id sample_booking) = map_id route_sample"
      "\<not> eq_ignore_ascii_case (map_id route_sample) ''o2''" "parse_state ''in_progress'' = Some InProgress"
    by code_simp+
  have "queued_others ?a ''o2'' [(?a, [(map_id route_sample, ''in_progress'')])] = {map_id route_sample}"
    "queued_others ?a (map_id route_sample) [] = {}"
    "booked_others ?a ''o2'' (ctx_now sample_ctx) [sample_booking] = {map_id route_sample}"
    "booked_others ?a (map_id route_sample) (ctx_now sample_ctx) [sample_booking] = {}"
    using book a by (auto simp: queued_others_def booked_others_def)
  then show ?thesis
    using execution_capacity_check [OF a(1) p _ refl, where st = booked_store and order = "''o2''"
        and all_states = "[(?a, [(map_id route_sample, ''in_progress'')])]"]
      execution_capacity_check [OF a(1) p _ refl, where st = booked_store and order = "map_id route_sample"
        and all_states = "[]"] fit slots down a book(1,2)
    by (simp add: list_ex_iff running_others_def)
qed

text \<open>C33: The duration that is reserved.  The profile of every active apparatus with a valid revision
  gives a duration without a panic: the least run time at the efficiency of the apparatus, with
  set-up and clean-up, or an error when it exceeds a 32-bit number.\<close>

theorem planned_duration_correct:
  assumes "validate_revision r = Inr ()" "revision_is_active r"
  shows "\<exists>p. canonical_capacity_profile (configuration_of_set (project_apparatus_revision r h)) now = Inr p \<and>
    0 < capacity_slots p \<and>
    effective_duration_minutes p d =
      (let total = (LEAST n. d * 100 \<le> n * efficiency_percent_of (capacity r))
           + setup_minutes_of (capacity r) + cleanup_minutes_of (capacity r) in
       if int total \<le> u32_max then Inr (int total) else Inl (Err ScheduleInputInvalid))"
  by (rule projected_profile [OF assms, of h now]) (metis duration_value)

theorem planned_duration_correct_witness:
  "\<exists>p. canonical_capacity_profile (configuration_of_set (project_apparatus_revision sample_revision [])) 7 = Inr p \<and>
    effective_duration_minutes p 10 = Inr 30"
proof -
  have v: "validate_revision sample_revision = Inr ()" "revision_is_active sample_revision" by code_simp+
  have c: "efficiency_percent_of (capacity sample_revision) = 50" "setup_minutes_of (capacity sample_revision) = 5"
    "cleanup_minutes_of (capacity sample_revision) = 5" by code_simp+
  have "(LEAST n. 10 * 100 \<le> n * 50) = (20::nat)" by (subst ceiling_is_least) simp_all
  then show ?thesis
    using planned_duration_correct [OF v, of "[]" 7 10]
    unfolding c by (auto simp only: u32_max_def Let_def) auto
qed



end
