(* ===== verification/Principals.thy ===== *)
theory Principals
  imports Wire_Enums
begin

text \<open>
  The people who use the system (\<^verbatim>\<open>core/auth/models.rs\<close>): their roles and the principal a request
  is made by.
\<close>

datatype principal_role =
    Supplier | Werka | Customer | Aparatchi | Qolipchi | Boyoqchi | MaterialTaminotchi | Admin
  | TayyorlovMasteri | HomashyoRezkachi | SalesManager | Brigader | RezkaMaster

fun is_apparatus_operator :: "principal_role \<Rightarrow> bool" where
  "is_apparatus_operator Aparatchi = True"
| "is_apparatus_operator RezkaMaster = True"
| "is_apparatus_operator _ = False"

fun is_admin_workspace_manager :: "principal_role \<Rightarrow> bool" where
  "is_admin_workspace_manager Admin = True"
| "is_admin_workspace_manager Brigader = True"
| "is_admin_workspace_manager _ = False"

record principal =
  principal_role_of :: principal_role
  principal_display_name :: string
  principal_legal_name :: string
  principal_ref :: string
  principal_phone :: string
  principal_avatar_url :: string

end
