(* ===== verification/Inventory.thy ===== *)
theory Inventory
  imports Principals Run_Session Apparatus_Identity Erp_Float "HOL-Library.Product_Lexorder"
begin

text \<open>
  Inventory movements (\<^verbatim>\<open>core/inventory_movements_parts/part_01.rs\<close> and \<^verbatim>\<open>part_02.rs\<close>): assets in
  the custody of warehouses, the places they stand, the transfers between warehouses, the actors
  and what they may do, and the normal form of requests that the service hands to the store.
\<close>

section \<open>Kinds and statuses\<close>

datatype inventory_movement_error =
    InvalidAssetKind | MissingAssetRef | AssetNotFound | AssetUnavailable | AssetNotInSourceWarehouse
  | InvInvalidLocation | LocationNotFound | LocationInactive | CrossWarehouseRelocation
  | MissingWarehouse | WarehouseNotFound | DestinationWarehouseUnassigned
  | MaterialWarehouseScopeMissing | SameWarehouse | MissingAssets | DuplicateAsset | TransferNotFound
  | InvalidTransferStatus | InvalidTransition | WarehouseForbidden | MissingIdempotencyKey
  | IdempotencyConflict | InvStoreFailed

type_synonym 'a inv_result = "(inventory_movement_error, 'a) outcome"

datatype inventory_asset_kind = RawMaterial | FinishedGoods | Qolip

fun asset_kind_rank :: "inventory_asset_kind \<Rightarrow> nat" where
  "asset_kind_rank RawMaterial = 0"
| "asset_kind_rank FinishedGoods = 1"
| "asset_kind_rank Qolip = 2"

lemma asset_kind_rank_inject [simp]: "asset_kind_rank c = asset_kind_rank d \<longleftrightarrow> c = d"
  by (cases c; cases d) simp_all

instantiation inventory_asset_kind :: linorder
begin

definition less_eq_inventory_asset_kind :: "inventory_asset_kind \<Rightarrow> inventory_asset_kind \<Rightarrow> bool" where
  "less_eq_inventory_asset_kind c d \<longleftrightarrow> asset_kind_rank c \<le> asset_kind_rank d"

definition less_inventory_asset_kind :: "inventory_asset_kind \<Rightarrow> inventory_asset_kind \<Rightarrow> bool" where
  "less_inventory_asset_kind c d \<longleftrightarrow> asset_kind_rank c < asset_kind_rank d"

instance
proof
  fix c d e :: inventory_asset_kind
  show "(c < d) = (c \<le> d \<and> \<not> d \<le> c)" "c \<le> c" "c \<le> d \<or> d \<le> c"
    by (auto simp: less_eq_inventory_asset_kind_def less_inventory_asset_kind_def)
  show "c \<le> e" if "c \<le> d" "d \<le> e"
    using that by (simp add: less_eq_inventory_asset_kind_def)
  show "c = d" if "c \<le> d" "d \<le> c"
    using that by (simp add: less_eq_inventory_asset_kind_def flip: asset_kind_rank_inject)
qed

end

fun asset_kind_as_str :: "inventory_asset_kind \<Rightarrow> string" where
  "asset_kind_as_str RawMaterial = ''raw_material''"
| "asset_kind_as_str FinishedGoods = ''finished_goods''"
| "asset_kind_as_str Qolip = ''qolip''"

definition parse_asset_kind :: "string \<Rightarrow> inventory_asset_kind inv_result" where
  "parse_asset_kind raw =
     (let raw = trim raw in
      if eq_ignore_ascii_case raw ''raw_material'' then Inr RawMaterial
      else if eq_ignore_ascii_case raw ''finished_goods'' then Inr FinishedGoods
      else if eq_ignore_ascii_case raw ''qolip'' then Inr Qolip
      else Inl (Err InvalidAssetKind))"

datatype inventory_location_kind = AtWarehouse | AtState | AtTransit

definition parse_location_kind :: "string \<Rightarrow> inventory_location_kind inv_result" where
  "parse_location_kind raw =
     (let raw = trim raw in
      if eq_ignore_ascii_case raw ''warehouse'' then Inr AtWarehouse
      else if eq_ignore_ascii_case raw ''state'' then Inr AtState
      else if eq_ignore_ascii_case raw ''transit'' then Inr AtTransit
      else Inl (Err InvInvalidLocation))"

datatype inventory_transfer_status =
  TrRequested | TrApproved | TrInTransit | TrReceived | TrRejected | TrCancelled

fun transfer_status_as_str :: "inventory_transfer_status \<Rightarrow> string" where
  "transfer_status_as_str TrRequested = ''requested''"
| "transfer_status_as_str TrApproved = ''approved''"
| "transfer_status_as_str TrInTransit = ''in_transit''"
| "transfer_status_as_str TrReceived = ''received''"
| "transfer_status_as_str TrRejected = ''rejected''"
| "transfer_status_as_str TrCancelled = ''cancelled''"

definition parse_transfer_status :: "string \<Rightarrow> inventory_transfer_status inv_result" where
  "parse_transfer_status raw =
     (let raw = trim raw in
      if eq_ignore_ascii_case raw ''requested'' then Inr TrRequested
      else if eq_ignore_ascii_case raw ''approved'' then Inr TrApproved
      else if eq_ignore_ascii_case raw ''in_transit'' then Inr TrInTransit
      else if eq_ignore_ascii_case raw ''received'' then Inr TrReceived
      else if eq_ignore_ascii_case raw ''rejected'' then Inr TrRejected
      else if eq_ignore_ascii_case raw ''cancelled'' then Inr TrCancelled
      else Inl (Err InvalidTransferStatus))"

fun transfer_is_active :: "inventory_transfer_status \<Rightarrow> bool" where
  "transfer_is_active TrRequested = True"
| "transfer_is_active TrApproved = True"
| "transfer_is_active TrInTransit = True"
| "transfer_is_active _ = False"

datatype inventory_transfer_action_kind = TaApprove | TaReject | TaDispatch | TaReceive | TaCancel

fun transfer_action_as_str :: "inventory_transfer_action_kind \<Rightarrow> string" where
  "transfer_action_as_str TaApprove = ''approve''"
| "transfer_action_as_str TaReject = ''reject''"
| "transfer_action_as_str TaDispatch = ''dispatch''"
| "transfer_action_as_str TaReceive = ''receive''"
| "transfer_action_as_str TaCancel = ''cancel''"

definition parse_transfer_action :: "string \<Rightarrow> inventory_transfer_action_kind inv_result" where
  "parse_transfer_action raw =
     (let raw = trim raw in
      if eq_ignore_ascii_case raw ''approve'' then Inr TaApprove
      else if eq_ignore_ascii_case raw ''reject'' then Inr TaReject
      else if eq_ignore_ascii_case raw ''dispatch'' then Inr TaDispatch
      else if eq_ignore_ascii_case raw ''receive'' then Inr TaReceive
      else if eq_ignore_ascii_case raw ''cancel'' then Inr TaCancel
      else Inl (Err InvalidTransition))"

definition ok_value :: "('e, 'a) outcome \<Rightarrow> 'a option" where
  "ok_value r = (case r of Inl _ \<Rightarrow> None | Inr x \<Rightarrow> Some x)"

interpretation asset_kind_names: wire_enum asset_kind_as_str "\<lambda>s. ok_value (parse_asset_kind s)"
proof (rule wire_enum_of_table)
  show "ok_value (parse_asset_kind v) =
      parse_ascii_variant v (map (\<lambda>x. (asset_kind_as_str x, x)) [RawMaterial, FinishedGoods, Qolip])" for v
    by (simp add: parse_asset_kind_def parse_ascii_variant_def Let_def ok_value_def)
  show "x \<in> set [RawMaterial, FinishedGoods, Qolip]" for x
    by (cases x) simp_all
qed code_simp+

interpretation transfer_status_names: wire_enum transfer_status_as_str "\<lambda>s. ok_value (parse_transfer_status s)"
proof (rule wire_enum_of_table)
  show "ok_value (parse_transfer_status v) =
      parse_ascii_variant v (map (\<lambda>x. (transfer_status_as_str x, x))
        [TrRequested, TrApproved, TrInTransit, TrReceived, TrRejected, TrCancelled])" for v
    by (simp add: parse_transfer_status_def parse_ascii_variant_def Let_def ok_value_def)
  show "x \<in> set [TrRequested, TrApproved, TrInTransit, TrReceived, TrRejected, TrCancelled]" for x
    by (cases x) simp_all
qed code_simp+

interpretation transfer_action_names: wire_enum transfer_action_as_str "\<lambda>s. ok_value (parse_transfer_action s)"
proof (rule wire_enum_of_table)
  show "ok_value (parse_transfer_action v) =
      parse_ascii_variant v (map (\<lambda>x. (transfer_action_as_str x, x))
        [TaApprove, TaReject, TaDispatch, TaReceive, TaCancel])" for v
    by (simp add: parse_transfer_action_def parse_ascii_variant_def Let_def ok_value_def)
  show "x \<in> set [TaApprove, TaReject, TaDispatch, TaReceive, TaCancel]" for x
    by (cases x) simp_all
qed code_simp+

section \<open>Assets and transfers\<close>

record inventory_location_apparatus =
  la_id :: string
  la_name :: string

record inventory_location =
  location_id :: string
  location_kind :: inventory_location_kind
  location_name :: string
  location_warehouse_id :: string
  location_factory_id :: string
  location_active :: bool
  location_apparatus :: "inventory_location_apparatus list"

record inventory_location_ref =
  place_id :: string
  place_kind :: inventory_location_kind
  place_name :: string

definition location_ref :: "inventory_location \<Rightarrow> inventory_location_ref" where
  "location_ref l =
     \<lparr> place_id = location_id l, place_kind = location_kind l, place_name = location_name l \<rparr>"

record inventory_asset =
  asset_kind :: inventory_asset_kind
  asset_ref :: string
  custody_warehouse_id :: string
  custody_warehouse :: string
  asset_item_code :: string
  asset_item_name :: string
  asset_identifier :: string
  asset_qty :: f64
  asset_uom :: string
  asset_status :: string
  physical_location :: inventory_location_ref
  asset_transfer_id :: string
  placement_version :: int

record raw_material_state_placement =
  placement_barcode :: string
  placement_location_id :: string
  placement_location_name :: string
  placement_apparatus_ids :: "string list"
  placement_apparatus :: "string list"

record inventory_order_assignment =
  assignment_barcode :: string
  assignment_order_id :: string
  assignment_order_label :: string
  assignment_order_control :: string

record inventory_transfer_line =
  line_kind :: inventory_asset_kind
  line_ref :: string
  line_item_code :: string
  line_item_name :: string
  line_identifier :: string
  line_qty :: f64
  line_uom :: string
  line_source_location_id :: string

record inventory_transfer =
  transfer_id :: string
  source_warehouse_id :: string
  source_warehouse :: string
  destination_warehouse_id :: string
  destination_warehouse :: string
  transfer_status :: inventory_transfer_status
  transfer_note :: string
  requested_by_name :: string
  approved_by_name :: string
  dispatched_by_name :: string
  received_by_name :: string
  rejected_by_name :: string
  cancelled_by_name :: string
  created_at_unix :: int
  approved_at_unix :: "int option"
  dispatched_at_unix :: "int option"
  received_at_unix :: "int option"
  rejected_at_unix :: "int option"
  cancelled_at_unix :: "int option"
  transfer_lines :: "inventory_transfer_line list"

section \<open>Requests and actors\<close>

record inventory_asset_query =
  query_warehouse_id :: string
  query_text :: string
  query_asset_kind :: "inventory_asset_kind option"
  current_user_states_only :: bool
  warehouse_only :: bool
  include_order_assignment :: bool
  query_limit :: nat
  query_offset :: nat

record inventory_transfer_query =
  query_direction :: string
  query_status :: string
  transfer_limit :: nat
  transfer_offset :: nat

record inventory_asset_selector =
  selector_kind :: inventory_asset_kind
  selector_ref :: string

record inventory_relocation_create =
  rel_kind :: inventory_asset_kind
  rel_ref :: string
  rel_location_id :: string
  rel_note :: string
  rel_key :: string

record inventory_relocation_batch_create =
  batch_assets :: "inventory_asset_selector list"
  batch_location_id :: string
  batch_note :: string
  batch_key :: string

record inventory_return_batch_create =
  return_assets :: "inventory_asset_selector list"
  return_note :: string
  return_key :: string

record inventory_transfer_create =
  create_source_id :: string
  create_destination_id :: string
  create_assets :: "inventory_asset_selector list"
  create_note :: string
  create_key :: string

record inventory_transfer_action =
  action_note :: string
  action_key :: string

record inventory_delivery_receipt =
  receipt_order_id :: string
  receipt_apparatus_id :: string
  receipt_asset_ref :: string
  receipt_source_id :: string
  receipt_destination_id :: string
  receipt_delivered_by :: principal

record inventory_actor =
  inv_principal :: principal
  inv_is_admin :: bool
  inv_warehouses :: "string btree_set"
  inv_receipt :: "inventory_delivery_receipt option"

text \<open>
  The JSON payload of a delivery receipt, which is only stored and compared: the order, the
  apparatus and role, reference and name of the two principals; nothing stands for the empty object.
\<close>

type_synonym payload_person = "principal_role \<times> string \<times> string"
type_synonym delivery_payload = "(string \<times> string \<times> payload_person \<times> payload_person) option"

definition payload_of :: "principal \<Rightarrow> payload_person" where
  "payload_of p = (principal_role_of p, principal_ref p, principal_display_name p)"

definition delivery_receipt_payload :: "inventory_actor \<Rightarrow> delivery_payload" where
  "delivery_receipt_payload a =
     map_option (\<lambda>r. (receipt_order_id r, receipt_apparatus_id r, payload_of (receipt_delivered_by r),
       payload_of (inv_principal a))) (inv_receipt a)"

definition inventory_actor_new :: "principal \<Rightarrow> bool \<Rightarrow> string list \<Rightarrow> inventory_actor" where
  "inventory_actor_new p admin assigned =
     \<lparr> inv_principal = p, inv_is_admin = admin,
       inv_warehouses = bs_collect (filter (\<lambda>w. w \<noteq> []) (map (\<lambda>w. to_ascii_lowercase (trim w)) assigned)),
       inv_receipt = None \<rparr>"

definition is_assigned_to_warehouse :: "inventory_actor \<Rightarrow> string \<Rightarrow> bool" where
  "is_assigned_to_warehouse a warehouse \<longleftrightarrow> to_ascii_lowercase (trim warehouse) \<in> set (inv_warehouses a)"

definition can_manage_warehouse :: "inventory_actor \<Rightarrow> string \<Rightarrow> bool" where
  "can_manage_warehouse a warehouse \<longleftrightarrow>
     inv_is_admin a \<or> to_ascii_lowercase (trim warehouse) \<in> set (inv_warehouses a)"

definition manages_transfer_internally :: "inventory_actor \<Rightarrow> string \<Rightarrow> string \<Rightarrow> bool" where
  "manages_transfer_internally a source destination \<longleftrightarrow>
     is_assigned_to_warehouse a source \<and> is_assigned_to_warehouse a destination"

section \<open>Normal forms\<close>

definition required_text :: "string \<Rightarrow> inventory_movement_error \<Rightarrow> string inv_result" where
  "required_text v e = (let v = trim v in if v = [] then Inl (Err e) else Inr v)"

definition normalize_idempotency :: "string \<Rightarrow> string inv_result" where
  "normalize_idempotency v = required_text v MissingIdempotencyKey"

type_synonym asset_key = "inventory_asset_kind \<times> string"

definition selector_key :: "inventory_asset_selector \<Rightarrow> asset_key" where
  "selector_key s = (selector_kind s, to_ascii_lowercase (selector_ref s))"

definition normalize_asset_selectors ::
  "inventory_asset_selector list \<Rightarrow> inventory_asset_selector list inv_result" where
  "normalize_asset_selectors assets =
     (let keyed = filter_map (\<lambda>s.
            let s = s \<lparr> selector_ref := trim (selector_ref s) \<rparr> in
            if selector_ref s = [] then None else Some (selector_key s, s)) assets in
      if keyed = [] then Inl (Err MissingAssets)
      else
        let keyed = sort_key fst keyed in
        if list_ex (\<lambda>(a, b). fst a = fst b) (zip keyed (tl keyed)) then Inl (Err DuplicateAsset)
        else Inr (map snd keyed))"

definition normalize_relocation ::
  "inventory_relocation_create \<Rightarrow> inventory_relocation_create inv_result" where
  "normalize_relocation input =
     bind_outcome (required_text (rel_ref input) MissingAssetRef) (\<lambda>asset.
     bind_outcome (required_text (rel_location_id input) InvInvalidLocation) (\<lambda>place.
     bind_outcome (normalize_idempotency (rel_key input)) (\<lambda>key.
     Inr (input \<lparr> rel_ref := asset, rel_location_id := place, rel_key := key,
       rel_note := trim (rel_note input) \<rparr>))))"

definition normalize_relocation_batch ::
  "inventory_relocation_batch_create \<Rightarrow> inventory_relocation_batch_create inv_result" where
  "normalize_relocation_batch input =
     bind_outcome (required_text (batch_location_id input) InvInvalidLocation) (\<lambda>place.
     bind_outcome (normalize_idempotency (batch_key input)) (\<lambda>key.
     bind_outcome (normalize_asset_selectors (batch_assets input)) (\<lambda>assets.
     Inr (input \<lparr> batch_location_id := place, batch_key := key,
       batch_note := trim (batch_note input), batch_assets := assets \<rparr>))))"

definition normalize_return_batch ::
  "inventory_return_batch_create \<Rightarrow> inventory_return_batch_create inv_result" where
  "normalize_return_batch input =
     bind_outcome (normalize_idempotency (return_key input)) (\<lambda>key.
     bind_outcome (normalize_asset_selectors (return_assets input)) (\<lambda>assets.
     Inr (input \<lparr> return_key := key, return_note := trim (return_note input), return_assets := assets \<rparr>)))"

definition normalize_transfer_create ::
  "inventory_actor \<Rightarrow> inventory_transfer_create \<Rightarrow> inventory_transfer_create inv_result" where
  "normalize_transfer_create actor input =
     bind_outcome (required_text (create_source_id input) MissingWarehouse) (\<lambda>source.
     bind_outcome (required_text (create_destination_id input) MissingWarehouse) (\<lambda>destination.
     if eq_ignore_ascii_case source destination then Inl (Err SameWarehouse)
     else
       bind_outcome (normalize_idempotency (create_key input)) (\<lambda>key.
       bind_outcome (normalize_asset_selectors (create_assets input)) (\<lambda>assets.
       if principal_role_of (inv_principal actor) = TayyorlovMasteri
          \<and> list_ex (\<lambda>s. selector_kind s \<noteq> RawMaterial) assets
       then Inl (Err WarehouseForbidden)
       else Inr (input \<lparr> create_source_id := source, create_destination_id := destination,
         create_key := key, create_note := trim (create_note input), create_assets := assets \<rparr>)))))"

definition normalize_transfer_action ::
  "string \<Rightarrow> inventory_transfer_action \<Rightarrow> (string \<times> inventory_transfer_action) inv_result" where
  "normalize_transfer_action transfer input =
     (let transfer = trim transfer in
      if transfer = [] then Inl (Err TransferNotFound)
      else
        bind_outcome (normalize_idempotency (action_key input)) (\<lambda>key.
        Inr (transfer, input \<lparr> action_key := key, action_note := trim (action_note input) \<rparr>)))"

definition normalize_asset_query ::
  "inventory_actor \<Rightarrow> inventory_asset_query \<Rightarrow> inventory_asset_query" where
  "normalize_asset_query actor q =
     (let q = q \<lparr> query_warehouse_id := trim (query_warehouse_id q), query_text := trim (query_text q),
            query_limit := max 1 (min 500 (query_limit q)),
            query_offset := nat (min 100000 (int (query_offset q))) \<rparr> in
      if principal_role_of (inv_principal actor) = TayyorlovMasteri
      then q \<lparr> query_asset_kind := Some RawMaterial, current_user_states_only := False,
        warehouse_only := True \<rparr>
      else q)"

definition normalize_transfer_query ::
  "inventory_transfer_query \<Rightarrow> inventory_transfer_query inv_result" where
  "normalize_transfer_query q =
     (let direction = to_ascii_lowercase (trim (query_direction q));
          status = to_ascii_lowercase (trim (query_status q)) in
      if direction \<notin> {[], ''all'', ''incoming'', ''outgoing''} then Inl (Err InvalidTransition)
      else
        bind_outcome (if status = [] then Inr () else
            bind_outcome (parse_transfer_status status) (\<lambda>_. Inr ())) (\<lambda>_.
        Inr (q \<lparr> query_direction := direction, query_status := status,
          transfer_limit := max 1 (min 500 (transfer_limit q)),
          transfer_offset := nat (min 100000 (int (transfer_offset q))) \<rparr>)))"

fun inventory_role_code :: "principal_role \<Rightarrow> string" where
  "inventory_role_code Supplier = ''supplier''"
| "inventory_role_code Werka = ''werka''"
| "inventory_role_code Customer = ''customer''"
| "inventory_role_code Aparatchi = ''aparatchi''"
| "inventory_role_code Qolipchi = ''qolipchi''"
| "inventory_role_code Boyoqchi = ''boyoqchi''"
| "inventory_role_code TayyorlovMasteri = ''tayyorlov_masteri''"
| "inventory_role_code HomashyoRezkachi = ''homashyo_rezkachi''"
| "inventory_role_code SalesManager = ''sales_manager''"
| "inventory_role_code Brigader = ''brigader''"
| "inventory_role_code RezkaMaster = ''rezka_master''"
| "inventory_role_code MaterialTaminotchi = ''material_taminotchi''"
| "inventory_role_code Admin = ''admin''"

text \<open>The order assignments, read from a store that the caller passes.\<close>

definition list_order_assignments ::
  "(inventory_actor \<Rightarrow> string list \<Rightarrow> string list \<Rightarrow> inventory_order_assignment list inv_result)
   \<Rightarrow> inventory_actor \<Rightarrow> string list \<Rightarrow> string list \<Rightarrow> inventory_order_assignment list inv_result" where
  "list_order_assignments store actor barcodes assigned =
     (let role = principal_role_of (inv_principal actor) in
      if role \<notin> {MaterialTaminotchi, TayyorlovMasteri} then Inl (Err WarehouseForbidden)
      else
        let barcodes = bs_collect (filter (\<lambda>v. v \<noteq> []) (map (\<lambda>v. to_ascii_lowercase (trim v)) barcodes));
            apparatus = bs_collect (filter (\<lambda>v. v \<noteq> []) (map trim assigned)) in
        if barcodes = [] \<or> role = MaterialTaminotchi \<and> (inv_warehouses actor = [] \<or> apparatus = [])
        then Inr []
        else store actor barcodes apparatus)"

end
