(* ===== verification/Inventory_Store.thy ===== *)
theory Inventory_Store
  imports Inventory
begin

text \<open>
  The store of inventory in memory (\<^verbatim>\<open>core/inventory_movements_impl_parts\<close> and the helpers at the
  end of \<^verbatim>\<open>part_02.rs\<close>) and the service over it.  An operation holds the lock of the store from
  beginning to end and is one step; it returns its result and the state it leaves behind, also when
  it fails after a change.  The clock and the identity of a new transfer are arguments.
\<close>

section \<open>State\<close>

record memory_inventory_state =
  inv_locations :: "(string, inventory_location) btree_map"
  inv_assets :: "(asset_key, inventory_asset) btree_map"
  placement_updated_by_ref :: "(asset_key, string) btree_map"
  inv_transfers :: "(string, inventory_transfer) btree_map"
  transfer_keys :: "(string, string) btree_map"
  relocation_keys :: "(string, inventory_asset_kind \<times> string \<times> string) btree_map"
  delivery_receipts :: "(string, delivery_payload) btree_map"
  relocation_batch_keys :: "(string, asset_key list \<times> string) btree_map"
  return_batch_keys :: "(string, asset_key list) btree_map"
  action_keys :: "(string, string \<times> inventory_transfer_action_kind) btree_map"

type_synonym 'a inv_step = "'a inv_result \<times> memory_inventory_state"

definition fail_with :: "inventory_movement_error \<Rightarrow> memory_inventory_state \<Rightarrow> 'a inv_step" where
  "fail_with e st = (Inl (Err e), st)"

text \<open>The rest of an operation after a call that only reads.\<close>

definition checked ::
  "memory_inventory_state \<Rightarrow> 'a inv_result \<Rightarrow> ('a \<Rightarrow> 'b inv_step) \<Rightarrow> 'b inv_step" where
  "checked st r k = (case r of Inl e \<Rightarrow> (Inl e, st) | Inr x \<Rightarrow> k x)"

lemma checked_simps [simp]: "checked st (Inl e) k = (Inl e, st)" "checked st (Inr x) k = k x"
  by (simp_all add: checked_def)

section \<open>Reading\<close>

fun location_kind_rank :: "inventory_location_kind \<Rightarrow> nat" where
  "location_kind_rank AtState = 0"
| "location_kind_rank AtWarehouse = 1"
| "location_kind_rank AtTransit = 2"

text \<open>\<^verbatim>\<open>str::to_lowercase\<close> below U+0100.\<close>

definition char_lower :: "char \<Rightarrow> char" where
  "char_lower c =
     (if 192 \<le> code_of c \<and> code_of c \<le> 222 \<and> code_of c \<noteq> 215
      then char_of (of_char c + 32 :: nat) else ascii_lower c)"

definition to_lowercase :: "string \<Rightarrow> string" where
  "to_lowercase s = map char_lower s"

definition ascii_upper :: "char \<Rightarrow> char" where
  "ascii_upper c = (if is_ascii_lowercase c then char_of (of_char c - 32 :: nat) else c)"

definition to_ascii_uppercase :: "string \<Rightarrow> string" where
  "to_ascii_uppercase s = map ascii_upper s"

definition store_locations :: "memory_inventory_state \<Rightarrow> inventory_location list" where
  "store_locations st =
     sort_key (\<lambda>l. (location_kind_rank (location_kind l), to_lowercase (location_name l)))
       (filter location_active (bt_values (inv_locations st)))"

definition state_placement ::
  "memory_inventory_state \<Rightarrow> inventory_asset \<Rightarrow> raw_material_state_placement option inv_result" where
  "state_placement st a =
     (case bt_get (inv_locations st) (place_id (physical_location a)) of
        None \<Rightarrow> Inr None
      | Some l \<Rightarrow>
          bind_outcome (map_outcome (\<lambda>x. if is_valid (trim (la_id x)) then Inr (trim (la_id x))
              else Inl (Err InvStoreFailed)) (location_apparatus l)) (\<lambda>ids.
          Inr (Some \<lparr> placement_barcode = trim (asset_identifier a), placement_location_id = location_id l,
            placement_location_name = location_name l, placement_apparatus_ids = ids,
            placement_apparatus = map la_name (location_apparatus l) \<rparr>)))"

definition store_raw_material_state_placements ::
  "memory_inventory_state \<Rightarrow> string list \<Rightarrow> raw_material_state_placement list inv_result" where
  "store_raw_material_state_placements st barcodes =
     (let requested = bs_collect (map (\<lambda>b. to_ascii_uppercase (trim b)) barcodes) in
      bind_outcome (map_outcome (state_placement st)
        (filter (\<lambda>a. asset_kind a = RawMaterial \<and> place_kind (physical_location a) = AtState
            \<and> to_ascii_uppercase (trim (asset_identifier a)) \<in> set requested
            \<and> asset_status a \<noteq> ''consumed'') (bt_values (inv_assets st)))) (\<lambda>found.
      Inr (filter_map (\<lambda>p. p) found)))"

definition raw_material_state_placements ::
  "memory_inventory_state \<Rightarrow> string list \<Rightarrow> raw_material_state_placement list inv_result" where
  "raw_material_state_placements st barcodes =
     (let barcodes = remdups_adj (sort (map to_ascii_uppercase (filter (\<lambda>b. b \<noteq> []) (map trim barcodes)))) in
      if barcodes = [] then Inr [] else store_raw_material_state_placements st barcodes)"

fun str_contains :: "string \<Rightarrow> string \<Rightarrow> bool" where
  "str_contains [] p \<longleftrightarrow> p = []"
| "str_contains (c # s) p \<longleftrightarrow> starts_with (c # s) p \<or> str_contains s p"

definition find_warehouse :: "memory_inventory_state \<Rightarrow> string \<Rightarrow> inventory_location option" where
  "find_warehouse st w =
     find (\<lambda>l. location_kind l = AtWarehouse \<and> eq_ignore_ascii_case (location_warehouse_id l) (trim w))
       (bt_values (inv_locations st))"

definition asset_matches :: "inventory_location option \<Rightarrow> inventory_asset_query \<Rightarrow> inventory_asset \<Rightarrow> bool" where
  "asset_matches warehouse q a \<longleftrightarrow>
     (current_user_states_only q \<longrightarrow> place_kind (physical_location a) = AtState)
     \<and> (warehouse_only q \<longrightarrow> place_kind (physical_location a) = AtWarehouse)
     \<and> (case warehouse of
          None \<Rightarrow> True
        | Some w \<Rightarrow> place_kind (physical_location a) = AtWarehouse
            \<and> place_id (physical_location a) = location_id w)
     \<and> (case query_asset_kind q of None \<Rightarrow> True | Some k \<Rightarrow> k = asset_kind a)
     \<and> (let needle = to_ascii_lowercase (query_text q) in
        needle = [] \<or> list_ex (\<lambda>v. str_contains (to_ascii_lowercase v) needle)
          [asset_item_code a, asset_item_name a, asset_identifier a, asset_ref a])"

definition store_assets ::
  "memory_inventory_state \<Rightarrow> inventory_actor \<Rightarrow> inventory_asset_query \<Rightarrow> inventory_asset list inv_result" where
  "store_assets st actor q =
     (let warehouse = find_warehouse st (query_warehouse_id q) in
      if trim (query_warehouse_id q) \<noteq> [] \<and> warehouse = None then Inl (Err WarehouseNotFound)
      else if (case warehouse of None \<Rightarrow> False | Some w \<Rightarrow> \<not> can_manage_warehouse actor (location_name w))
      then Inl (Err WarehouseForbidden)
      else
        let found = filter (\<lambda>a. can_manage_warehouse actor (custody_warehouse a) \<and> asset_matches warehouse q a)
              (bt_values (inv_assets st)) in
        Inr (take (query_limit q) (drop (query_offset q)
          (sort_key (\<lambda>a. (to_lowercase (asset_item_name a), asset_identifier a)) found))))"

definition visible_transfer :: "inventory_actor \<Rightarrow> inventory_transfer_query \<Rightarrow> inventory_transfer \<Rightarrow> bool" where
  "visible_transfer actor q t \<longleftrightarrow>
     (if query_direction q = ''incoming'' then can_manage_warehouse actor (destination_warehouse t)
      else if query_direction q = ''outgoing'' then can_manage_warehouse actor (source_warehouse t)
      else can_manage_warehouse actor (source_warehouse t) \<or> can_manage_warehouse actor (destination_warehouse t))
     \<and> (query_status q = [] \<or> transfer_status_as_str (transfer_status t) = query_status q)
     \<and> (principal_role_of (inv_principal actor) \<noteq> TayyorlovMasteri
        \<or> transfer_lines t \<noteq> [] \<and> list_all (\<lambda>l. line_kind l = RawMaterial) (transfer_lines t))"

text \<open>The newest transfer first, and the greater identity first among those of one second.\<close>

definition store_transfers ::
  "memory_inventory_state \<Rightarrow> inventory_actor \<Rightarrow> inventory_transfer_query \<Rightarrow> inventory_transfer list" where
  "store_transfers st actor q =
     take (transfer_limit q) (drop (transfer_offset q)
       (rev (sort_key (\<lambda>t. (created_at_unix t, transfer_id t))
         (rev (filter (visible_transfer actor q) (bt_values (inv_transfers st)))))))"

section \<open>Relocation\<close>

definition place_asset :: "inventory_location \<Rightarrow> inventory_asset \<Rightarrow> inventory_asset" where
  "place_asset l a = a \<lparr> physical_location := location_ref l,
     placement_version := wrap_i64 (placement_version a + 1) \<rparr>"

definition put_asset :: "asset_key \<Rightarrow> inventory_asset \<Rightarrow> memory_inventory_state \<Rightarrow> memory_inventory_state" where
  "put_asset k a st = st \<lparr> inv_assets := bt_insert k a (inv_assets st) \<rparr>"

definition note_placement :: "inventory_actor \<Rightarrow> asset_key \<Rightarrow> memory_inventory_state \<Rightarrow> memory_inventory_state" where
  "note_placement actor k st = st \<lparr> placement_updated_by_ref :=
     bt_insert k (trim (principal_ref (inv_principal actor))) (placement_updated_by_ref st) \<rparr>"

definition receipt_admits ::
  "inventory_actor \<Rightarrow> inventory_relocation_create \<Rightarrow> inventory_asset \<Rightarrow> bool" where
  "receipt_admits actor input a \<longleftrightarrow>
     (case inv_receipt actor of
        None \<Rightarrow> True
      | Some r \<Rightarrow> rel_kind input = RawMaterial
          \<and> eq_ignore_ascii_case (receipt_asset_ref r) (asset_ref a)
          \<and> receipt_destination_id r = rel_location_id input
          \<and> (place_id (physical_location a) = receipt_source_id r
             \<or> place_id (physical_location a) = receipt_destination_id r))"

text \<open>The tests an asset passes before it is moved to a location of its warehouse.\<close>

definition may_relocate :: "inventory_actor \<Rightarrow> inventory_location \<Rightarrow> inventory_asset \<Rightarrow> unit inv_result" where
  "may_relocate actor l a =
     (if \<not> can_manage_warehouse actor (custody_warehouse a) then Inl (Err WarehouseForbidden)
      else if asset_transfer_id a \<noteq> [] \<or> asset_status a \<noteq> ''available'' then Inl (Err AssetUnavailable)
      else if location_kind l = AtWarehouse
         \<and> \<not> eq_ignore_ascii_case (location_warehouse_id l) (custody_warehouse_id a)
      then Inl (Err CrossWarehouseRelocation)
      else Inr ())"

definition active_location :: "memory_inventory_state \<Rightarrow> string \<Rightarrow> inventory_location inv_result" where
  "active_location st i =
     bind_outcome (ok_or (bt_get (inv_locations st) (trim i)) LocationNotFound) (\<lambda>l.
     if location_active l then Inr l else Inl (Err LocationInactive))"

definition store_relocate ::
  "memory_inventory_state \<Rightarrow> inventory_actor \<Rightarrow> inventory_relocation_create \<Rightarrow> inventory_asset inv_step" where
  "store_relocate st actor input =
     (let k = (rel_kind input, to_ascii_lowercase (rel_ref input)) in
      case bt_get (relocation_keys st) (rel_key input) of
        Some (kind, ref, place) \<Rightarrow>
          if kind \<noteq> rel_kind input \<or> \<not> eq_ignore_ascii_case ref (rel_ref input)
             \<or> place \<noteq> rel_location_id input
             \<or> inv_receipt actor \<noteq> None
               \<and> bt_get (delivery_receipts st) (rel_key input) \<noteq> Some (delivery_receipt_payload actor)
          then fail_with IdempotencyConflict st
          else (ok_or (bt_get (inv_assets st) k) AssetNotFound, st)
      | None \<Rightarrow>
          checked st (active_location st (rel_location_id input)) (\<lambda>l.
          checked st (ok_or (bt_get (inv_assets st) k) AssetNotFound) (\<lambda>a.
          if \<not> receipt_admits actor input a then fail_with AssetUnavailable st
          else
            checked st (may_relocate actor l a) (\<lambda>_.
            let saved = place_asset l a;
                st = note_placement actor k (put_asset k saved st);
                st = st \<lparr> relocation_keys := bt_insert (rel_key input)
                  (rel_kind input, rel_ref input, rel_location_id input) (relocation_keys st) \<rparr>;
                st = (if inv_receipt actor \<noteq> None
                      then st \<lparr> delivery_receipts := bt_insert (rel_key input)
                        (delivery_receipt_payload actor) (delivery_receipts st) \<rparr> else st) in
            (Inr saved, st)))))"

definition assets_at ::
  "memory_inventory_state \<Rightarrow> asset_key list \<Rightarrow> inventory_asset list inv_result" where
  "assets_at st ks = map_outcome (\<lambda>k. ok_or (bt_get (inv_assets st) k) AssetNotFound) ks"

text \<open>The loop that moves the assets one after the other.\<close>

fun place_assets ::
  "(asset_key \<Rightarrow> inventory_location option) \<Rightarrow> asset_key list \<Rightarrow> memory_inventory_state
   \<Rightarrow> inventory_asset list \<Rightarrow> inventory_asset list inv_step" where
  "place_assets target [] st saved = (Inr saved, st)"
| "place_assets target (k # ks) st saved =
     (case target k of
        None \<Rightarrow> fail_with LocationNotFound st
      | Some l \<Rightarrow>
          (case bt_get (inv_assets st) k of
             None \<Rightarrow> fail_with AssetNotFound st
           | Some a \<Rightarrow> place_assets target ks (put_asset k (place_asset l a) st) (saved @ [place_asset l a])))"

definition store_relocate_batch ::
  "memory_inventory_state \<Rightarrow> inventory_actor \<Rightarrow> inventory_relocation_batch_create
   \<Rightarrow> inventory_asset list inv_step" where
  "store_relocate_batch st actor input =
     (let ks = map selector_key (batch_assets input) in
      case bt_get (relocation_batch_keys st) (batch_key input) of
        Some (existing, place) \<Rightarrow>
          if existing \<noteq> ks \<or> place \<noteq> batch_location_id input then fail_with IdempotencyConflict st
          else (assets_at st ks, st)
      | None \<Rightarrow>
          checked st (active_location st (batch_location_id input)) (\<lambda>l.
          checked st (each_outcome (\<lambda>k.
              bind_outcome (ok_or (bt_get (inv_assets st) k) AssetNotFound) (may_relocate actor l)) ks) (\<lambda>_.
          case place_assets (\<lambda>_. Some l) ks st [] of
            (Inl e, st) \<Rightarrow> (Inl e, st)
          | (Inr saved, st) \<Rightarrow>
              let st = fold (note_placement actor) ks st in
              (Inr saved, st \<lparr> relocation_batch_keys := bt_insert (batch_key input)
                (ks, batch_location_id input) (relocation_batch_keys st) \<rparr>))))"

text \<open>Where an asset goes that is returned to the warehouse with custody.\<close>

definition return_destination ::
  "memory_inventory_state \<Rightarrow> inventory_actor \<Rightarrow> asset_key \<Rightarrow> (asset_key \<times> inventory_location) inv_result" where
  "return_destination st actor k =
     bind_outcome (ok_or (bt_get (inv_assets st) k) AssetNotFound) (\<lambda>a.
     if \<not> can_manage_warehouse actor (custody_warehouse a) then Inl (Err WarehouseForbidden)
     else if asset_transfer_id a \<noteq> [] \<or> asset_status a \<noteq> ''available'' then Inl (Err AssetUnavailable)
     else if place_kind (physical_location a) \<noteq> AtState then Inl (Err InvInvalidLocation)
     else
       bind_outcome (ok_or (find (\<lambda>l. location_active l \<and> location_kind l = AtWarehouse
           \<and> eq_ignore_ascii_case (location_warehouse_id l) (custody_warehouse_id a))
           (bt_values (inv_locations st))) LocationNotFound) (\<lambda>l. Inr (k, l)))"

definition store_return_to_warehouses_batch ::
  "memory_inventory_state \<Rightarrow> inventory_actor \<Rightarrow> inventory_return_batch_create
   \<Rightarrow> inventory_asset list inv_step" where
  "store_return_to_warehouses_batch st actor input =
     (let ks = map selector_key (return_assets input) in
      case bt_get (return_batch_keys st) (return_key input) of
        Some existing \<Rightarrow>
          if existing \<noteq> ks then fail_with IdempotencyConflict st else (assets_at st ks, st)
      | None \<Rightarrow>
          checked st (map_outcome (return_destination st actor) ks) (\<lambda>found.
          case place_assets (bt_get (bt_collect found)) ks st [] of
            (Inl e, st) \<Rightarrow> (Inl e, st)
          | (Inr saved, st) \<Rightarrow>
              let st = fold (note_placement actor) ks st in
              (Inr saved, st \<lparr> return_batch_keys := bt_insert (return_key input) ks (return_batch_keys st) \<rparr>)))"

section \<open>Transfers\<close>

definition line_key :: "inventory_transfer_line \<Rightarrow> asset_key" where
  "line_key l = (line_kind l, to_ascii_lowercase (line_ref l))"

definition transfer_matches_create :: "inventory_transfer \<Rightarrow> inventory_transfer_create \<Rightarrow> bool" where
  "transfer_matches_create t input =
     (if \<not> eq_ignore_ascii_case (source_warehouse_id t) (create_source_id input)
         \<or> \<not> eq_ignore_ascii_case (destination_warehouse_id t) (create_destination_id input)
         \<or> transfer_note t \<noteq> create_note input then False
      else
        let existing = bs_collect (map line_key (transfer_lines t));
            requested = bs_collect (map selector_key (create_assets input)) in
        existing = requested \<and> length existing = length (transfer_lines t))"

fun transfer_action_already_applied ::
  "inventory_transfer_status \<Rightarrow> inventory_transfer_action_kind \<Rightarrow> bool" where
  "transfer_action_already_applied TrApproved TaApprove = True"
| "transfer_action_already_applied TrInTransit TaApprove = True"
| "transfer_action_already_applied TrReceived TaApprove = True"
| "transfer_action_already_applied TrRejected TaReject = True"
| "transfer_action_already_applied TrInTransit TaDispatch = True"
| "transfer_action_already_applied TrReceived TaDispatch = True"
| "transfer_action_already_applied TrReceived TaReceive = True"
| "transfer_action_already_applied TrCancelled TaCancel = True"
| "transfer_action_already_applied _ _ = False"

definition warehouse_location :: "memory_inventory_state \<Rightarrow> string \<Rightarrow> inventory_location inv_result" where
  "warehouse_location st w = ok_or (find_warehouse st w) WarehouseNotFound"

fun release_lines :: "string \<Rightarrow> inventory_transfer_line list \<Rightarrow> memory_inventory_state \<Rightarrow> memory_inventory_state"
where
  "release_lines i [] st = st"
| "release_lines i (l # ls) st =
     (case bt_get (inv_assets st) (line_key l) of
        None \<Rightarrow> release_lines i ls st
      | Some a \<Rightarrow>
          if asset_transfer_id a = i
          then release_lines i ls
            (put_asset (line_key l) (a \<lparr> asset_transfer_id := [], asset_status := ''available'' \<rparr>) st)
          else release_lines i ls st)"

definition release_memory_assets ::
  "memory_inventory_state \<Rightarrow> inventory_transfer \<Rightarrow> memory_inventory_state" where
  "release_memory_assets st t = release_lines (transfer_id t) (transfer_lines t) st"

definition ensure_line :: "memory_inventory_state \<Rightarrow> string \<Rightarrow> inventory_transfer_line \<Rightarrow> unit inv_result" where
  "ensure_line st i l =
     bind_outcome (ok_or (bt_get (inv_assets st) (line_key l)) AssetNotFound) (\<lambda>a.
     if asset_transfer_id a \<noteq> i \<or> asset_status a \<in> {''available'', ''consumed'', ''dispatched''}
     then Inl (Err AssetUnavailable) else Inr ())"

definition ensure_memory_transfer_assets ::
  "memory_inventory_state \<Rightarrow> inventory_transfer \<Rightarrow> unit inv_result" where
  "ensure_memory_transfer_assets st t = each_outcome (ensure_line st (transfer_id t)) (transfer_lines t)"

definition received_asset ::
  "inventory_transfer \<Rightarrow> inventory_location \<Rightarrow> inventory_asset \<Rightarrow> inventory_asset" where
  "received_asset t l a = a \<lparr> custody_warehouse_id := destination_warehouse_id t,
     custody_warehouse := destination_warehouse t, physical_location := location_ref l,
     asset_transfer_id := [], asset_status := ''available'',
     placement_version := wrap_i64 (placement_version a + 1) \<rparr>"

fun receive_lines ::
  "inventory_transfer \<Rightarrow> inventory_location \<Rightarrow> inventory_transfer_line list \<Rightarrow> memory_inventory_state
   \<Rightarrow> unit inv_step" where
  "receive_lines t d [] st = (Inr (), st)"
| "receive_lines t d (l # ls) st =
     (case bt_get (inv_assets st) (line_key l) of
        None \<Rightarrow> fail_with AssetNotFound st
      | Some a \<Rightarrow>
          if asset_transfer_id a \<noteq> transfer_id t then fail_with AssetUnavailable st
          else receive_lines t d ls (put_asset (line_key l) (received_asset t d a) st))"

definition receive_assets :: "memory_inventory_state \<Rightarrow> inventory_transfer \<Rightarrow> unit inv_step" where
  "receive_assets st t =
     checked st (ensure_memory_transfer_assets st t) (\<lambda>_.
     checked st (warehouse_location st (destination_warehouse_id t)) (\<lambda>d.
     receive_lines t d (transfer_lines t) st))"

definition completed_transfer :: "inventory_actor \<Rightarrow> int \<Rightarrow> inventory_transfer \<Rightarrow> inventory_transfer" where
  "completed_transfer actor now t =
     (let name = principal_display_name (inv_principal actor);
          t = (if approved_at_unix t = None then t \<lparr> approved_by_name := name, approved_at_unix := Some now \<rparr> else t);
          t = (if dispatched_at_unix t = None
               then t \<lparr> dispatched_by_name := name, dispatched_at_unix := Some now \<rparr> else t) in
      t \<lparr> transfer_status := TrReceived, received_by_name := name, received_at_unix := Some now \<rparr>)"

definition complete_memory_transfer ::
  "memory_inventory_state \<Rightarrow> inventory_transfer \<Rightarrow> inventory_actor \<Rightarrow> int \<Rightarrow> inventory_transfer inv_step" where
  "complete_memory_transfer st t actor now =
     (case receive_assets st t of
        (Inl e, st) \<Rightarrow> (Inl e, st)
      | (Inr _, st) \<Rightarrow> (Inr (completed_transfer actor now t), st))"

definition create_selector_key :: "inventory_asset_selector \<Rightarrow> asset_key" where
  "create_selector_key s = (selector_kind s, to_ascii_lowercase (trim (selector_ref s)))"

definition transfer_line_for ::
  "memory_inventory_state \<Rightarrow> inventory_location \<Rightarrow> inventory_asset_selector \<Rightarrow> inventory_transfer_line inv_result"
where
  "transfer_line_for st source s =
     bind_outcome (ok_or (bt_get (inv_assets st) (create_selector_key s)) AssetNotFound) (\<lambda>a.
     if \<not> eq_ignore_ascii_case (custody_warehouse_id a) (location_warehouse_id source)
     then Inl (Err WarehouseForbidden)
     else if asset_transfer_id a \<noteq> [] \<or> asset_status a \<noteq> ''available'' then Inl (Err AssetUnavailable)
     else if place_kind (physical_location a) \<noteq> AtWarehouse
        \<or> place_id (physical_location a) \<noteq> location_id source
     then Inl (Err AssetNotInSourceWarehouse)
     else Inr \<lparr> line_kind = asset_kind a, line_ref = asset_ref a, line_item_code = asset_item_code a,
       line_item_name = asset_item_name a, line_identifier = asset_identifier a, line_qty = asset_qty a,
       line_uom = asset_uom a, line_source_location_id = place_id (physical_location a) \<rparr>)"

fun reserve_assets ::
  "string \<Rightarrow> inventory_asset_selector list \<Rightarrow> memory_inventory_state \<Rightarrow> unit inv_step" where
  "reserve_assets i [] st = (Inr (), st)"
| "reserve_assets i (s # ss) st =
     (case bt_get (inv_assets st) (create_selector_key s) of
        None \<Rightarrow> fail_with AssetNotFound st
      | Some a \<Rightarrow> reserve_assets i ss (put_asset (create_selector_key s)
          (a \<lparr> asset_transfer_id := i, asset_status := ''transfer_reserved'' \<rparr>) st))"

definition new_transfer ::
  "string \<Rightarrow> inventory_actor \<Rightarrow> inventory_transfer_create \<Rightarrow> inventory_location \<Rightarrow> inventory_location
   \<Rightarrow> inventory_transfer_line list \<Rightarrow> int \<Rightarrow> inventory_transfer" where
  "new_transfer i actor input source destination ls now =
     \<lparr> transfer_id = i, source_warehouse_id = location_warehouse_id source,
       source_warehouse = location_name source,
       destination_warehouse_id = location_warehouse_id destination,
       destination_warehouse = location_name destination, transfer_status = TrRequested,
       transfer_note = create_note input,
       requested_by_name = principal_display_name (inv_principal actor), approved_by_name = [],
       dispatched_by_name = [], received_by_name = [], rejected_by_name = [], cancelled_by_name = [],
       created_at_unix = now, approved_at_unix = None, dispatched_at_unix = None,
       received_at_unix = None, rejected_at_unix = None, cancelled_at_unix = None, transfer_lines = ls \<rparr>"

definition save_transfer :: "inventory_transfer \<Rightarrow> memory_inventory_state \<Rightarrow> memory_inventory_state" where
  "save_transfer t st = st \<lparr> inv_transfers := bt_insert (transfer_id t) t (inv_transfers st) \<rparr>"

definition store_create_transfer ::
  "memory_inventory_state \<Rightarrow> inventory_actor \<Rightarrow> string \<Rightarrow> inventory_transfer_create \<Rightarrow> int
   \<Rightarrow> inventory_transfer inv_step" where
  "store_create_transfer st actor i input now =
     (case bt_get (transfer_keys st) (create_key input) of
        Some existing_id \<Rightarrow>
          checked st (ok_or (bt_get (inv_transfers st) existing_id) IdempotencyConflict) (\<lambda>existing.
          if transfer_matches_create existing input then (Inr existing, st)
          else fail_with IdempotencyConflict st)
      | None \<Rightarrow>
          checked st (warehouse_location st (create_source_id input)) (\<lambda>source.
          checked st (warehouse_location st (create_destination_id input)) (\<lambda>destination.
          if eq_ignore_ascii_case (location_warehouse_id source) (location_warehouse_id destination)
          then fail_with SameWarehouse st
          else if \<not> can_manage_warehouse actor (location_name source) then fail_with WarehouseForbidden st
          else
            checked st (map_outcome (transfer_line_for st source) (create_assets input)) (\<lambda>ls.
            case reserve_assets i (create_assets input) st of
              (Inl e, st) \<Rightarrow> (Inl e, st)
            | (Inr _, st) \<Rightarrow>
                let t = new_transfer i actor input source destination ls now in
                (case (if manages_transfer_internally actor (location_name source) (location_name destination)
                       then complete_memory_transfer st t actor now else (Inr t, st)) of
                   (Inl e, st) \<Rightarrow> (Inl e, st)
                 | (Inr t, st) \<Rightarrow>
                     (Inr t, save_transfer t
                       (st \<lparr> transfer_keys := bt_insert (create_key input) (transfer_id t) (transfer_keys st) \<rparr>)))))))"

fun action_authorized :: "inventory_actor \<Rightarrow> inventory_transfer \<Rightarrow> inventory_transfer_action_kind \<Rightarrow> bool" where
  "action_authorized actor t TaApprove = can_manage_warehouse actor (destination_warehouse t)"
| "action_authorized actor t TaReject = can_manage_warehouse actor (destination_warehouse t)"
| "action_authorized actor t TaReceive = can_manage_warehouse actor (destination_warehouse t)"
| "action_authorized actor t TaDispatch = can_manage_warehouse actor (source_warehouse t)"
| "action_authorized actor t TaCancel = can_manage_warehouse actor (source_warehouse t)"

fun mark_in_transit ::
  "inventory_transfer_line list \<Rightarrow> memory_inventory_state \<Rightarrow> memory_inventory_state" where
  "mark_in_transit [] st = st"
| "mark_in_transit (l # ls) st =
     (case bt_get (inv_assets st) (line_key l) of
        None \<Rightarrow> mark_in_transit ls st
      | Some a \<Rightarrow> mark_in_transit ls (put_asset (line_key l) (a \<lparr> asset_status := ''in_transit'' \<rparr>) st))"

text \<open>The change an action makes to the transfer and to its assets.\<close>

fun apply_transfer_action ::
  "memory_inventory_state \<Rightarrow> inventory_actor \<Rightarrow> inventory_transfer \<Rightarrow> int \<Rightarrow> bool
   \<Rightarrow> inventory_transfer_action_kind \<Rightarrow> inventory_transfer inv_step" where
  "apply_transfer_action st actor t now internal TaApprove =
     (if transfer_status t \<noteq> TrRequested then fail_with InvalidTransition st
      else
        checked st (ensure_memory_transfer_assets st t) (\<lambda>_.
        let t = t \<lparr> transfer_status := TrApproved,
              approved_by_name := principal_display_name (inv_principal actor), approved_at_unix := Some now \<rparr> in
        if internal then complete_memory_transfer st t actor now else (Inr t, st)))"
| "apply_transfer_action st actor t now internal TaReject =
     (if transfer_status t \<noteq> TrRequested then fail_with InvalidTransition st
      else
        checked st (ensure_memory_transfer_assets st t) (\<lambda>_.
        let t = t \<lparr> transfer_status := TrRejected,
              rejected_by_name := principal_display_name (inv_principal actor), rejected_at_unix := Some now \<rparr> in
        (Inr t, release_memory_assets st t)))"
| "apply_transfer_action st actor t now internal TaDispatch =
     (if transfer_status t \<noteq> TrApproved then fail_with InvalidTransition st
      else
        let t = t \<lparr> transfer_status := TrInTransit,
              dispatched_by_name := principal_display_name (inv_principal actor), dispatched_at_unix := Some now \<rparr> in
        if internal then complete_memory_transfer st t actor now
        else checked st (ensure_memory_transfer_assets st t) (\<lambda>_. (Inr t, mark_in_transit (transfer_lines t) st)))"
| "apply_transfer_action st actor t now internal TaReceive =
     (if transfer_status t \<noteq> TrInTransit then fail_with InvalidTransition st
      else
        (case receive_assets st t of
           (Inl e, st) \<Rightarrow> (Inl e, st)
         | (Inr _, st) \<Rightarrow> (Inr (t \<lparr> transfer_status := TrReceived,
             received_by_name := principal_display_name (inv_principal actor), received_at_unix := Some now \<rparr>), st)))"
| "apply_transfer_action st actor t now internal TaCancel =
     (if transfer_status t \<noteq> TrRequested \<and> transfer_status t \<noteq> TrApproved then fail_with InvalidTransition st
      else
        checked st (ensure_memory_transfer_assets st t) (\<lambda>_.
        let t = t \<lparr> transfer_status := TrCancelled,
              cancelled_by_name := principal_display_name (inv_principal actor), cancelled_at_unix := Some now \<rparr> in
        (Inr t, release_memory_assets st t)))"

definition note_action ::
  "string \<Rightarrow> string \<Rightarrow> inventory_transfer_action_kind \<Rightarrow> memory_inventory_state \<Rightarrow> memory_inventory_state" where
  "note_action key i action st = st \<lparr> action_keys := bt_insert key (i, action) (action_keys st) \<rparr>"

definition store_transfer_action ::
  "memory_inventory_state \<Rightarrow> inventory_actor \<Rightarrow> string \<Rightarrow> inventory_transfer_action_kind
   \<Rightarrow> inventory_transfer_action \<Rightarrow> int \<Rightarrow> inventory_transfer inv_step" where
  "store_transfer_action st actor i action input now =
     checked st (ok_or (bt_get (inv_transfers st) i) TransferNotFound) (\<lambda>t.
     if principal_role_of (inv_principal actor) = TayyorlovMasteri
        \<and> (transfer_lines t = [] \<or> list_ex (\<lambda>l. line_kind l \<noteq> RawMaterial) (transfer_lines t))
     then fail_with WarehouseForbidden st
     else if \<not> action_authorized actor t action then fail_with WarehouseForbidden st
     else
       (case bt_get (action_keys st) (action_key input) of
          Some (existing_id, existing_action) \<Rightarrow>
            if existing_id \<noteq> i \<or> existing_action \<noteq> action then fail_with IdempotencyConflict st
            else (Inr t, st)
        | None \<Rightarrow>
            if transfer_action_already_applied (transfer_status t) action
            then (Inr t, note_action (action_key input) i action st)
            else
              (case apply_transfer_action st actor t now
                      (manages_transfer_internally actor (source_warehouse t) (destination_warehouse t)) action of
                 (Inl e, st) \<Rightarrow> (Inl e, st)
               | (Inr t, st) \<Rightarrow> (Inr t, note_action (action_key input) i action (save_transfer t st)))))"

section \<open>The service\<close>

definition relocate ::
  "memory_inventory_state \<Rightarrow> inventory_actor \<Rightarrow> inventory_relocation_create \<Rightarrow> inventory_asset inv_step" where
  "relocate st actor input = checked st (normalize_relocation input) (store_relocate st actor)"

definition relocate_batch ::
  "memory_inventory_state \<Rightarrow> inventory_actor \<Rightarrow> inventory_relocation_batch_create
   \<Rightarrow> inventory_asset list inv_step" where
  "relocate_batch st actor input = checked st (normalize_relocation_batch input) (store_relocate_batch st actor)"

definition return_to_warehouses_batch ::
  "memory_inventory_state \<Rightarrow> inventory_actor \<Rightarrow> inventory_return_batch_create
   \<Rightarrow> inventory_asset list inv_step" where
  "return_to_warehouses_batch st actor input =
     checked st (normalize_return_batch input) (store_return_to_warehouses_batch st actor)"

definition create_transfer ::
  "memory_inventory_state \<Rightarrow> inventory_actor \<Rightarrow> string \<Rightarrow> inventory_transfer_create \<Rightarrow> int
   \<Rightarrow> inventory_transfer inv_step" where
  "create_transfer st actor i input now =
     checked st (normalize_transfer_create actor input) (\<lambda>input. store_create_transfer st actor i input now)"

definition transfer_action ::
  "memory_inventory_state \<Rightarrow> inventory_actor \<Rightarrow> string \<Rightarrow> inventory_transfer_action_kind
   \<Rightarrow> inventory_transfer_action \<Rightarrow> int \<Rightarrow> inventory_transfer inv_step" where
  "transfer_action st actor i action input now =
     checked st (normalize_transfer_action i input)
       (\<lambda>(i, input). store_transfer_action st actor i action input now)"

definition list_assets ::
  "memory_inventory_state \<Rightarrow> inventory_actor \<Rightarrow> inventory_asset_query \<Rightarrow> inventory_asset list inv_result" where
  "list_assets st actor q = store_assets st actor (normalize_asset_query actor q)"

definition list_transfers ::
  "memory_inventory_state \<Rightarrow> inventory_actor \<Rightarrow> inventory_transfer_query \<Rightarrow> inventory_transfer list inv_result"
where
  "list_transfers st actor q =
     bind_outcome (normalize_transfer_query q) (\<lambda>q. Inr (store_transfers st actor q))"

end
