(* ===== verification/Inventory_Laws.thy ===== *)
theory Inventory_Laws
  imports Inventory_Store
begin

text \<open>
  Laws of the inventory store: what its loops do to the assets, the invariant that ties assets,
  transfers and places together, and that every operation keeps it.
\<close>

section \<open>Texts and selectors\<close>

lemma ascii_lower_whitespace [simp]: "is_whitespace (ascii_lower c) \<longleftrightarrow> is_whitespace c"
proof (cases "is_ascii_uppercase c")
  case True
  then have "\<not> is_whitespace c" by (auto simp: char_class_defs)
  moreover have "\<not> is_whitespace (ascii_lower c)"
    using True by (cases c) (auto simp: char_class_defs of_char_def of_bool_def split: if_splits)
  ultimately show ?thesis by simp
next
  case False
  then have "ascii_lower c = c" by (cases c) simp
  then show ?thesis by simp
qed

lemma trim_lower: "trim (to_ascii_lowercase s) = to_ascii_lowercase (trim s)"
  by (simp add: trim_def trim_start_def trim_end_def to_ascii_lowercase_def dropWhile_map rev_map comp_def)

lemma length_trim_le: "length (trim s) \<le> length s"
  unfolding trim_def trim_start_def trim_end_def
  by (metis (no_types) length_dropWhile_le length_rev order_trans)

lemma trim_same_length: "length (trim s) = length s \<Longrightarrow> trim s = s"
proof -
  assume len: "length (trim s) = length s"
  let ?a = "dropWhile is_whitespace s"
  have "length (dropWhile is_whitespace (rev ?a)) \<le> length ?a" "length ?a \<le> length s"
    by (metis length_dropWhile_le length_rev) (rule length_dropWhile_le)
  then have lens: "length ?a = length s" "length (dropWhile is_whitespace (rev ?a)) = length ?a"
    using len by (simp_all add: trim_def trim_start_def trim_end_def)
  have same: "length (dropWhile P xs) = length xs \<Longrightarrow> dropWhile P xs = xs" for P and xs :: string
    by (metis append_eq_append_conv append_Nil takeWhile_dropWhile_id)
  have a: "?a = s" using same lens(1) .
  have "dropWhile is_whitespace (rev s) = rev s" using same lens(2) unfolding a by simp
  then show ?thesis using a by (simp add: trim_def trim_start_def trim_end_def)
qed

text \<open>A text that equals a trimmed one up to case has no white space at its ends.\<close>

lemma trimmed_like:
  assumes "eq_ignore_ascii_case w (trim x)"
  shows "trim w = w"
proof (rule trim_same_length)
  have "to_ascii_lowercase (trim w) = to_ascii_lowercase w"
    using assms unfolding eq_ignore_ascii_case_def by (metis trim_lower trim_trim)
  then show "length (trim w) = length w"
    by (metis length_map to_ascii_lowercase_def)
qed

lemma eq_ignore_case_refl [simp]: "eq_ignore_ascii_case s s"
  by (simp add: eq_ignore_ascii_case_def)

lemma sorted_no_adjacent_distinct:
  fixes xs :: "'a::linorder list"
  assumes "sorted xs" "\<not> list_ex (\<lambda>(a, b). a = b) (zip xs (tl xs))"
  shows "distinct xs"
  using assms
proof (induction xs rule: induct_list012)
  case (3 x y zs)
  then have "x < y" "distinct (y # zs)" by auto
  moreover have "\<forall>z\<in>set zs. y \<le> z" using 3(3) by simp
  ultimately show ?case by auto
qed auto

lemma normalized_selectors:
  assumes "normalize_asset_selectors assets = Inr ss"
  shows "distinct (map selector_key ss)" "map create_selector_key ss = map selector_key ss"
proof -
  define f where "f = (\<lambda>s. let s = s \<lparr> selector_ref := trim (selector_ref s) \<rparr> in
    if selector_ref s = [] then None else Some (selector_key s, s))"
  define keyed where "keyed = sort_key fst (filter_map f assets)"
  have ss: "ss = map snd keyed"
    and no_dup: "\<not> list_ex (\<lambda>(a, b). fst a = fst b) (zip keyed (tl keyed))"
    using assms
    by (auto simp: normalize_asset_selectors_def Let_def keyed_def f_def split: if_splits)
  have entry: "fst e = selector_key (snd e) \<and> trim (selector_ref (snd e)) = selector_ref (snd e)"
    if "e \<in> set keyed" for e
    using that by (auto simp: keyed_def set_filter_map f_def Let_def split: if_splits)
  have keys: "map selector_key ss = map fst keyed" unfolding ss using entry by simp
  have "\<not> list_ex (\<lambda>(a, b). a = b) (zip (map fst keyed) (tl (map fst keyed)))"
    using no_dup unfolding map_tl [symmetric] zip_map_map list_ex_iff by auto
  moreover have "sorted (map fst keyed)" by (simp add: keyed_def)
  ultimately show "distinct (map selector_key ss)"
    unfolding keys by (intro sorted_no_adjacent_distinct)
  show "map create_selector_key ss = map selector_key ss"
    unfolding ss using entry by (auto simp: create_selector_key_def selector_key_def)
qed

section \<open>Loops over assets\<close>

text \<open>Every loop changes the assets under some keys one after the other.\<close>

fun put_all ::
  "(asset_key \<Rightarrow> inventory_asset \<Rightarrow> inventory_asset) \<Rightarrow> asset_key list \<Rightarrow> memory_inventory_state
   \<Rightarrow> memory_inventory_state" where
  "put_all f [] st = st"
| "put_all f (k # ks) st =
     put_all f ks (case bt_get (inv_assets st) k of None \<Rightarrow> st | Some a \<Rightarrow> put_asset k (f k a) st)"

lemma put_asset_get [simp]: "bt_get (inv_assets (put_asset k a st)) = (bt_get (inv_assets st))(k \<mapsto> a)"
  by (simp add: put_asset_def fun_eq_iff)

lemma put_asset_rest [simp]:
  "inv_locations (put_asset k a st) = inv_locations st" "inv_transfers (put_asset k a st) = inv_transfers st"
  "bt_wf (inv_assets st) \<Longrightarrow> bt_wf (inv_assets (put_asset k a st))"
  by (simp_all add: put_asset_def)

lemma put_all_get:
  "distinct ks \<Longrightarrow> bt_get (inv_assets (put_all f ks st)) k =
     (if k \<in> set ks then map_option (f k) (bt_get (inv_assets st) k) else bt_get (inv_assets st) k)"
  by (induction ks arbitrary: st) (auto split: option.splits)

lemma put_all_rest [simp]:
  "inv_locations (put_all f ks st) = inv_locations st" "inv_transfers (put_all f ks st) = inv_transfers st"
  "bt_wf (inv_assets st) \<Longrightarrow> bt_wf (inv_assets (put_all f ks st))"
  by (induction ks arbitrary: st) (auto split: option.splits)

lemma place_assets_ok:
  assumes "distinct ks" "\<And>k. k \<in> set ks \<Longrightarrow> target k \<noteq> None \<and> bt_get (inv_assets st) k \<noteq> None"
  shows "\<exists>saved'. place_assets target ks st saved = (Inr saved', put_all (\<lambda>k. place_asset (the (target k))) ks st)"
  using assms
proof (induction ks arbitrary: st saved)
  case (Cons k ks)
  obtain l a where k: "target k = Some l" "bt_get (inv_assets st) k = Some a"
    using Cons.prems(2) [of k] by auto
  have "\<exists>saved'. place_assets target ks (put_asset k (place_asset l a) st) (saved @ [place_asset l a]) =
      (Inr saved', put_all (\<lambda>k. place_asset (the (target k))) ks (put_asset k (place_asset l a) st))"
    using Cons.prems by (intro Cons.IH) auto
  then show ?case using k by simp
qed simp

lemma reserve_assets_ok:
  assumes "distinct (map create_selector_key ss)"
    and "\<And>s. s \<in> set ss \<Longrightarrow> bt_get (inv_assets st) (create_selector_key s) \<noteq> None"
  shows "reserve_assets i ss st = (Inr (), put_all
    (\<lambda>_ a. a \<lparr> asset_transfer_id := i, asset_status := ''transfer_reserved'' \<rparr>) (map create_selector_key ss) st)"
  using assms
proof (induction ss arbitrary: st)
  case (Cons s ss)
  obtain a where a: "bt_get (inv_assets st) (create_selector_key s) = Some a"
    using Cons.prems(2) [of s] by auto
  have "bt_get (inv_assets (put_asset (create_selector_key s) b st)) (create_selector_key x) \<noteq> None"
    if "x \<in> set ss" for x b
    using Cons.prems that by auto
  then show ?case using a Cons.prems(1) Cons.IH by simp
qed simp

lemma receive_lines_ok:
  assumes "distinct (map line_key ls)"
    and "\<And>l. l \<in> set ls \<Longrightarrow> \<exists>a. bt_get (inv_assets st) (line_key l) = Some a \<and> asset_transfer_id a = transfer_id t"
  shows "receive_lines t d ls st = (Inr (), put_all (\<lambda>_. received_asset t d) (map line_key ls) st)"
  using assms
proof (induction ls arbitrary: st)
  case (Cons l ls)
  obtain a where a: "bt_get (inv_assets st) (line_key l) = Some a" "asset_transfer_id a = transfer_id t"
    using Cons.prems(2) [of l] by auto
  have "\<exists>b. bt_get (inv_assets (put_asset (line_key l) c st)) (line_key x) = Some b
      \<and> asset_transfer_id b = transfer_id t" if "x \<in> set ls" for x c
    using Cons.prems that by (auto simp: image_iff)
  then show ?case using a Cons.prems(1) Cons.IH by simp
qed simp

lemma release_lines_ok:
  assumes "distinct (map line_key ls)"
    and "\<And>l. l \<in> set ls \<Longrightarrow> \<exists>a. bt_get (inv_assets st) (line_key l) = Some a \<and> asset_transfer_id a = i"
  shows "release_lines i ls st = put_all (\<lambda>_ a. a \<lparr> asset_transfer_id := [], asset_status := ''available'' \<rparr>)
    (map line_key ls) st"
  using assms
proof (induction ls arbitrary: st)
  case (Cons l ls)
  obtain a where a: "bt_get (inv_assets st) (line_key l) = Some a" "asset_transfer_id a = i"
    using Cons.prems(2) [of l] by auto
  have "\<exists>b. bt_get (inv_assets (put_asset (line_key l) c st)) (line_key x) = Some b
      \<and> asset_transfer_id b = i" if "x \<in> set ls" for x c
    using Cons.prems that by (auto simp: image_iff)
  then show ?case using a Cons.prems(1) Cons.IH by simp
qed simp

lemma mark_in_transit_is:
  "mark_in_transit ls st = put_all (\<lambda>_ a. a \<lparr> asset_status := ''in_transit'' \<rparr>) (map line_key ls) st"
  by (induction ls arbitrary: st) (auto split: option.splits)

section \<open>The invariant\<close>

text \<open>
  An asset is filed under its kind and reference.  If it is held for a transfer, that transfer is
  active and has a line for it.  If it stands in a warehouse, it is the warehouse with custody.
\<close>

definition stands_in_custody :: "memory_inventory_state \<Rightarrow> inventory_asset \<Rightarrow> bool" where
  "stands_in_custody st a \<longleftrightarrow>
     (place_kind (physical_location a) = AtWarehouse \<longrightarrow>
       (\<exists>l. bt_get (inv_locations st) (place_id (physical_location a)) = Some l \<and> location_kind l = AtWarehouse
         \<and> eq_ignore_ascii_case (location_warehouse_id l) (custody_warehouse_id a)))"

definition asset_ok :: "memory_inventory_state \<Rightarrow> asset_key \<Rightarrow> inventory_asset \<Rightarrow> bool" where
  "asset_ok st k a \<longleftrightarrow>
     k = (asset_kind a, to_ascii_lowercase (asset_ref a)) \<and> stands_in_custody st a \<and>
     (asset_transfer_id a \<noteq> [] \<longrightarrow>
       (\<exists>t. bt_get (inv_transfers st) (asset_transfer_id a) = Some t \<and> transfer_is_active (transfer_status t)
         \<and> k \<in> line_key ` set (transfer_lines t)))"

text \<open>
  A transfer is filed under its identity, has distinct lines and a destination that exists.  While
  it is active, it holds the assets of all its lines, in the status that belongs to its own.
\<close>

definition held_status :: "inventory_transfer_status \<Rightarrow> string" where
  "held_status s = (if s = TrInTransit then ''in_transit'' else ''transfer_reserved'')"

definition transfer_static_ok :: "memory_inventory_state \<Rightarrow> string \<Rightarrow> inventory_transfer \<Rightarrow> bool" where
  "transfer_static_ok st i t \<longleftrightarrow>
     transfer_id t = i \<and> i \<noteq> [] \<and> distinct (map line_key (transfer_lines t)) \<and>
     find_warehouse st (destination_warehouse_id t) \<noteq> None \<and>
     trim (destination_warehouse_id t) = destination_warehouse_id t"

definition holds_lines :: "memory_inventory_state \<Rightarrow> string \<Rightarrow> inventory_transfer \<Rightarrow> bool" where
  "holds_lines st i t \<longleftrightarrow>
     (\<forall>k\<in>line_key ` set (transfer_lines t). \<exists>a. bt_get (inv_assets st) k = Some a
       \<and> asset_transfer_id a = i \<and> asset_status a = held_status (transfer_status t))"

definition transfer_ok :: "memory_inventory_state \<Rightarrow> string \<Rightarrow> inventory_transfer \<Rightarrow> bool" where
  "transfer_ok st i t \<longleftrightarrow> transfer_static_ok st i t \<and> (transfer_is_active (transfer_status t) \<longrightarrow> holds_lines st i t)"

definition inventory_ok :: "memory_inventory_state \<Rightarrow> bool" where
  "inventory_ok st \<longleftrightarrow>
     bt_wf (inv_locations st) \<and> bt_wf (inv_assets st) \<and>
     (\<forall>i l. bt_get (inv_locations st) i = Some l \<longrightarrow> location_id l = i) \<and>
     (\<forall>k a. bt_get (inv_assets st) k = Some a \<longrightarrow> asset_ok st k a) \<and>
     (\<forall>i t. bt_get (inv_transfers st) i = Some t \<longrightarrow> transfer_ok st i t)"

lemma inventory_okD:
  assumes "inventory_ok st"
  shows "bt_wf (inv_locations st)" "bt_wf (inv_assets st)"
    "\<And>i l. bt_get (inv_locations st) i = Some l \<Longrightarrow> location_id l = i"
    "\<And>k a. bt_get (inv_assets st) k = Some a \<Longrightarrow> asset_ok st k a"
    "\<And>i t. bt_get (inv_transfers st) i = Some t \<Longrightarrow> transfer_ok st i t"
  using assms unfolding inventory_ok_def by blast+

lemma inventory_okI:
  assumes "bt_wf (inv_locations st)" "bt_wf (inv_assets st)"
    "\<And>i l. bt_get (inv_locations st) i = Some l \<Longrightarrow> location_id l = i"
    "\<And>k a. bt_get (inv_assets st) k = Some a \<Longrightarrow> asset_ok st k a"
    "\<And>i t. bt_get (inv_transfers st) i = Some t \<Longrightarrow> transfer_ok st i t"
  shows "inventory_ok st"
  using assms unfolding inventory_ok_def by blast

lemma asset_okI:
  assumes "asset_ok st k b" "asset_kind a = asset_kind b" "asset_ref a = asset_ref b"
    "stands_in_custody st a" "inv_locations st' = inv_locations st"
    "asset_transfer_id a \<noteq> [] \<Longrightarrow> \<exists>t. bt_get (inv_transfers st') (asset_transfer_id a) = Some t
      \<and> transfer_is_active (transfer_status t) \<and> k \<in> line_key ` set (transfer_lines t)"
  shows "asset_ok st' k a"
  using assms unfolding asset_ok_def stands_in_custody_def by simp

lemma find_warehouse_same: "inv_locations st' = inv_locations st \<Longrightarrow> find_warehouse st' = find_warehouse st"
  by (simp add: find_warehouse_def fun_eq_iff)

lemma stands_same: "inv_locations st' = inv_locations st \<Longrightarrow> stands_in_custody st' = stands_in_custody st"
  by (simp add: stands_in_custody_def fun_eq_iff)

lemma static_same:
  assumes "inv_locations st' = inv_locations st"
  shows "transfer_static_ok st' = transfer_static_ok st"
  by (simp add: transfer_static_ok_def fun_eq_iff find_warehouse_same [OF assms])

lemma asset_ok_same:
  assumes "asset_ok st k a" "inv_locations st' = inv_locations st"
    "asset_transfer_id a \<noteq> [] \<Longrightarrow>
      bt_get (inv_transfers st') (asset_transfer_id a) = bt_get (inv_transfers st) (asset_transfer_id a)"
  shows "asset_ok st' k a"
  using assms unfolding asset_ok_def stands_same [OF assms(2)] by auto

text \<open>What is found among the warehouses is a location of the store.\<close>

lemma found_warehouse:
  assumes "inventory_ok st" "find_warehouse st w = Some l"
  shows "bt_get (inv_locations st) (location_id l) = Some l" "location_kind l = AtWarehouse"
    "eq_ignore_ascii_case (location_warehouse_id l) (trim w)" "trim (location_warehouse_id l) = location_warehouse_id l"
    "find_warehouse st (location_warehouse_id l) \<noteq> None"
proof -
  let ?P = "\<lambda>v l. location_kind l = AtWarehouse \<and> eq_ignore_ascii_case (location_warehouse_id l) v"
  have l: "l \<in> set (bt_values (inv_locations st))" "?P (trim w) l"
    using assms(2) by (auto simp: find_warehouse_def find_Some_iff)
  then obtain i where "(i, l) \<in> set (inv_locations st)" by (auto simp: bt_values_def)
  then have i: "bt_get (inv_locations st) i = Some l"
    using bt_get_in_set [OF inventory_okD(1) [OF assms(1)]] by simp
  then show "bt_get (inv_locations st) (location_id l) = Some l"
    using inventory_okD(3) [OF assms(1) i] by simp
  show "location_kind l = AtWarehouse" "eq_ignore_ascii_case (location_warehouse_id l) (trim w)"
    using l(2) by simp_all
  then show trim: "trim (location_warehouse_id l) = location_warehouse_id l" by (simp add: trimmed_like)
  show "find_warehouse st (location_warehouse_id l) \<noteq> None"
    using l unfolding find_warehouse_def find_None_iff trim by auto
qed

text \<open>
  One step of the store: the assets under some keys change by \<open>f\<close>, and one transfer may be saved.
\<close>

definition step_of ::
  "memory_inventory_state \<Rightarrow> asset_key set \<Rightarrow> (asset_key \<Rightarrow> inventory_asset \<Rightarrow> inventory_asset)
   \<Rightarrow> inventory_transfer option \<Rightarrow> memory_inventory_state \<Rightarrow> bool" where
  "step_of st K f t st' \<longleftrightarrow>
     inv_locations st' = inv_locations st \<and> (bt_wf (inv_assets st) \<longrightarrow> bt_wf (inv_assets st')) \<and>
     (\<forall>k. bt_get (inv_assets st') k =
       (if k \<in> K then map_option (f k) (bt_get (inv_assets st) k) else bt_get (inv_assets st) k)) \<and>
     bt_get (inv_transfers st') = (case t of None \<Rightarrow> bt_get (inv_transfers st)
       | Some t \<Rightarrow> (bt_get (inv_transfers st))(transfer_id t \<mapsto> t))"

lemma step_ofD:
  assumes "step_of st K f t st'"
  shows "inv_locations st' = inv_locations st" "bt_wf (inv_assets st) \<Longrightarrow> bt_wf (inv_assets st')"
    "\<And>k. k \<notin> K \<Longrightarrow> bt_get (inv_assets st') k = bt_get (inv_assets st) k"
    "\<And>k. k \<in> K \<Longrightarrow> bt_get (inv_assets st') k = map_option (f k) (bt_get (inv_assets st) k)"
    "bt_get (inv_transfers st') = (case t of None \<Rightarrow> bt_get (inv_transfers st)
       | Some t \<Rightarrow> (bt_get (inv_transfers st))(transfer_id t \<mapsto> t))"
  using assms unfolding step_of_def by (simp_all del: split_paired_All)

text \<open>Moving assets that no transfer holds.\<close>

lemma move_ok:
  assumes ok: "inventory_ok st" and step: "step_of st K f None st'"
    and free: "\<And>k. k \<in> K \<Longrightarrow> \<exists>a. bt_get (inv_assets st) k = Some a \<and> asset_transfer_id a = []
      \<and> asset_kind (f k a) = asset_kind a \<and> asset_ref (f k a) = asset_ref a
      \<and> asset_transfer_id (f k a) = [] \<and> stands_in_custody st (f k a)"
  shows "inventory_ok st'"
proof -
  note d = step_ofD [OF step] and o = inventory_okD [OF ok]
  have tr: "bt_get (inv_transfers st') = bt_get (inv_transfers st)" using d(5) by simp
  have "asset_ok st' k a" if a: "bt_get (inv_assets st') k = Some a" for k a
  proof (cases "k \<in> K")
    case True
    obtain b where b: "bt_get (inv_assets st) k = Some b" "asset_kind (f k b) = asset_kind b"
      "asset_ref (f k b) = asset_ref b" "asset_transfer_id (f k b) = []" "stands_in_custody st (f k b)"
      using free [OF True] by blast
    have eq: "a = f k b" using a d(4) [OF True] b(1) by simp
    show ?thesis
      unfolding eq using b(2-5) by (intro asset_okI [OF o(4) [OF b(1)] _ _ _ d(1)]) simp_all
  next
    case False
    then have "asset_ok st k a" using a d(3) [OF False] o(4) by simp
    then show ?thesis using tr by (intro asset_ok_same [OF _ d(1)]) simp_all
  qed
  moreover have "transfer_ok st' i t" if t: "bt_get (inv_transfers st') i = Some t" for i t
  proof -
    have t_ok: "transfer_ok st i t" using t tr o(5) by simp
    have "holds_lines st' i t" if act: "transfer_is_active (transfer_status t)"
      unfolding holds_lines_def
    proof
      fix k assume k: "k \<in> line_key ` set (transfer_lines t)"
      obtain a where a: "bt_get (inv_assets st) k = Some a" "asset_transfer_id a = i"
        "asset_status a = held_status (transfer_status t)"
        using t_ok act k by (auto simp: transfer_ok_def holds_lines_def)
      then have "k \<notin> K" using free [of k] t_ok by (auto simp: transfer_ok_def transfer_static_ok_def)
      then show "\<exists>a. bt_get (inv_assets st') k = Some a \<and> asset_transfer_id a = i
          \<and> asset_status a = held_status (transfer_status t)" using a d(3) by simp
    qed
    then show ?thesis using t_ok static_same [OF d(1)] by (simp add: transfer_ok_def)
  qed
  ultimately show ?thesis using d(1,2) o(1,2,3) by (intro inventory_okI) simp_all
qed

text \<open>Saving a transfer: its assets change, those of other transfers do not.\<close>

lemma transfer_step_ok:
  assumes ok: "inventory_ok st" and step: "step_of st K f (Some t) st'"
    and static: "transfer_static_ok st i t"
    and mine: "\<And>k a. bt_get (inv_assets st) k = Some a \<Longrightarrow> asset_transfer_id a = i \<Longrightarrow> k \<in> K"
    and lines: "K = line_key ` set (transfer_lines t)"
    and changed: "\<And>k. k \<in> K \<Longrightarrow> \<exists>a. bt_get (inv_assets st) k = Some a
      \<and> (asset_transfer_id a = i \<or> asset_transfer_id a = [])
      \<and> asset_kind (f k a) = asset_kind a \<and> asset_ref (f k a) = asset_ref a \<and> stands_in_custody st (f k a)
      \<and> (if transfer_is_active (transfer_status t)
         then asset_transfer_id (f k a) = i \<and> asset_status (f k a) = held_status (transfer_status t)
         else asset_transfer_id (f k a) = [])"
  shows "inventory_ok st'"
proof -
  note d = step_ofD [OF step] and o = inventory_okD [OF ok]
  have i: "transfer_id t = i" "i \<noteq> []" using static by (simp_all add: transfer_static_ok_def)
  have tr: "bt_get (inv_transfers st') = (bt_get (inv_transfers st))(i \<mapsto> t)" using d(5) i(1) by (simp add: fun_upd_def)
  have "asset_ok st' k a" if a: "bt_get (inv_assets st') k = Some a" for k a
  proof (cases "k \<in> K")
    case True
    obtain b where b: "bt_get (inv_assets st) k = Some b" "asset_kind (f k b) = asset_kind b"
      "asset_ref (f k b) = asset_ref b" "stands_in_custody st (f k b)"
      "if transfer_is_active (transfer_status t) then asset_transfer_id (f k b) = i
       else asset_transfer_id (f k b) = []"
      using changed [OF True] by (auto split: if_splits)
    have eq: "a = f k b" using a d(4) [OF True] b(1) by simp
    show ?thesis
      using b(2-5) eq tr True lines
      by (intro asset_okI [OF o(4) [OF b(1)] _ _ _ d(1)]) (simp_all split: if_splits)
  next
    case False
    then have "bt_get (inv_assets st) k = Some a" using a d(3) by simp
    then have "asset_ok st k a" "asset_transfer_id a \<noteq> i" using o(4) mine False by blast+
    then show ?thesis using tr by (intro asset_ok_same [OF _ d(1)]) simp_all
  qed
  moreover have "transfer_ok st' j u" if u: "bt_get (inv_transfers st') j = Some u" for j u
  proof (cases "j = i")
    case True
    then have ut: "u = t" using u tr by simp
    have "holds_lines st' i t" if act: "transfer_is_active (transfer_status t)"
      unfolding holds_lines_def lines [symmetric]
    proof
      fix k assume k: "k \<in> K"
      show "\<exists>a. bt_get (inv_assets st') k = Some a \<and> asset_transfer_id a = i
          \<and> asset_status a = held_status (transfer_status t)"
        using changed [OF k] d(4) [OF k] act by auto
    qed
    then show ?thesis using True ut static static_same [OF d(1)] by (simp add: transfer_ok_def)
  next
    case False
    then have u_ok: "transfer_ok st j u" using u tr o(5) by simp
    have "holds_lines st' j u" if act: "transfer_is_active (transfer_status u)"
      unfolding holds_lines_def
    proof
      fix k assume k: "k \<in> line_key ` set (transfer_lines u)"
      obtain a where a: "bt_get (inv_assets st) k = Some a" "asset_transfer_id a = j"
        "asset_status a = held_status (transfer_status u)"
        using u_ok act k by (auto simp: transfer_ok_def holds_lines_def)
      have "j \<noteq> []" using u_ok by (simp add: transfer_ok_def transfer_static_ok_def)
      then have "k \<notin> K" using changed [of k] a False by auto
      then show "\<exists>a. bt_get (inv_assets st') k = Some a \<and> asset_transfer_id a = j
          \<and> asset_status a = held_status (transfer_status u)" using a d(3) by simp
    qed
    then show ?thesis using u_ok static_same [OF d(1)] by (simp add: transfer_ok_def)
  qed
  ultimately show ?thesis using d(1,2) o(1,2,3) by (intro inventory_okI) simp_all
qed

section \<open>Steps\<close>

lemma step_of_put_all:
  assumes "distinct ks" "inv_locations st' = inv_locations st" "inv_assets st' = inv_assets (put_all f ks st)"
    and "inv_transfers st' = (case t of None \<Rightarrow> inv_transfers st
      | Some t \<Rightarrow> bt_insert (transfer_id t) t (inv_transfers st))"
  shows "step_of st (set ks) f t st'"
  unfolding step_of_def using assms by (auto simp: put_all_get fun_eq_iff split: option.splits)

text \<open>
  What one request may do: keep the invariant, the places and the assets with all that identifies
  them, and change custody only to the destination of a transfer it receives, for an actor who
  manages that destination.
\<close>

definition same_goods :: "inventory_asset \<Rightarrow> inventory_asset \<Rightarrow> bool" where
  "same_goods a b \<longleftrightarrow> asset_kind a = asset_kind b \<and> asset_ref a = asset_ref b
     \<and> asset_item_code a = asset_item_code b \<and> asset_item_name a = asset_item_name b
     \<and> asset_identifier a = asset_identifier b \<and> asset_qty a = asset_qty b \<and> asset_uom a = asset_uom b"

definition same_custody :: "inventory_asset \<Rightarrow> inventory_asset \<Rightarrow> bool" where
  "same_custody a b \<longleftrightarrow> custody_warehouse_id a = custody_warehouse_id b \<and> custody_warehouse a = custody_warehouse b"

definition received_by ::
  "inventory_actor \<Rightarrow> memory_inventory_state \<Rightarrow> asset_key \<Rightarrow> inventory_asset \<Rightarrow> bool" where
  "received_by actor st k a \<longleftrightarrow>
     (\<exists>i t. bt_get (inv_transfers st) i = Some t \<and> transfer_status t = TrReceived
       \<and> k \<in> line_key ` set (transfer_lines t)
       \<and> custody_warehouse_id a = destination_warehouse_id t \<and> custody_warehouse a = destination_warehouse t
       \<and> can_manage_warehouse actor (destination_warehouse t))"

definition legit_step :: "inventory_actor \<Rightarrow> memory_inventory_state \<Rightarrow> memory_inventory_state \<Rightarrow> bool" where
  "legit_step actor st st' \<longleftrightarrow>
     inventory_ok st' \<and> inv_locations st' = inv_locations st \<and>
     (\<forall>k. case bt_get (inv_assets st) k of
        None \<Rightarrow> bt_get (inv_assets st') k = None
      | Some a \<Rightarrow> \<exists>b. bt_get (inv_assets st') k = Some b \<and> same_goods a b
          \<and> (same_custody a b \<or> received_by actor st' k b))"

lemma same_refl [simp]: "same_goods a a" "same_custody a a"
  by (simp_all add: same_goods_def same_custody_def)

lemma legit_refl: "inventory_ok st \<Longrightarrow> legit_step actor st st"
  unfolding legit_step_def by (simp del: split_paired_All split: option.split)

lemma legit_step_of:
  assumes "step_of st K f t st'" "inventory_ok st'"
    and "\<And>k a. k \<in> K \<Longrightarrow> bt_get (inv_assets st) k = Some a \<Longrightarrow>
      same_goods a (f k a) \<and> (same_custody a (f k a) \<or> received_by actor st' k (f k a))"
  shows "legit_step actor st st'"
  unfolding legit_step_def
proof (intro conjI allI)
  note d = step_ofD [OF assms(1)]
  show "inventory_ok st'" "inv_locations st' = inv_locations st" by (fact assms(2)) (fact d(1))
  fix k
  show "case bt_get (inv_assets st) k of None \<Rightarrow> bt_get (inv_assets st') k = None
    | Some a \<Rightarrow> \<exists>b. bt_get (inv_assets st') k = Some b \<and> same_goods a b
        \<and> (same_custody a b \<or> received_by actor st' k b)"
  proof (cases "k \<in> K")
    case True
    then show ?thesis using d(4) [OF True] assms(3) [OF True] by (auto split: option.split)
  next
    case False
    then show ?thesis using d(3) [OF False] by (auto split: option.split)
  qed
qed

text \<open>An operation either fails and changes nothing, or makes a legitimate step.\<close>

definition fails_or_steps ::
  "inventory_actor \<Rightarrow> memory_inventory_state \<Rightarrow> 'a inv_step \<Rightarrow> bool" where
  "fails_or_steps actor st r \<longleftrightarrow>
     (case fst r of Inl _ \<Rightarrow> snd r = st | Inr _ \<Rightarrow> legit_step actor st (snd r))"

lemma fails_or_steps_simps [simp]:
  "fails_or_steps actor st (Inl e, st') \<longleftrightarrow> st' = st"
  "fails_or_steps actor st (Inr x, st') \<longleftrightarrow> legit_step actor st st'"
  "fails_or_steps actor st (fail_with err st)"
  by (simp_all add: fails_or_steps_def fail_with_def)

lemma fails_or_steps_checked:
  "(\<And>x. r = Inr x \<Longrightarrow> fails_or_steps actor st (k x)) \<Longrightarrow> fails_or_steps actor st (checked st r k)"
  by (cases r) simp_all

lemma fails_or_steps_read: "inventory_ok st \<Longrightarrow> fails_or_steps actor st (r, st)"
  by (cases r) (simp_all add: legit_refl)

section \<open>Relocation keeps the invariant\<close>

text \<open>An asset that may be moved to a location of the store.\<close>

definition movable :: "memory_inventory_state \<Rightarrow> inventory_location \<Rightarrow> inventory_asset \<Rightarrow> bool" where
  "movable st l a \<longleftrightarrow> asset_transfer_id a = [] \<and> bt_get (inv_locations st) (location_id l) = Some l \<and>
     (location_kind l = AtWarehouse \<longrightarrow> eq_ignore_ascii_case (location_warehouse_id l) (custody_warehouse_id a))"

lemma move_step:
  assumes ok: "inventory_ok st" and "distinct ks"
    and "\<And>k. k \<in> set ks \<Longrightarrow> \<exists>a. bt_get (inv_assets st) k = Some a \<and> movable st (place k) a"
    and "inv_locations st' = inv_locations st" "inv_transfers st' = inv_transfers st"
    and "inv_assets st' = inv_assets (put_all (\<lambda>k. place_asset (place k)) ks st)"
  shows "legit_step actor st st'"
proof -
  have step: "step_of st (set ks) (\<lambda>k. place_asset (place k)) None st'"
    using assms by (intro step_of_put_all) simp_all
  have "inventory_ok st'"
  proof (rule move_ok [OF ok step])
    fix k assume "k \<in> set ks"
    then obtain a where a: "bt_get (inv_assets st) k = Some a" "movable st (place k) a"
      using assms(3) by blast
    have "stands_in_custody st (place_asset (place k) a)"
      using a(2) by (auto simp: stands_in_custody_def place_asset_def location_ref_def movable_def)
    then show "\<exists>a. bt_get (inv_assets st) k = Some a \<and> asset_transfer_id a = []
        \<and> asset_kind (place_asset (place k) a) = asset_kind a \<and> asset_ref (place_asset (place k) a) = asset_ref a
        \<and> asset_transfer_id (place_asset (place k) a) = [] \<and> stands_in_custody st (place_asset (place k) a)"
      using a by (auto simp: place_asset_def movable_def)
  qed
  then show ?thesis
    by (rule legit_step_of [OF step]) (simp add: place_asset_def same_goods_def same_custody_def)
qed

lemma active_location_found:
  assumes "inventory_ok st" "active_location st i = Inr l"
  shows "bt_get (inv_locations st) (location_id l) = Some l"
  using assms(2) inventory_okD(3) [OF assms(1), of "trim i" l]
  by (auto simp: active_location_def bind_outcome_eq_Inr split: if_splits)

lemma may_relocate_movable:
  assumes "may_relocate actor l a = Inr u" "bt_get (inv_locations st) (location_id l) = Some l"
  shows "movable st l a"
  using assms by (auto simp: may_relocate_def movable_def split: if_splits)

lemma relocate_steps:
  assumes ok: "inventory_ok st"
  shows "fails_or_steps actor st (store_relocate st actor input)"
proof (cases "bt_get (relocation_keys st) (rel_key input)")
  case (Some e)
  then show ?thesis
    by (cases e) (simp add: store_relocate_def Let_def fails_or_steps_read [OF ok])
next
  case None
  let ?k = "(rel_kind input, to_ascii_lowercase (rel_ref input))"
  have "fails_or_steps actor st (Inr (place_asset l a), st')"
    if l: "active_location st (rel_location_id input) = Inr l" and a: "bt_get (inv_assets st) ?k = Some a"
      and may: "may_relocate actor l a = Inr u"
      and st': "inv_locations st' = inv_locations st" "inv_transfers st' = inv_transfers st"
        "inv_assets st' = inv_assets (put_asset ?k (place_asset l a) st)" for l a u st'
  proof -
    have "inv_assets st' = inv_assets (put_all (\<lambda>_. place_asset l) [?k] st)" using a st' by simp
    then show ?thesis
      using st' a may_relocate_movable [OF may active_location_found [OF ok l]]
      by (simp only: fails_or_steps_simps) (rule move_step [OF ok, where ks = "[?k]"], auto)
  qed
  then show ?thesis
    using None unfolding store_relocate_def Let_def
    by (auto intro!: fails_or_steps_checked simp: note_placement_def put_asset_def)
qed

lemma fold_note_placement [simp]:
  "inv_assets (fold (note_placement actor) ks st) = inv_assets st"
  "inv_locations (fold (note_placement actor) ks st) = inv_locations st"
  "inv_transfers (fold (note_placement actor) ks st) = inv_transfers st"
  by (induction ks arbitrary: st) (simp_all add: note_placement_def)

lemma relocate_batch_steps:
  assumes ok: "inventory_ok st" and distinct: "distinct (map selector_key (batch_assets input))"
  shows "fails_or_steps actor st (store_relocate_batch st actor input)"
proof (cases "bt_get (relocation_batch_keys st) (batch_key input)")
  case (Some e)
  then show ?thesis
    by (cases e) (simp add: store_relocate_batch_def Let_def fails_or_steps_read [OF ok])
next
  case None
  define ks where "ks = map selector_key (batch_assets input)"
  have "fails_or_steps actor st (case place_assets (\<lambda>_. Some l) ks st [] of
        (Inl e, st) \<Rightarrow> (Inl e, st)
      | (Inr saved, st) \<Rightarrow>
          let st = fold (note_placement actor) ks st in
          (Inr saved, st \<lparr> relocation_batch_keys := bt_insert (batch_key input)
            (ks, batch_location_id input) (relocation_batch_keys st) \<rparr>))"
    if l: "active_location st (batch_location_id input) = Inr l"
      and all: "each_outcome (\<lambda>k. bind_outcome (ok_or (bt_get (inv_assets st) k) AssetNotFound)
        (may_relocate actor l)) ks = Inr u" for l u
  proof -
    have may: "\<exists>a. bt_get (inv_assets st) k = Some a \<and> movable st l a" if "k \<in> set ks" for k
      using all that may_relocate_movable [OF _ active_location_found [OF ok l]]
      by (auto simp: each_outcome_Inr bind_outcome_eq_Inr simp del: split_paired_All)
    obtain saved where
      "place_assets (\<lambda>_. Some l) ks st [] = (Inr saved, put_all (\<lambda>_. place_asset l) ks st)"
      using place_assets_ok [of ks "\<lambda>_. Some l" st "[]"] may distinct by (force simp: ks_def)
    then show ?thesis
      using distinct may by (auto simp: ks_def Let_def intro!: move_step [OF ok, where ks = ks])
  qed
  then show ?thesis
    using None unfolding store_relocate_batch_def Let_def ks_def [symmetric]
    by (auto intro!: fails_or_steps_checked)
qed

lemma map_outcome_keyed:
  assumes "map_outcome g ks = Inr found" "\<And>k p. g k = Inr p \<Longrightarrow> fst p = k"
  shows "map fst found = ks" "\<And>k v. (k, v) \<in> set found \<Longrightarrow> g k = Inr (k, v)"
proof -
  have all: "list_all2 (\<lambda>k p. g k = Inr p) ks found" using assms(1) by (simp add: map_outcome_Inr_iff)
  then show "map fst found = ks" by (induction rule: list_all2_induct) (auto dest: assms(2))
  show "g k = Inr (k, v)" if "(k, v) \<in> set found" for k v
    using all that assms(2) by (induction rule: list_all2_induct) fastforce+
qed

lemma return_destination_movable:
  assumes "inventory_ok st" "return_destination st actor k = Inr (k', l)"
  shows "k' = k \<and> (\<exists>a. bt_get (inv_assets st) k = Some a \<and> movable st l a)"
proof -
  obtain a where a: "bt_get (inv_assets st) k = Some a" "asset_transfer_id a = []" "k' = k"
    and l: "find (\<lambda>l. location_active l \<and> location_kind l = AtWarehouse
      \<and> eq_ignore_ascii_case (location_warehouse_id l) (custody_warehouse_id a))
      (bt_values (inv_locations st)) = Some l"
    using assms(2) by (auto simp: return_destination_def bind_outcome_eq_Inr split: if_splits)
  then have "l \<in> snd ` set (inv_locations st)"
    "eq_ignore_ascii_case (location_warehouse_id l) (custody_warehouse_id a)"
    by (auto simp: find_Some_iff bt_values_def)
  moreover obtain i where "(i, l) \<in> set (inv_locations st)" using calculation(1) by auto
  then have "bt_get (inv_locations st) i = Some l"
    using bt_get_in_set [OF inventory_okD(1) [OF assms(1)]] by simp
  then have "bt_get (inv_locations st) (location_id l) = Some l"
    using inventory_okD(3) [OF assms(1)] by fastforce
  ultimately show ?thesis using a by (simp add: movable_def)
qed

lemma return_batch_steps:
  assumes ok: "inventory_ok st" and distinct: "distinct (map selector_key (return_assets input))"
  shows "fails_or_steps actor st (store_return_to_warehouses_batch st actor input)"
proof (cases "bt_get (return_batch_keys st) (return_key input)")
  case (Some e)
  then show ?thesis
    by (simp add: store_return_to_warehouses_batch_def Let_def fails_or_steps_read [OF ok])
next
  case None
  define ks where "ks = map selector_key (return_assets input)"
  have "fails_or_steps actor st (case place_assets (bt_get (bt_collect found)) ks st [] of
        (Inl e, st) \<Rightarrow> (Inl e, st)
      | (Inr saved, st) \<Rightarrow>
          let st = fold (note_placement actor) ks st in
          (Inr saved, st \<lparr> return_batch_keys := bt_insert (return_key input) ks (return_batch_keys st) \<rparr>))"
    if found: "map_outcome (return_destination st actor) ks = Inr found" for found
  proof -
    have key: "return_destination st actor k = Inr p \<Longrightarrow> fst p = k" for k p
      using return_destination_movable [OF ok] by (cases p) auto
    have keys: "map fst found = ks" using found key by (rule map_outcome_keyed(1))
    have goes: "return_destination st actor k = Inr (k, l)" if "(k, l) \<in> set found" for k l
      using found key that by (rule map_outcome_keyed(2))
    have d: "distinct (map fst found)" using keys distinct by (simp add: ks_def)
    let ?place = "\<lambda>k. the (bt_get (bt_collect found) k)"
    have may: "bt_get (bt_collect found) k \<noteq> None \<and>
        (\<exists>a. bt_get (inv_assets st) k = Some a \<and> movable st (?place k) a)" if k: "k \<in> set ks" for k
    proof -
      obtain l where l: "(k, l) \<in> set found" using k keys by force
      then have "bt_get (bt_collect found) k = Some l" using d by (simp add: bt_get_collect_distinct)
      then show ?thesis using return_destination_movable [OF ok goes [OF l]] by simp
    qed
    obtain saved where "place_assets (bt_get (bt_collect found)) ks st [] =
        (Inr saved, put_all (\<lambda>k. place_asset (?place k)) ks st)"
      using place_assets_ok [of ks "bt_get (bt_collect found)" st "[]"] may distinct by (force simp: ks_def)
    then show ?thesis
      using distinct may by (auto simp: ks_def Let_def intro!: move_step [OF ok, where ks = ks and place = ?place])
  qed
  then show ?thesis
    using None unfolding store_return_to_warehouses_batch_def Let_def ks_def [symmetric]
    by (auto intro!: fails_or_steps_checked)
qed

end
