(* ===== verification/Inventory_Custody.thy ===== *)
theory Inventory_Custody
  imports Inventory_Laws
begin

text \<open>
  Transfers between warehouses keep the invariant of the inventory; runs of requests; and the
  properties of the component.
\<close>

section \<open>Receiving\<close>

lemma receive_assets_ok:
  assumes "distinct (map line_key (transfer_lines t))"
    and held: "\<And>k. k \<in> line_key ` set (transfer_lines t) \<Longrightarrow> \<exists>a. bt_get (inv_assets st) k = Some a
      \<and> asset_transfer_id a = transfer_id t \<and> asset_status a \<in> {''transfer_reserved'', ''in_transit''}"
    and "find_warehouse st (destination_warehouse_id t) = Some d"
  shows "ensure_memory_transfer_assets st t = Inr ()"
    "receive_assets st t = (Inr (), put_all (\<lambda>_. received_asset t d) (map line_key (transfer_lines t)) st)"
proof -
  have "ensure_line st (transfer_id t) l = Inr ()" if "l \<in> set (transfer_lines t)" for l
    using held [of "line_key l"] that by (auto simp: ensure_line_def)
  then show ensure: "ensure_memory_transfer_assets st t = Inr ()"
    by (simp add: ensure_memory_transfer_assets_def each_outcome_Inr)
  have "receive_lines t d (transfer_lines t) st =
      (Inr (), put_all (\<lambda>_. received_asset t d) (map line_key (transfer_lines t)) st)"
    using held by (intro receive_lines_ok assms(1)) blast
  then show "receive_assets st t =
      (Inr (), put_all (\<lambda>_. received_asset t d) (map line_key (transfer_lines t)) st)"
    using ensure assms(3) by (simp add: receive_assets_def warehouse_location_def)
qed

lemma completed_fields [simp]:
  "transfer_id (completed_transfer actor now t) = transfer_id t"
  "transfer_lines (completed_transfer actor now t) = transfer_lines t"
  "destination_warehouse_id (completed_transfer actor now t) = destination_warehouse_id t"
  "destination_warehouse (completed_transfer actor now t) = destination_warehouse t"
  "source_warehouse (completed_transfer actor now t) = source_warehouse t"
  "transfer_status (completed_transfer actor now t) = TrReceived"
  by (simp_all add: completed_transfer_def Let_def)

lemma received_stands:
  assumes "inventory_ok st" "find_warehouse st (destination_warehouse_id t) = Some d"
    "trim (destination_warehouse_id t) = destination_warehouse_id t"
  shows "stands_in_custody st (received_asset t d a)"
  using found_warehouse [OF assms(1,2)] assms(3)
  by (auto simp: stands_in_custody_def received_asset_def location_ref_def)

text \<open>A transfer is finished: its assets are free, at home in the destination.\<close>

lemma received_step:
  assumes ok: "inventory_ok st" and step: "step_of st K f (Some t) st'"
    and t: "transfer_static_ok st i t" "transfer_status t = TrReceived"
    and d: "find_warehouse st (destination_warehouse_id t) = Some d"
    and K: "K = line_key ` set (transfer_lines t)"
    and mine: "\<And>k a. bt_get (inv_assets st) k = Some a \<Longrightarrow> asset_transfer_id a = i \<Longrightarrow> k \<in> K"
    and held: "\<And>k. k \<in> K \<Longrightarrow> \<exists>a. bt_get (inv_assets st) k = Some a
      \<and> (asset_transfer_id a = i \<or> asset_transfer_id a = []) \<and> f k a = received_asset t d a"
    and may: "can_manage_warehouse actor (destination_warehouse t)"
  shows "legit_step actor st st'"
proof -
  have trim: "trim (destination_warehouse_id t) = destination_warehouse_id t"
    using t(1) by (simp add: transfer_static_ok_def)
  have "inventory_ok st'"
  proof (rule transfer_step_ok [OF ok step t(1) mine K])
    fix k assume "k \<in> K"
    then obtain a where a: "bt_get (inv_assets st) k = Some a"
      "asset_transfer_id a = i \<or> asset_transfer_id a = []" "f k a = received_asset t d a"
      using held by blast
    have "stands_in_custody st (f k a)" unfolding a(3) by (rule received_stands [OF ok d trim])
    then show "\<exists>a. bt_get (inv_assets st) k = Some a \<and> (asset_transfer_id a = i \<or> asset_transfer_id a = [])
        \<and> asset_kind (f k a) = asset_kind a \<and> asset_ref (f k a) = asset_ref a \<and> stands_in_custody st (f k a)
        \<and> (if transfer_is_active (transfer_status t)
           then asset_transfer_id (f k a) = i \<and> asset_status (f k a) = held_status (transfer_status t)
           else asset_transfer_id (f k a) = [])"
      using a t(2) by (intro exI [of _ a]) (simp add: received_asset_def)
  qed
  moreover have "same_goods a (f k a) \<and> received_by actor st' k (f k a)"
    if "k \<in> K" "bt_get (inv_assets st) k = Some a" for k a
  proof -
    have "f k a = received_asset t d a" using held that by fastforce
    moreover have "bt_get (inv_transfers st') (transfer_id t) = Some t" using step_ofD(5) [OF step] by simp
    ultimately show ?thesis
      using that(1) K t(2) may by (auto simp: same_goods_def received_asset_def received_by_def)
  qed
  ultimately show ?thesis by (intro legit_step_of [OF step]) blast+
qed

section \<open>Creating a transfer\<close>

lemma transfer_lines_found:
  assumes ok: "inventory_ok st" and "map_outcome (transfer_line_for st source) ss = Inr ls"
  shows "map line_key ls = map create_selector_key ss"
    "\<And>s. s \<in> set ss \<Longrightarrow> \<exists>a. bt_get (inv_assets st) (create_selector_key s) = Some a \<and> asset_transfer_id a = []"
proof -
  have found: "line_key l = create_selector_key s \<and>
      (\<exists>a. bt_get (inv_assets st) (create_selector_key s) = Some a \<and> asset_transfer_id a = [])"
    if l: "transfer_line_for st source s = Inr l" for s l
  proof -
    obtain a where a: "bt_get (inv_assets st) (create_selector_key s) = Some a" "asset_transfer_id a = []"
      "line_kind l = asset_kind a" "line_ref l = asset_ref a"
      using l by (auto simp: transfer_line_for_def bind_outcome_eq_Inr split: if_splits)
    then show ?thesis using inventory_okD(4) [OF ok a(1)] by (simp add: line_key_def asset_ok_def)
  qed
  have all: "list_all2 (\<lambda>s l. transfer_line_for st source s = Inr l) ss ls"
    using assms(2) by (simp add: map_outcome_Inr_iff)
  then show "map line_key ls = map create_selector_key ss"
    by (induction rule: list_all2_induct) (auto dest: found)
  show "\<exists>a. bt_get (inv_assets st) (create_selector_key s) = Some a \<and> asset_transfer_id a = []"
    if "s \<in> set ss" for s
    using all that found by (induction rule: list_all2_induct) auto
qed

definition reserved_asset :: "string \<Rightarrow> inventory_asset \<Rightarrow> inventory_asset" where
  "reserved_asset i a = a \<lparr> asset_transfer_id := i, asset_status := ''transfer_reserved'' \<rparr>"

text \<open>A new transfer: nothing is held for its identity, and the assets of its lines are free.\<close>

definition fresh_transfer :: "memory_inventory_state \<Rightarrow> string \<Rightarrow> inventory_transfer \<Rightarrow> bool" where
  "fresh_transfer st i t \<longleftrightarrow> bt_get (inv_transfers st) i = None \<and> transfer_static_ok st i t \<and>
     (\<forall>k\<in>line_key ` set (transfer_lines t). \<exists>a. bt_get (inv_assets st) k = Some a \<and> asset_transfer_id a = [])"

lemma fresh_transferD:
  assumes "inventory_ok st" "fresh_transfer st i t"
  shows "transfer_static_ok st i t" "transfer_id t = i" "distinct (map line_key (transfer_lines t))"
    "\<And>k. k \<in> line_key ` set (transfer_lines t) \<Longrightarrow> \<exists>a. bt_get (inv_assets st) k = Some a \<and> asset_transfer_id a = []"
    "\<And>k a. bt_get (inv_assets st) k = Some a \<Longrightarrow> asset_transfer_id a \<noteq> i"
proof -
  show "asset_transfer_id a \<noteq> i" if "bt_get (inv_assets st) k = Some a" for k a
    using inventory_okD(4) [OF assms(1) that] assms(2)
    by (auto simp: asset_ok_def fresh_transfer_def transfer_static_ok_def)
qed (use assms(2) in \<open>auto simp: fresh_transfer_def transfer_static_ok_def\<close>)

lemma reserve_step:
  assumes ok: "inventory_ok st" and fresh: "fresh_transfer st i t" and t: "transfer_status t = TrRequested"
    and st': "inv_locations st' = inv_locations st"
      "inv_transfers st' = bt_insert (transfer_id t) t (inv_transfers st)"
      "inv_assets st' = inv_assets (put_all (\<lambda>_. reserved_asset i) (map line_key (transfer_lines t)) st)"
  shows "legit_step actor st st'"
proof -
  note f = fresh_transferD [OF ok fresh]
  have step: "step_of st (set (map line_key (transfer_lines t))) (\<lambda>_. reserved_asset i) (Some t) st'"
    using st' f(3) by (intro step_of_put_all) simp_all
  have "inventory_ok st'"
  proof (rule transfer_step_ok [OF ok step f(1)])
    fix k assume "k \<in> set (map line_key (transfer_lines t))"
    then obtain a where a: "bt_get (inv_assets st) k = Some a" "asset_transfer_id a = []"
      using f(4) by fastforce
    have "stands_in_custody st (reserved_asset i a)"
      using inventory_okD(4) [OF ok a(1)] by (simp add: asset_ok_def stands_in_custody_def reserved_asset_def)
    then show "\<exists>a. bt_get (inv_assets st) k = Some a \<and> (asset_transfer_id a = i \<or> asset_transfer_id a = [])
        \<and> asset_kind (reserved_asset i a) = asset_kind a \<and> asset_ref (reserved_asset i a) = asset_ref a
        \<and> stands_in_custody st (reserved_asset i a)
        \<and> (if transfer_is_active (transfer_status t)
           then asset_transfer_id (reserved_asset i a) = i
             \<and> asset_status (reserved_asset i a) = held_status (transfer_status t)
           else asset_transfer_id (reserved_asset i a) = [])"
      using a t by (intro exI [of _ a]) (simp add: reserved_asset_def held_status_def)
  qed (use f(5) in auto)
  then show ?thesis
    by (rule legit_step_of [OF step]) (simp add: reserved_asset_def same_goods_def same_custody_def)
qed

lemma reserve_and_receive_step:
  fixes now :: int
  assumes ok: "inventory_ok st" and fresh: "fresh_transfer st i t"
    and may: "can_manage_warehouse actor (destination_warehouse t)"
  defines "st1 \<equiv> put_all (\<lambda>_. reserved_asset i) (map line_key (transfer_lines t)) st"
  shows "\<exists>st2. complete_memory_transfer st1 t actor now = (Inr (completed_transfer actor now t), st2) \<and>
    (\<forall>st'. inv_locations st' = inv_locations st2 \<longrightarrow> inv_assets st' = inv_assets st2 \<longrightarrow>
      inv_transfers st' = bt_insert i (completed_transfer actor now t) (inv_transfers st2) \<longrightarrow>
      legit_step actor st st')"
proof -
  note f = fresh_transferD [OF ok fresh]
  let ?ks = "map line_key (transfer_lines t)" and ?t' = "completed_transfer actor now t"
  obtain d where d: "find_warehouse st (destination_warehouse_id t) = Some d"
    using f(1) by (auto simp: transfer_static_ok_def)
  have d1: "find_warehouse st1 (destination_warehouse_id t) = Some d"
    using d find_warehouse_same [of st1 st] by (simp add: st1_def)
  have at1: "\<exists>a. bt_get (inv_assets st1) k = Some a \<and> asset_transfer_id a = transfer_id t
      \<and> asset_status a \<in> {''transfer_reserved'', ''in_transit''}" if k: "k \<in> line_key ` set (transfer_lines t)" for k
    using f(4) [OF k] k f(2,3) by (auto simp: st1_def put_all_get reserved_asset_def)
  let ?st2 = "put_all (\<lambda>_. received_asset t d) ?ks st1"
  have complete: "complete_memory_transfer st1 t actor now = (Inr ?t', ?st2)"
    using receive_assets_ok(2) [OF f(3) at1 d1] by (simp add: complete_memory_transfer_def)
  have "legit_step actor st st'"
    if st': "inv_locations st' = inv_locations ?st2" "inv_assets st' = inv_assets ?st2"
      "inv_transfers st' = bt_insert i ?t' (inv_transfers ?st2)" for st'
  proof (rule received_step [OF ok])
    show "step_of st (set ?ks) (\<lambda>_ a. received_asset t d (reserved_asset i a)) (Some ?t') st'"
      unfolding step_of_def using st' f(2,3)
      by (auto simp: put_all_get option.map_comp comp_def fun_eq_iff st1_def)
    show "transfer_static_ok st i ?t'" using f(1) by (simp add: transfer_static_ok_def)
    show "\<exists>a. bt_get (inv_assets st) k = Some a \<and> (asset_transfer_id a = i \<or> asset_transfer_id a = [])
        \<and> received_asset t d (reserved_asset i a) = received_asset ?t' d a" if "k \<in> set ?ks" for k
      using f(4) [of k] that by (auto simp: received_asset_def reserved_asset_def)
  qed (use d may f(5) in auto)
  then show ?thesis using complete by blast
qed

lemma created_is_fresh:
  assumes ok: "inventory_ok st" and fresh: "bt_get (inv_transfers st) i = None" "i \<noteq> []"
    and keys: "distinct (map create_selector_key (create_assets input))"
    and dest: "find_warehouse st (create_destination_id input) = Some destination"
    and ls: "map_outcome (transfer_line_for st source) (create_assets input) = Inr ls"
  shows "fresh_transfer st i (new_transfer i actor input source destination ls now)"
proof -
  note found = transfer_lines_found [OF ok ls]
  have "line_key ` set ls = create_selector_key ` set (create_assets input)"
    using found(1) by (metis set_map)
  then show ?thesis
    using found keys fresh found_warehouse(4,5) [OF ok dest]
    by (auto simp: fresh_transfer_def transfer_static_ok_def new_transfer_def)
qed

lemma create_steps:
  fixes now :: int
  assumes ok: "inventory_ok st" and fresh: "bt_get (inv_transfers st) i = None" "i \<noteq> []"
    and keys: "distinct (map create_selector_key (create_assets input))"
  shows "fails_or_steps actor st (store_create_transfer st actor i input now)"
proof (cases "bt_get (transfer_keys st) (create_key input)")
  case (Some e)
  then show ?thesis
    by (auto simp: store_create_transfer_def intro!: fails_or_steps_checked legit_refl [OF ok])
next
  case None
  have "fails_or_steps actor st
      (case reserve_assets i (create_assets input) st of
         (Inl e, st) \<Rightarrow> (Inl e, st)
       | (Inr _, st) \<Rightarrow>
           let t = new_transfer i actor input source destination ls now in
           (case (if manages_transfer_internally actor (location_name source) (location_name destination)
                  then complete_memory_transfer st t actor now else (Inr t, st)) of
              (Inl e, st) \<Rightarrow> (Inl e, st)
            | (Inr t, st) \<Rightarrow>
                (Inr t, save_transfer t
                  (st \<lparr> transfer_keys := bt_insert (create_key input) (transfer_id t) (transfer_keys st) \<rparr>))))"
    if dest: "find_warehouse st (create_destination_id input) = Some destination"
      and ls: "map_outcome (transfer_line_for st source) (create_assets input) = Inr ls"
    for source destination ls
  proof -
    define t where "t = new_transfer i actor input source destination ls now"
    have t: "transfer_id t = i" "transfer_lines t = ls" "transfer_status t = TrRequested"
      "destination_warehouse t = location_name destination" by (simp_all add: t_def new_transfer_def)
    note new = created_is_fresh [OF ok fresh keys dest ls, of actor now, folded t_def]
    have reserved: "reserve_assets i (create_assets input) st =
        (Inr (), put_all (\<lambda>_. reserved_asset i) (map line_key (transfer_lines t)) st)"
      unfolding t(2) transfer_lines_found(1) [OF ok ls] reserved_asset_def
      using keys transfer_lines_found(2) [OF ok ls] by (intro reserve_assets_ok) fastforce+
    show ?thesis
    proof (cases "manages_transfer_internally actor (location_name source) (location_name destination)")
      case True
      then have may: "can_manage_warehouse actor (destination_warehouse t)"
        by (simp add: t(4) manages_transfer_internally_def is_assigned_to_warehouse_def can_manage_warehouse_def)
      show ?thesis
        using True reserved reserve_and_receive_step [OF ok new may, of now] t(1)
        by (auto simp: Let_def save_transfer_def simp flip: t_def)
    next
      case False
      then show ?thesis
        using reserved t(1) reserve_step [OF ok new t(3)]
        by (simp add: Let_def save_transfer_def flip: t_def)
    qed
  qed
  then show ?thesis
    using None unfolding store_create_transfer_def warehouse_location_def
    by (auto intro!: fails_or_steps_checked)
qed

section \<open>Acting on a transfer\<close>

text \<open>An active transfer of the store holds its assets and nothing else is held for it.\<close>

lemma active_transferD:
  assumes "inventory_ok st" "bt_get (inv_transfers st) i = Some t" "transfer_is_active (transfer_status t)"
  shows "transfer_static_ok st i t" "transfer_id t = i" "distinct (map line_key (transfer_lines t))"
    "\<And>k. k \<in> line_key ` set (transfer_lines t) \<Longrightarrow> \<exists>a. bt_get (inv_assets st) k = Some a
      \<and> asset_transfer_id a = i \<and> asset_status a = held_status (transfer_status t) \<and> asset_ok st k a"
    "\<And>k a. bt_get (inv_assets st) k = Some a \<Longrightarrow> asset_transfer_id a = i \<Longrightarrow> k \<in> line_key ` set (transfer_lines t)"
proof -
  have t: "transfer_ok st i t" using inventory_okD(5) [OF assms(1,2)] .
  then show s: "transfer_static_ok st i t" by (simp add: transfer_ok_def)
  then show "transfer_id t = i" "distinct (map line_key (transfer_lines t))"
    by (simp_all add: transfer_static_ok_def)
  show "\<exists>a. bt_get (inv_assets st) k = Some a \<and> asset_transfer_id a = i
      \<and> asset_status a = held_status (transfer_status t) \<and> asset_ok st k a"
    if "k \<in> line_key ` set (transfer_lines t)" for k
    using t assms(3) that inventory_okD(4) [OF assms(1)] by (fastforce simp: transfer_ok_def holds_lines_def)
  show "k \<in> line_key ` set (transfer_lines t)"
    if a: "bt_get (inv_assets st) k = Some a" "asset_transfer_id a = i" for k a
    using inventory_okD(4) [OF assms(1) a(1)] a(2) assms(2) s
    by (auto simp: asset_ok_def transfer_static_ok_def)
qed

lemma held_in_transfer: "held_status s \<in> {''transfer_reserved'', ''in_transit''}"
  by (simp add: held_status_def)

text \<open>The status of the transfer changes and its assets by a change that keeps them where they are.\<close>

lemma action_step:
  assumes ok: "inventory_ok st" and t: "bt_get (inv_transfers st) i = Some t" "transfer_is_active (transfer_status t)"
    and t': "transfer_id t' = i" "transfer_lines t' = transfer_lines t"
      "destination_warehouse_id t' = destination_warehouse_id t"
    and g: "\<And>a. same_goods a (g a) \<and> same_custody a (g a) \<and> physical_location (g a) = physical_location a"
      "\<And>a. asset_transfer_id a = i \<Longrightarrow> asset_status a = held_status (transfer_status t) \<Longrightarrow>
        (if transfer_is_active (transfer_status t')
         then asset_transfer_id (g a) = i \<and> asset_status (g a) = held_status (transfer_status t')
         else asset_transfer_id (g a) = [])"
    and st': "inv_locations st' = inv_locations st" "inv_transfers st' = bt_insert i t' (inv_transfers st)"
      "inv_assets st' = inv_assets (put_all (\<lambda>_. g) (map line_key (transfer_lines t)) st)"
  shows "legit_step actor st st'"
proof -
  note d = active_transferD [OF ok t]
  have step: "step_of st (set (map line_key (transfer_lines t))) (\<lambda>_. g) (Some t') st'"
    using st' d(3) t'(1) by (intro step_of_put_all) simp_all
  have "inventory_ok st'"
  proof (rule transfer_step_ok [OF ok step])
    show "transfer_static_ok st i t'" using d(1) t' by (simp add: transfer_static_ok_def)
    fix k assume "k \<in> set (map line_key (transfer_lines t))"
    then obtain a where a: "bt_get (inv_assets st) k = Some a" "asset_transfer_id a = i"
      "asset_status a = held_status (transfer_status t)" "asset_ok st k a" using d(4) [of k] by auto
    have "stands_in_custody st (g a)"
      using a(4) g(1) [of a] by (simp add: asset_ok_def stands_in_custody_def same_custody_def)
    then show "\<exists>a. bt_get (inv_assets st) k = Some a \<and> (asset_transfer_id a = i \<or> asset_transfer_id a = [])
        \<and> asset_kind (g a) = asset_kind a \<and> asset_ref (g a) = asset_ref a \<and> stands_in_custody st (g a)
        \<and> (if transfer_is_active (transfer_status t')
           then asset_transfer_id (g a) = i \<and> asset_status (g a) = held_status (transfer_status t')
           else asset_transfer_id (g a) = [])"
      using a g(1) [of a] g(2) [OF a(2,3)] by (intro exI [of _ a]) (auto simp: same_goods_def)
  qed (use d(5) t'(2) in auto)
  then show ?thesis by (rule legit_step_of [OF step]) (use g(1) in blast)
qed

lemma receive_step:
  assumes ok: "inventory_ok st" and t: "bt_get (inv_transfers st) i = Some t" "transfer_is_active (transfer_status t)"
    and t0: "transfer_id t0 = i" "transfer_lines t0 = transfer_lines t"
      "destination_warehouse_id t0 = destination_warehouse_id t" "destination_warehouse t0 = destination_warehouse t"
    and t': "transfer_id t' = i" "transfer_lines t' = transfer_lines t" "transfer_status t' = TrReceived"
      "destination_warehouse_id t' = destination_warehouse_id t" "destination_warehouse t' = destination_warehouse t"
    and may: "can_manage_warehouse actor (destination_warehouse t)"
  shows "\<exists>st2. receive_assets st t0 = (Inr (), st2) \<and>
    (\<forall>st'. inv_locations st' = inv_locations st2 \<longrightarrow> inv_assets st' = inv_assets st2 \<longrightarrow>
      inv_transfers st' = bt_insert i t' (inv_transfers st2) \<longrightarrow> legit_step actor st st')"
proof -
  note d = active_transferD [OF ok t]
  obtain l where l: "find_warehouse st (destination_warehouse_id t) = Some l"
    using d(1) by (auto simp: transfer_static_ok_def)
  let ?ks = "map line_key (transfer_lines t)"
  have "receive_assets st t0 = (Inr (), put_all (\<lambda>_. received_asset t0 l) (map line_key (transfer_lines t0)) st)"
  proof (rule receive_assets_ok(2))
    show "\<exists>a. bt_get (inv_assets st) k = Some a \<and> asset_transfer_id a = transfer_id t0
        \<and> asset_status a \<in> {''transfer_reserved'', ''in_transit''}" if "k \<in> line_key ` set (transfer_lines t0)" for k
      using d(4) [of k] that t0 held_in_transfer by metis
  qed (use d(3) l t0 in simp_all)
  moreover have "received_asset t0 l = received_asset t' l"
    using t0 t' by (simp add: received_asset_def fun_eq_iff)
  moreover have "legit_step actor st st'"
    if st': "inv_locations st' = inv_locations st" "inv_transfers st' = bt_insert i t' (inv_transfers st)"
      "inv_assets st' = inv_assets (put_all (\<lambda>_. received_asset t' l) ?ks st)" for st'
  proof (rule received_step [OF ok])
    show "step_of st (set ?ks) (\<lambda>_. received_asset t' l) (Some t') st'"
      using st' d(3) t'(1) by (intro step_of_put_all) simp_all
    show "transfer_static_ok st i t'" using d(1) t' by (simp add: transfer_static_ok_def)
    show "\<exists>a. bt_get (inv_assets st) k = Some a \<and> (asset_transfer_id a = i \<or> asset_transfer_id a = [])
        \<and> received_asset t' l a = received_asset t' l a" if "k \<in> set ?ks" for k
      using d(4) [of k] that by auto
  qed (use l t' may d(5) in auto)
  ultimately show ?thesis using t0(2) by simp
qed

lemma ensured:
  assumes ok: "inventory_ok st" and t: "bt_get (inv_transfers st) i = Some t" "transfer_is_active (transfer_status t)"
    and t0: "transfer_id t0 = i" "transfer_lines t0 = transfer_lines t"
  shows "ensure_memory_transfer_assets st t0 = Inr ()"
proof -
  have "ensure_line st i l = Inr ()" if "l \<in> set (transfer_lines t)" for l
    using active_transferD(4) [OF ok t, of "line_key l"] that held_in_transfer [of "transfer_status t"]
    by (auto simp: ensure_line_def)
  then show ?thesis using t0 by (simp add: ensure_memory_transfer_assets_def each_outcome_Inr)
qed

text \<open>What a successful action does to the transfer, and that the step it makes is legitimate.\<close>

definition action_made ::
  "inventory_actor \<Rightarrow> memory_inventory_state \<Rightarrow> string \<Rightarrow> inventory_transfer_status list \<Rightarrow> inventory_transfer inv_step
   \<Rightarrow> bool" where
  "action_made actor st i statuses r \<longleftrightarrow>
     (case r of
        (Inl _, st1) \<Rightarrow> st1 = st
      | (Inr t', st1) \<Rightarrow> transfer_id t' = i \<and> transfer_status t' \<in> set statuses \<and>
          (\<forall>st'. inv_locations st' = inv_locations st1 \<longrightarrow> inv_assets st' = inv_assets st1 \<longrightarrow>
            inv_transfers st' = bt_insert i t' (inv_transfers st1) \<longrightarrow> legit_step actor st st'))"

lemma complete_made:
  fixes now :: int
  assumes ok: "inventory_ok st" and t: "bt_get (inv_transfers st) i = Some t" "transfer_is_active (transfer_status t)"
    and t0: "transfer_id t0 = i" "transfer_lines t0 = transfer_lines t"
      "destination_warehouse_id t0 = destination_warehouse_id t" "destination_warehouse t0 = destination_warehouse t"
    and may: "can_manage_warehouse actor (destination_warehouse t)"
  shows "action_made actor st i [TrReceived] (complete_memory_transfer st t0 actor now)"
  using receive_step [OF ok t t0, of "completed_transfer actor now t0" actor] t0 may
  by (auto simp: action_made_def complete_memory_transfer_def)

lemma unchanged_made:
  assumes ok: "inventory_ok st" and t: "bt_get (inv_transfers st) i = Some t" "transfer_is_active (transfer_status t)"
    and t': "transfer_id t' = i" "transfer_lines t' = transfer_lines t"
      "destination_warehouse_id t' = destination_warehouse_id t"
    and g: "\<And>a. same_goods a (g a) \<and> same_custody a (g a) \<and> physical_location (g a) = physical_location a"
      "\<And>a. asset_transfer_id a = i \<Longrightarrow> asset_status a = held_status (transfer_status t) \<Longrightarrow>
        (if transfer_is_active (transfer_status t')
         then asset_transfer_id (g a) = i \<and> asset_status (g a) = held_status (transfer_status t')
         else asset_transfer_id (g a) = [])"
    and st1: "inv_locations st1 = inv_locations st" "inv_transfers st1 = inv_transfers st"
      "inv_assets st1 = inv_assets (put_all (\<lambda>_. g) (map line_key (transfer_lines t)) st)"
  shows "action_made actor st i [transfer_status t'] (Inr t', st1)"
proof -
  have "legit_step actor st st'"
    if "inv_locations st' = inv_locations st1" "inv_assets st' = inv_assets st1"
      "inv_transfers st' = bt_insert i t' (inv_transfers st1)" for st'
    using that st1 by (intro action_step [OF ok t t' g]) simp_all
  then show ?thesis using t'(1) by (simp add: action_made_def)
qed

definition freed_asset :: "inventory_asset \<Rightarrow> inventory_asset" where
  "freed_asset a = a \<lparr> asset_transfer_id := [], asset_status := ''available'' \<rparr>"

lemma release_is:
  assumes ok: "inventory_ok st" and t: "bt_get (inv_transfers st) i = Some t" "transfer_is_active (transfer_status t)"
    and "transfer_id t' = i" "transfer_lines t' = transfer_lines t"
  shows "release_memory_assets st t' = put_all (\<lambda>_. freed_asset) (map line_key (transfer_lines t)) st"
  unfolding release_memory_assets_def assms(4,5) freed_asset_def
proof (rule release_lines_ok)
  show "\<exists>a. bt_get (inv_assets st) (line_key l) = Some a \<and> asset_transfer_id a = i"
    if "l \<in> set (transfer_lines t)" for l
    using active_transferD(4) [OF ok t, of "line_key l"] that by auto
qed (use active_transferD(3) [OF ok t] in simp)

lemma internal_manages:
  "manages_transfer_internally actor s d \<Longrightarrow> can_manage_warehouse actor d"
  by (simp add: manages_transfer_internally_def is_assigned_to_warehouse_def can_manage_warehouse_def)

text \<open>The statuses an action leads to.\<close>

fun action_targets :: "inventory_transfer_action_kind \<Rightarrow> inventory_transfer_status list" where
  "action_targets TaApprove = [TrApproved, TrReceived]"
| "action_targets TaReject = [TrRejected]"
| "action_targets TaDispatch = [TrInTransit, TrReceived]"
| "action_targets TaReceive = [TrReceived]"
| "action_targets TaCancel = [TrCancelled]"

lemma action_made_fail [simp]: "action_made actor st i ss (fail_with e st)"
  by (simp add: action_made_def fail_with_def)

lemma action_made_first: "action_made actor st i [a] r \<Longrightarrow> action_made actor st i [a, b] r"
  by (auto simp: action_made_def split: sum.splits)

lemma action_made_second: "action_made actor st i [b] r \<Longrightarrow> action_made actor st i [a, b] r"
  by (auto simp: action_made_def split: sum.splits)

lemma put_all_same:
  assumes "bt_wf (inv_assets st)" "distinct ks"
  shows "inv_assets (put_all (\<lambda>_ a. a) ks st) = inv_assets st"
  using assms by (intro bt_eqI) (auto simp: put_all_get option.map_ident)

lemma apply_action_made:
  fixes now :: int
  assumes ok: "inventory_ok st" and t: "bt_get (inv_transfers st) i = Some t"
    and auth: "action_authorized actor t action"
    and internal: "internal \<longleftrightarrow> manages_transfer_internally actor (source_warehouse t) (destination_warehouse t)"
  shows "action_made actor st i (action_targets action) (apply_transfer_action st actor t now internal action)"
proof (cases "transfer_is_active (transfer_status t)")
  case False
  then have "transfer_status t \<in> {TrReceived, TrRejected, TrCancelled}" by (cases "transfer_status t") simp_all
  then show ?thesis by (cases action) (auto simp: action_made_def fail_with_def)
next
  case active: True
  note d = active_transferD [OF ok t active]
  have wf: "bt_wf (inv_assets st)" using inventory_okD(2) [OF ok] .
  have stay: "action_made actor st i [transfer_status t'] (Inr t', st)"
    if "transfer_id t' = i" "transfer_lines t' = transfer_lines t"
      "destination_warehouse_id t' = destination_warehouse_id t" "transfer_is_active (transfer_status t')"
      "held_status (transfer_status t') = held_status (transfer_status t)" for t'
    using that put_all_same [OF wf d(3)]
    by (intro unchanged_made [OF ok t active, where g = "\<lambda>a. a"]) simp_all
  have release: "action_made actor st i [transfer_status t'] (Inr t', release_memory_assets st t')"
    if t': "transfer_id t' = i" "transfer_lines t' = transfer_lines t"
      "destination_warehouse_id t' = destination_warehouse_id t" "\<not> transfer_is_active (transfer_status t')" for t'
    using that release_is [OF ok t active t'(1,2)]
    by (intro unchanged_made [OF ok t active, where g = freed_asset])
      (simp_all add: freed_asset_def same_goods_def same_custody_def)
  have transit: "action_made actor st i [TrInTransit] (Inr t', mark_in_transit (transfer_lines t') st)"
    if t': "transfer_id t' = i" "transfer_lines t' = transfer_lines t"
      "destination_warehouse_id t' = destination_warehouse_id t" "transfer_status t' = TrInTransit" for t'
    using unchanged_made [OF ok t active t'(1-3), where g = "\<lambda>a. a \<lparr> asset_status := ''in_transit'' \<rparr>"] t'
    by (simp add: mark_in_transit_is same_goods_def same_custody_def held_status_def)
  have complete: "action_made actor st i [TrReceived] (complete_memory_transfer st t' actor now)"
    if "transfer_id t' = i" "transfer_lines t' = transfer_lines t"
      "destination_warehouse_id t' = destination_warehouse_id t" "destination_warehouse t' = destination_warehouse t"
      "can_manage_warehouse actor (destination_warehouse t)" for t'
    using complete_made [OF ok t active that] .
  have ens: "ensure_memory_transfer_assets st t' = Inr ()"
    if "transfer_id t' = transfer_id t" "transfer_lines t' = transfer_lines t" for t'
    using ensured [OF ok t active _ that(2)] that(1) d(2) by simp
  let ?name = "principal_display_name (inv_principal actor)"
  show ?thesis
  proof (cases action)
    case TaApprove
    let ?t = "t \<lparr> transfer_status := TrApproved, approved_by_name := ?name, approved_at_unix := Some now \<rparr>"
    show ?thesis
      using TaApprove auth d(2) stay [of ?t] complete [of ?t]
      by (auto simp: ens held_status_def Let_def intro: action_made_first action_made_second)
  next
    case TaReject
    let ?t = "t \<lparr> transfer_status := TrRejected, rejected_by_name := ?name, rejected_at_unix := Some now \<rparr>"
    show ?thesis using TaReject d(2) release [of ?t] by (auto simp: ens Let_def)
  next
    case TaDispatch
    let ?t = "t \<lparr> transfer_status := TrInTransit, dispatched_by_name := ?name, dispatched_at_unix := Some now \<rparr>"
    show ?thesis
      using TaDispatch internal internal_manages d(2) transit [of ?t] complete [of ?t]
      by (auto simp: ens Let_def intro: action_made_first action_made_second)
  next
    case TaReceive
    let ?t = "t \<lparr> transfer_status := TrReceived, received_by_name := ?name, received_at_unix := Some now \<rparr>"
    show ?thesis
      using TaReceive auth d(2) receive_step [OF ok t active, of t ?t actor]
      by (auto simp: action_made_def fail_with_def)
  next
    case TaCancel
    let ?t = "t \<lparr> transfer_status := TrCancelled, cancelled_by_name := ?name, cancelled_at_unix := Some now \<rparr>"
    show ?thesis using TaCancel d(2) release [of ?t] by (auto simp: ens Let_def)
  qed
qed

lemma legit_cong:
  assumes "legit_step actor st st'" "inv_locations st'' = inv_locations st'" "inv_assets st'' = inv_assets st'"
    "inv_transfers st'' = inv_transfers st'"
  shows "legit_step actor st st''"
proof -
  have "inventory_ok st'' = inventory_ok st'"
    unfolding inventory_ok_def asset_ok_def transfer_ok_def holds_lines_def
      stands_same [OF assms(2)] static_same [OF assms(2)] assms(2-4) ..
  then show ?thesis
    using assms(1) unfolding legit_step_def received_by_def assms(2-4) by simp
qed

lemma action_steps:
  fixes now :: int
  assumes ok: "inventory_ok st"
  shows "fails_or_steps actor st (store_transfer_action st actor i action input now)"
proof -
  have "fails_or_steps actor st
      (case apply_transfer_action st actor t now
          (manages_transfer_internally actor (source_warehouse t) (destination_warehouse t)) action of
         (Inl e, st) \<Rightarrow> (Inl e, st)
       | (Inr t, st) \<Rightarrow> (Inr t, note_action (action_key input) i action (save_transfer t st)))"
    if t: "bt_get (inv_transfers st) i = Some t" and auth: "action_authorized actor t action" for t
    using apply_action_made [OF ok t auth refl, of now]
    by (auto simp: action_made_def note_action_def save_transfer_def split: prod.split sum.split)
  moreover have "legit_step actor st (note_action (action_key input) i action st)"
    by (rule legit_cong [OF legit_refl [OF ok]]) (simp_all add: note_action_def)
  ultimately show ?thesis
    unfolding store_transfer_action_def
    by (auto intro!: fails_or_steps_checked legit_refl [OF ok] split: option.split)
qed

section \<open>Runs\<close>

datatype inventory_request =
    ReqRelocate inventory_relocation_create
  | ReqRelocateBatch inventory_relocation_batch_create
  | ReqReturnBatch inventory_return_batch_create
  | ReqCreate string inventory_transfer_create
  | ReqAction string inventory_transfer_action_kind inventory_transfer_action

definition answer :: "'a inv_step \<Rightarrow> unit inv_step" where
  "answer r = (case fst r of Inl e \<Rightarrow> (Inl e, snd r) | Inr _ \<Rightarrow> (Inr (), snd r))"

fun serve ::
  "inventory_actor \<Rightarrow> int \<Rightarrow> inventory_request \<Rightarrow> memory_inventory_state \<Rightarrow> unit inv_step" where
  "serve actor now (ReqRelocate input) st = answer (relocate st actor input)"
| "serve actor now (ReqRelocateBatch input) st = answer (relocate_batch st actor input)"
| "serve actor now (ReqReturnBatch input) st = answer (return_to_warehouses_batch st actor input)"
| "serve actor now (ReqCreate i input) st = answer (create_transfer st actor i input now)"
| "serve actor now (ReqAction i action input) st = answer (transfer_action st actor i action input now)"

text \<open>The identity drawn for a new transfer is not empty and not in use.\<close>

fun fresh_request :: "memory_inventory_state \<Rightarrow> inventory_request \<Rightarrow> bool" where
  "fresh_request st (ReqCreate i _) \<longleftrightarrow> bt_get (inv_transfers st) i = None \<and> i \<noteq> []"
| "fresh_request st _ \<longleftrightarrow> True"

lemma normalized_create_keys:
  assumes "normalize_asset_selectors assets = Inr ss"
  shows "distinct (map create_selector_key ss)"
proof -
  have "map create_selector_key ss = map selector_key ss" using normalized_selectors(2) [OF assms] by simp
  then show ?thesis using normalized_selectors(1) [OF assms] by (simp only:)
qed

lemma answer_steps: "fails_or_steps actor st (answer r) \<longleftrightarrow> fails_or_steps actor st r"
  by (auto simp: answer_def fails_or_steps_def split: sum.split)

lemma serve_steps:
  assumes ok: "inventory_ok st" and fresh: "fresh_request st req"
  shows "fails_or_steps actor st (serve actor now req st)"
proof (cases req)
  case (ReqRelocate input)
  then show ?thesis
    using relocate_steps [OF ok] by (simp add: answer_steps relocate_def fails_or_steps_checked)
next
  case (ReqRelocateBatch input)
  then show ?thesis
    using relocate_batch_steps [OF ok] normalized_selectors(1)
    by (auto simp: answer_steps relocate_batch_def normalize_relocation_batch_def bind_outcome_eq_Inr
        intro!: fails_or_steps_checked)
next
  case (ReqReturnBatch input)
  then show ?thesis
    using return_batch_steps [OF ok] normalized_selectors(1)
    by (auto simp: answer_steps return_to_warehouses_batch_def normalize_return_batch_def bind_outcome_eq_Inr
        intro!: fails_or_steps_checked)
next
  case (ReqCreate i input)
  then show ?thesis
    using create_steps [OF ok] fresh normalized_create_keys
    by (auto simp: answer_steps create_transfer_def normalize_transfer_create_def bind_outcome_eq_Inr
        intro!: fails_or_steps_checked split: if_splits)
next
  case (ReqAction i action input)
  then show ?thesis
    using action_steps [OF ok]
    by (auto simp: answer_steps transfer_action_def intro!: fails_or_steps_checked)
qed

text \<open>A store before any transfer: assets filed by kind and reference, in custody where they stand.\<close>

definition inventory_start :: "memory_inventory_state \<Rightarrow> bool" where
  "inventory_start st \<longleftrightarrow>
     bt_wf (inv_locations st) \<and> bt_wf (inv_assets st) \<and> inv_transfers st = [] \<and>
     list_all (\<lambda>(i, l). location_id l = i) (inv_locations st) \<and>
     list_all (\<lambda>(k, a). k = (asset_kind a, to_ascii_lowercase (asset_ref a)) \<and> asset_transfer_id a = []
       \<and> (place_kind (physical_location a) = AtWarehouse \<longrightarrow>
          (case bt_get (inv_locations st) (place_id (physical_location a)) of
             None \<Rightarrow> False
           | Some l \<Rightarrow> location_kind l = AtWarehouse
               \<and> eq_ignore_ascii_case (location_warehouse_id l) (custody_warehouse_id a)))) (inv_assets st)"

inductive inventory_run :: "memory_inventory_state \<Rightarrow> memory_inventory_state \<Rightarrow> bool" for st where
  run_start: "inventory_run st st"
| run_step: "\<lbrakk> inventory_run st st1; fresh_request st1 req; serve actor now req st1 = (r, st2) \<rbrakk>
    \<Longrightarrow> inventory_run st st2"

lemma start_ok:
  assumes "inventory_start st"
  shows "inventory_ok st"
proof (rule inventory_okI)
  show "bt_wf (inv_locations st)" "bt_wf (inv_assets st)" using assms by (simp_all add: inventory_start_def)
  show "location_id l = i" if "bt_get (inv_locations st) i = Some l" for i l
    using assms map_of_SomeD [OF that] by (auto simp: inventory_start_def list_all_iff)
  show "asset_ok st k a" if "bt_get (inv_assets st) k = Some a" for k a
    using assms map_of_SomeD [OF that]
    by (auto simp: inventory_start_def list_all_iff asset_ok_def stands_in_custody_def split: option.splits)
  show "transfer_ok st i t" if "bt_get (inv_transfers st) i = Some t" for i t
    using assms that by (simp add: inventory_start_def)
qed

lemma run_ok:
  assumes "inventory_run st st'" "inventory_start st"
  shows "inventory_ok st'"
  using assms
proof (induction rule: inventory_run.induct)
  case run_start
  then show ?case by (rule start_ok)
next
  case (run_step st1 req actor now r st2)
  then have "fails_or_steps actor st1 (r, st2)" using serve_steps by metis
  then show ?case using run_step by (cases r) (auto simp: legit_step_def)
qed

end
