(* ===== verification/Inventory_Runs.thy ===== *)
theory Inventory_Runs
  imports Inventory_Custody
begin

text \<open>
  What the inventory service guarantees over any sequence of requests: goods are held by at most one
  transfer, stand where their custody is, change hands only by receipt, a failed request leaves no
  trace, and a transfer that is under way can always be brought to its end.
\<close>

section \<open>Bringing a transfer to its end\<close>

text \<open>The goods of a received transfer, free again and at home in the destination.\<close>

definition delivered :: "memory_inventory_state \<Rightarrow> inventory_transfer \<Rightarrow> bool" where
  "delivered st t \<longleftrightarrow>
     transfer_status t = TrReceived \<and>
     (\<forall>k\<in>line_key ` set (transfer_lines t). \<exists>a. bt_get (inv_assets st) k = Some a
       \<and> asset_transfer_id a = [] \<and> asset_status a = ''available''
       \<and> custody_warehouse_id a = destination_warehouse_id t \<and> custody_warehouse a = destination_warehouse t)"

text \<open>A transfer with the lines and the destination of \<open>t0\<close>, at one of the statuses or already delivered.\<close>

definition on_its_way ::
  "memory_inventory_state \<Rightarrow> string \<Rightarrow> inventory_transfer \<Rightarrow> inventory_transfer_status list \<Rightarrow> bool" where
  "on_its_way st i t0 ss \<longleftrightarrow>
     (\<exists>t. bt_get (inv_transfers st) i = Some t \<and> transfer_lines t = transfer_lines t0
       \<and> destination_warehouse_id t = destination_warehouse_id t0 \<and> destination_warehouse t = destination_warehouse t0
       \<and> (transfer_status t \<in> set ss \<or> delivered st t))"

fun next_statuses :: "inventory_transfer_action_kind \<Rightarrow> inventory_transfer_status list" where
  "next_statuses TaApprove = [TrApproved, TrInTransit]"
| "next_statuses TaDispatch = [TrInTransit]"
| "next_statuses _ = []"

fun ready_statuses :: "inventory_transfer_action_kind \<Rightarrow> inventory_transfer_status list" where
  "ready_statuses TaApprove = [TrRequested, TrApproved, TrInTransit]"
| "ready_statuses TaDispatch = [TrApproved, TrInTransit]"
| "ready_statuses TaReceive = [TrInTransit]"
| "ready_statuses _ = []"

lemma receive_delivers:
  assumes ok: "inventory_ok st" and t: "bt_get (inv_transfers st) i = Some t" "transfer_is_active (transfer_status t)"
    and t0: "transfer_id t0 = i" "transfer_lines t0 = transfer_lines t"
      "destination_warehouse_id t0 = destination_warehouse_id t" "destination_warehouse t0 = destination_warehouse t"
  shows "\<exists>st1. receive_assets st t0 = (Inr (), st1) \<and> action_keys st1 = action_keys st
    \<and> inv_transfers st1 = inv_transfers st \<and>
    (\<forall>st' t'. inv_assets st' = inv_assets st1 \<longrightarrow> transfer_lines t' = transfer_lines t \<longrightarrow>
      destination_warehouse_id t' = destination_warehouse_id t \<longrightarrow> destination_warehouse t' = destination_warehouse t \<longrightarrow>
      transfer_status t' = TrReceived \<longrightarrow> delivered st' t')"
proof -
  note d = active_transferD [OF ok t]
  obtain l where l: "find_warehouse st (destination_warehouse_id t) = Some l"
    using d(1) by (auto simp: transfer_static_ok_def)
  let ?st1 = "put_all (\<lambda>_. received_asset t0 l) (map line_key (transfer_lines t)) st"
  have "receive_assets st t0 = (Inr (), put_all (\<lambda>_. received_asset t0 l) (map line_key (transfer_lines t0)) st)"
  proof (rule receive_assets_ok(2))
    show "\<exists>a. bt_get (inv_assets st) k = Some a \<and> asset_transfer_id a = transfer_id t0
        \<and> asset_status a \<in> {''transfer_reserved'', ''in_transit''}" if "k \<in> line_key ` set (transfer_lines t0)" for k
      using d(4) [of k] that t0 held_in_transfer by metis
  qed (use d(3) l t0 in simp_all)
  moreover have "\<exists>a. bt_get (inv_assets ?st1) k = Some a \<and> asset_transfer_id a = [] \<and> asset_status a = ''available''
      \<and> custody_warehouse_id a = destination_warehouse_id t \<and> custody_warehouse a = destination_warehouse t"
    if "k \<in> line_key ` set (transfer_lines t)" for k
    using d(4) [OF that] that t0(3,4) by (auto simp: put_all_get [OF d(3)] received_asset_def)
  moreover have "action_keys (put_all f ks s) = action_keys s" for f ks s
    by (induction ks arbitrary: s) (auto simp: put_asset_def split: option.splits)
  ultimately show ?thesis using t0(2) by (auto simp: delivered_def)
qed

text \<open>For an administrator, the next action on a transfer succeeds and takes it further.\<close>

lemma apply_moves_on:
  fixes now :: int
  assumes ok: "inventory_ok st" and t: "bt_get (inv_transfers st) i = Some t"
    and ready: "transfer_status t \<in> set (ready_statuses action)"
      "\<not> transfer_action_already_applied (transfer_status t) action"
  shows "\<exists>t' st'. apply_transfer_action st actor t now internal action = (Inr t', st')
    \<and> action_keys st' = action_keys st \<and> transfer_id t' = i \<and> transfer_lines t' = transfer_lines t
    \<and> destination_warehouse_id t' = destination_warehouse_id t \<and> destination_warehouse t' = destination_warehouse t
    \<and> (transfer_status t' \<in> set (next_statuses action) \<or> delivered st' t')"
proof -
  have active: "transfer_is_active (transfer_status t)" using ready(1) by (cases action) auto
  have i: "transfer_id t = i" using active_transferD(2) [OF ok t active] .
  have ens: "ensure_memory_transfer_assets st t' = Inr ()"
    if "transfer_id t' = i" "transfer_lines t' = transfer_lines t" for t'
    using ensured [OF ok t active that] .
  have complete: "\<exists>st'. complete_memory_transfer st t' actor now = (Inr (completed_transfer actor now t'), st')
      \<and> action_keys st' = action_keys st \<and> delivered st' (completed_transfer actor now t')"
    if t': "transfer_id t' = i" "transfer_lines t' = transfer_lines t"
      "destination_warehouse_id t' = destination_warehouse_id t" "destination_warehouse t' = destination_warehouse t" for t'
    using receive_delivers [OF ok t active t'] t' by (auto simp: complete_memory_transfer_def)
  have mark: "action_keys (mark_in_transit ls s) = action_keys s" for ls s
    by (induction ls arbitrary: s) (auto simp: put_asset_def split: option.splits)
  let ?name = "principal_display_name (inv_principal actor)"
  show ?thesis
  proof (cases action)
    case TaApprove
    let ?t = "t \<lparr> transfer_status := TrApproved, approved_by_name := ?name, approved_at_unix := Some now \<rparr>"
    show ?thesis using TaApprove ready i ens [of t] complete [of ?t] by (auto simp: Let_def)
  next
    case TaDispatch
    let ?t = "t \<lparr> transfer_status := TrInTransit, dispatched_by_name := ?name, dispatched_at_unix := Some now \<rparr>"
    show ?thesis using TaDispatch ready i ens [of ?t] complete [of ?t] mark by (auto simp: Let_def)
  next
    case TaReceive
    show ?thesis using TaReceive ready i receive_delivers [OF ok t active i refl refl refl] by auto
  qed (use ready in simp_all)
qed

lemma delivered_saved [simp]:
  "delivered (note_action key i action st) t = delivered st t"
  "delivered (save_transfer t' st) t = delivered st t"
  by (simp_all add: delivered_def note_action_def save_transfer_def)

lemma saved_transfers [simp]:
  "inv_transfers (note_action key i action st) = inv_transfers st"
  "inv_transfers (save_transfer t st) = bt_insert (transfer_id t) t (inv_transfers st)"
  by (simp_all add: note_action_def save_transfer_def)

lemma action_moves_on:
  fixes now :: int
  assumes ok: "inventory_ok st" and way: "on_its_way st i t0 (ready_statuses action)"
    and action: "action \<in> {TaApprove, TaDispatch, TaReceive}"
    and actor: "inv_is_admin actor" "principal_role_of (inv_principal actor) \<noteq> TayyorlovMasteri"
    and i: "trim i = i" and key: "trim (action_key input) = action_key input" "action_key input \<noteq> []"
      "bt_get (action_keys st) (action_key input) = None"
  shows "\<exists>st'. serve actor now (ReqAction i action input) st = (Inr (), st') \<and> inventory_ok st'
    \<and> on_its_way st' i t0 (next_statuses action)
    \<and> action_keys st' = bt_insert (action_key input) (i, action) (action_keys st)"
proof -
  obtain t where t: "bt_get (inv_transfers st) i = Some t" "transfer_lines t = transfer_lines t0"
    "destination_warehouse_id t = destination_warehouse_id t0" "destination_warehouse t = destination_warehouse t0"
    "transfer_status t \<in> set (ready_statuses action) \<or> delivered st t"
    using way by (auto simp: on_its_way_def)
  have ne: "i \<noteq> []" using inventory_okD(5) [OF ok t(1)] by (simp add: transfer_ok_def transfer_static_ok_def)
  have auth: "action_authorized actor t action" using actor(1) by (cases action) (simp_all add: can_manage_warehouse_def)
  have "\<exists>st'. serve actor now (ReqAction i action input) st = (Inr (), st') \<and> on_its_way st' i t0 (next_statuses action)
    \<and> action_keys st' = bt_insert (action_key input) (i, action) (action_keys st)"
  proof (cases "transfer_action_already_applied (transfer_status t) action")
    case True
    have "transfer_status t \<in> set (next_statuses action) \<or> delivered st t"
      using True t(5) action by (cases action; cases "transfer_status t") auto
    then have "on_its_way (note_action (action_key input) i action st) i t0 (next_statuses action)"
      using t by (simp add: on_its_way_def)
    then show ?thesis
      using True t(1) actor(2) auth ne i key
      by (simp add: transfer_action_def normalize_transfer_action_def normalize_idempotency_def required_text_def
          store_transfer_action_def answer_def note_action_def)
  next
    case False
    then have "transfer_status t \<in> set (ready_statuses action)"
      using t(5) action by (auto simp: delivered_def)
    then obtain t' st' where ap: "apply_transfer_action st actor t now
        (manages_transfer_internally actor (source_warehouse t) (destination_warehouse t)) action = (Inr t', st')"
      and t': "action_keys st' = action_keys st" "transfer_id t' = i" "transfer_lines t' = transfer_lines t"
        "destination_warehouse_id t' = destination_warehouse_id t" "destination_warehouse t' = destination_warehouse t"
        "transfer_status t' \<in> set (next_statuses action) \<or> delivered st' t'"
      using apply_moves_on [OF ok t(1) _ False, of actor now] by blast
    have "on_its_way (note_action (action_key input) i action (save_transfer t' st')) i t0 (next_statuses action)"
      using t t' by (simp add: on_its_way_def)
    then show ?thesis
      using False t(1) actor(2) auth ne i key ap t'(1)
      by (simp add: transfer_action_def normalize_transfer_action_def normalize_idempotency_def required_text_def
          store_transfer_action_def answer_def note_action_def save_transfer_def)
  qed
  moreover have "fails_or_steps actor st (serve actor now (ReqAction i action input) st)"
    by (rule serve_steps [OF ok]) simp
  ultimately show ?thesis by (auto simp: legit_step_def)
qed

text \<open>Requests one after the other, up to the first that fails.\<close>

fun serve_all ::
  "inventory_actor \<Rightarrow> int \<Rightarrow> inventory_request list \<Rightarrow> memory_inventory_state \<Rightarrow> unit inv_step" where
  "serve_all actor now [] st = (Inr (), st)"
| "serve_all actor now (r # rs) st =
     (case serve actor now r st of (Inl e, st) \<Rightarrow> (Inl e, st) | (Inr _, st) \<Rightarrow> serve_all actor now rs st)"

definition action_request :: "string \<Rightarrow> inventory_transfer_action_kind \<times> string \<Rightarrow> inventory_request" where
  "action_request i = (\<lambda>(action, key). ReqAction i action \<lparr> action_note = [], action_key = key \<rparr>)"

section \<open>A small store\<close>

text \<open>Two warehouses and a roll of film that stands in the first.\<close>

definition sample_place :: "string \<Rightarrow> string \<Rightarrow> inventory_location" where
  "sample_place i w = \<lparr> location_id = i, location_kind = AtWarehouse, location_name = w, location_warehouse_id = w,
     location_factory_id = [], location_active = True, location_apparatus = [] \<rparr>"

definition sample_roll :: inventory_asset where
  "sample_roll = \<lparr> asset_kind = RawMaterial, asset_ref = ''r1'', custody_warehouse_id = ''a'',
     custody_warehouse = ''a'', asset_item_code = ''film'', asset_item_name = [], asset_identifier = ''r1'',
     asset_qty = f64_zero, asset_uom = ''kg'', asset_status = ''available'',
     physical_location = location_ref (sample_place ''l1'' ''a''), asset_transfer_id = [], placement_version = 0 \<rparr>"

definition sample_store :: memory_inventory_state where
  "sample_store = \<lparr>
     inv_locations = [(''l1'', sample_place ''l1'' ''a''), (''l2'', sample_place ''l2'' ''b'')],
     inv_assets = [((RawMaterial, ''r1''), sample_roll)], placement_updated_by_ref = [], inv_transfers = [],
     transfer_keys = [], relocation_keys = [], delivery_receipts = [], relocation_batch_keys = [],
     return_batch_keys = [], action_keys = [] \<rparr>"

definition sample_actor :: inventory_actor where
  "sample_actor = \<lparr> inv_principal = \<lparr> principal_role_of = Admin, principal_display_name = ''A'', principal_legal_name = [],
     principal_ref = ''1'', principal_phone = [], principal_avatar_url = [] \<rparr>,
     inv_is_admin = True, inv_warehouses = [], inv_receipt = None \<rparr>"

definition sample_create :: inventory_request where
  "sample_create = ReqCreate ''t1'' \<lparr> create_source_id = ''a'', create_destination_id = ''b'',
     create_assets = [\<lparr> selector_kind = RawMaterial, selector_ref = ''R1'' \<rparr>], create_note = [], create_key = ''k1'' \<rparr>"

definition sample_under_way :: memory_inventory_state where
  "sample_under_way = snd (serve sample_actor 5 sample_create sample_store)"

lemma sample_store_start:
  "inventory_start sample_store" "fresh_request sample_store sample_create"
  "fst (serve sample_actor 5 sample_create sample_store) = Inr ()"
  by code_simp+

lemma sample_store_run: "inventory_run sample_store sample_under_way"
proof (rule run_step [OF run_start sample_store_start(2)])
  show "serve sample_actor 5 sample_create sample_store = (Inr (), sample_under_way)"
    unfolding sample_under_way_def using sample_store_start(3) by (metis prod.collapse)
qed

lemma sample_store_transfer:
  "\<exists>t. bt_get (inv_transfers sample_under_way) ''t1'' = Some t
     \<and> (transfer_is_active (transfer_status t) \<and> (RawMaterial, ''r1'') \<in> line_key ` set (transfer_lines t))"
proof -
  have "case bt_get (inv_transfers sample_under_way) ''t1'' of None \<Rightarrow> False
    | Some t \<Rightarrow> transfer_is_active (transfer_status t) \<and> (RawMaterial, ''r1'') \<in> line_key ` set (transfer_lines t)"
    by code_simp
  then show ?thesis by (auto split: option.splits)
qed

section \<open>Properties\<close>

text \<open>C9: In every state the inventory service reaches, an asset that is marked as held names an
  active transfer that has a line for it, an active transfer holds every asset it has a line for, in
  the status that belongs to the transfer's own, and no asset is on the lines of two active
  transfers.\<close>
theorem goods_held_once:
  assumes start: "inventory_start st" and run: "inventory_run st st'"
  shows "(\<forall>k a. bt_get (inv_assets st') k = Some a \<and> asset_transfer_id a \<noteq> [] \<longrightarrow>
      (\<exists>t. bt_get (inv_transfers st') (asset_transfer_id a) = Some t \<and> transfer_is_active (transfer_status t)
        \<and> k \<in> line_key ` set (transfer_lines t)))
    \<and> (\<forall>i t k. bt_get (inv_transfers st') i = Some t \<and> transfer_is_active (transfer_status t)
        \<and> k \<in> line_key ` set (transfer_lines t) \<longrightarrow>
      (\<exists>a. bt_get (inv_assets st') k = Some a \<and> asset_transfer_id a = i
        \<and> asset_status a = (if transfer_status t = TrInTransit then ''in_transit'' else ''transfer_reserved'')))
    \<and> (\<forall>i j t u k. bt_get (inv_transfers st') i = Some t \<and> bt_get (inv_transfers st') j = Some u
        \<and> transfer_is_active (transfer_status t) \<and> transfer_is_active (transfer_status u)
        \<and> k \<in> line_key ` set (transfer_lines t) \<and> k \<in> line_key ` set (transfer_lines u) \<longrightarrow> i = j)"
proof -
  note ok = run_ok [OF run start]
  have held: "\<exists>t. bt_get (inv_transfers st') (asset_transfer_id a) = Some t \<and> transfer_is_active (transfer_status t)
      \<and> k \<in> line_key ` set (transfer_lines t)" if "bt_get (inv_assets st') k = Some a" "asset_transfer_id a \<noteq> []" for k a
    using inventory_okD(4) [OF ok that(1)] that(2) unfolding asset_ok_def by blast
  have holds: "\<exists>a. bt_get (inv_assets st') k = Some a \<and> asset_transfer_id a = i
      \<and> asset_status a = (if transfer_status t = TrInTransit then ''in_transit'' else ''transfer_reserved'')"
    if "bt_get (inv_transfers st') i = Some t" "transfer_is_active (transfer_status t)"
      "k \<in> line_key ` set (transfer_lines t)" for i t k
    using active_transferD(4) [OF ok that] unfolding held_status_def by blast
  show ?thesis
  proof (intro conjI)
    show "\<forall>i j t u k. bt_get (inv_transfers st') i = Some t \<and> bt_get (inv_transfers st') j = Some u
        \<and> transfer_is_active (transfer_status t) \<and> transfer_is_active (transfer_status u)
        \<and> k \<in> line_key ` set (transfer_lines t) \<and> k \<in> line_key ` set (transfer_lines u) \<longrightarrow> i = j"
      using holds by (metis option.inject)
  qed (use held holds in blast)+
qed

theorem goods_held_once_witness:
  "inventory_start sample_store \<and> inventory_run sample_store sample_under_way
   \<and> bt_get (inv_transfers sample_under_way) ''t1'' \<noteq> None
   \<and> (\<exists>a. bt_get (inv_assets sample_under_way) (RawMaterial, ''r1'') = Some a \<and> asset_transfer_id a = ''t1'')"
proof -
  obtain t where t: "bt_get (inv_transfers sample_under_way) ''t1'' = Some t"
    "transfer_is_active (transfer_status t) \<and> (RawMaterial, ''r1'') \<in> line_key ` set (transfer_lines t)"
    using sample_store_transfer by blast
  show ?thesis
    using goods_held_once [OF sample_store_start(1) sample_store_run, THEN conjunct2, THEN conjunct1] sample_store_start(1) sample_store_run t
    by blast
qed

text \<open>C12: A request that the inventory service answers with an error leaves the store exactly as it
  was, whatever it had already reserved or moved when the error came up.\<close>
theorem failed_request_no_trace:
  assumes start: "inventory_start st0" and run: "inventory_run st0 st" and fresh: "fresh_request st req"
    and failed: "serve actor now req st = (Inl e, st')"
  shows "st' = st"
  using serve_steps [OF run_ok [OF run start] fresh, of actor now] failed by simp

theorem failed_request_no_trace_witness:
  "inventory_run sample_store sample_under_way \<and>
   snd (serve sample_actor 6 (ReqAction ''t1'' TaReceive \<lparr> action_note = [], action_key = ''k2'' \<rparr>) sample_under_way)
     = sample_under_way"
proof -
  have "fst (serve sample_actor 6 (ReqAction ''t1'' TaReceive \<lparr> action_note = [], action_key = ''k2'' \<rparr>) sample_under_way)
      = Inl (Err InvalidTransition)"
    by code_simp
  then have "serve sample_actor 6 (ReqAction ''t1'' TaReceive \<lparr> action_note = [], action_key = ''k2'' \<rparr>) sample_under_way
      = (Inl (Err InvalidTransition),
         snd (serve sample_actor 6 (ReqAction ''t1'' TaReceive \<lparr> action_note = [], action_key = ''k2'' \<rparr>) sample_under_way))"
    by (metis prod.collapse)
  from failed_request_no_trace [OF sample_store_start(1) sample_store_run _ this] show ?thesis using sample_store_run by simp
qed

text \<open>C10: A request never creates, loses or alters goods: the same assets are on file before and
  after, with the same item, identifier, quantity and unit.  And the custody of an asset changes only
  when a transfer that lists it is received, to that transfer's destination, for an actor who may
  manage the destination.\<close>
theorem custody_only_by_receipt:
  assumes start: "inventory_start st0" and run: "inventory_run st0 st" and fresh: "fresh_request st req"
    and served: "serve actor now req st = (r, st')"
  shows "dom (bt_get (inv_assets st')) = dom (bt_get (inv_assets st))
    \<and> (\<forall>k a b. bt_get (inv_assets st) k = Some a \<and> bt_get (inv_assets st') k = Some b \<longrightarrow>
        same_goods a b \<and>
        (same_custody a b \<or>
         (\<exists>i t. bt_get (inv_transfers st') i = Some t \<and> transfer_status t = TrReceived
            \<and> k \<in> line_key ` set (transfer_lines t)
            \<and> custody_warehouse_id b = destination_warehouse_id t \<and> custody_warehouse b = destination_warehouse t
            \<and> can_manage_warehouse actor (destination_warehouse t))))"
proof -
  note ok = run_ok [OF run start]
  have "legit_step actor st st'"
    using serve_steps [OF ok fresh, of actor now] served legit_refl [OF ok] by (cases r) simp_all
  then have step: "case bt_get (inv_assets st) k of
        None \<Rightarrow> bt_get (inv_assets st') k = None
      | Some a \<Rightarrow> \<exists>b. bt_get (inv_assets st') k = Some b \<and> same_goods a b
          \<and> (same_custody a b \<or> received_by actor st' k b)" for k
    unfolding legit_step_def by blast
  have "(bt_get (inv_assets st') k = None) = (bt_get (inv_assets st) k = None)" for k
    using step [of k] by (auto split: option.splits)
  then have "dom (bt_get (inv_assets st')) = dom (bt_get (inv_assets st))" by (simp only: dom_def)
  moreover have "same_goods a b \<and> (same_custody a b \<or> received_by actor st' k b)"
    if "bt_get (inv_assets st) k = Some a" "bt_get (inv_assets st') k = Some b" for k a b
    using step [of k] that by simp
  ultimately show ?thesis unfolding received_by_def by blast
qed

theorem custody_only_by_receipt_witness:
  "\<exists>b. bt_get (inv_assets sample_under_way) (RawMaterial, ''r1'') = Some b \<and> same_goods sample_roll b"
proof -
  have roll: "bt_get (inv_assets sample_store) (RawMaterial, ''r1'') = Some sample_roll" by code_simp
  have served: "serve sample_actor 5 sample_create sample_store = (Inr (), sample_under_way)"
    unfolding sample_under_way_def using sample_store_start(3) by (metis prod.collapse)
  note all = custody_only_by_receipt [OF sample_store_start(1) run_start sample_store_start(2) served]
  obtain b where "bt_get (inv_assets sample_under_way) (RawMaterial, ''r1'') = Some b"
    using all roll by blast
  then show ?thesis using all roll by blast
qed

text \<open>C13: Every asset of a reachable store is well formed: it is filed under its own kind and
  reference, and when it stands in a warehouse, that warehouse is a location of the store and the one
  with custody of the asset.\<close>
theorem goods_stand_in_custody:
  assumes start: "inventory_start st" and run: "inventory_run st st'" and a: "bt_get (inv_assets st') k = Some a"
  shows "k = (asset_kind a, to_ascii_lowercase (asset_ref a))
    \<and> (place_kind (physical_location a) = AtWarehouse \<longrightarrow>
       (\<exists>l. bt_get (inv_locations st') (place_id (physical_location a)) = Some l \<and> location_kind l = AtWarehouse
         \<and> eq_ignore_ascii_case (location_warehouse_id l) (custody_warehouse_id a)))"
  using inventory_okD(4) [OF run_ok [OF run start] a] by (simp add: asset_ok_def stands_in_custody_def)

theorem goods_stand_in_custody_witness:
  "bt_get (inv_assets sample_store) (RawMaterial, ''r1'') = Some sample_roll
   \<and> (RawMaterial, ''r1'') = (asset_kind sample_roll, to_ascii_lowercase (asset_ref sample_roll))"
proof -
  have roll: "bt_get (inv_assets sample_store) (RawMaterial, ''r1'') = Some sample_roll" by code_simp
  show ?thesis using goods_stand_in_custody [OF sample_store_start(1) run_start roll] roll by blast
qed

text \<open>C11: A transfer that is under way can always be brought to its end: whatever it has been
  through, the three requests approve, dispatch and receive of an administrator, under new
  idempotency keys, all succeed, and afterwards the transfer is received and every asset on its lines
  is free and in the custody of the destination.\<close>
theorem transfer_can_complete:
  fixes now :: int
  assumes start: "inventory_start st0" and run: "inventory_run st0 st"
    and t: "bt_get (inv_transfers st) i = Some t" "transfer_is_active (transfer_status t)" "trim i = i"
    and actor: "inv_is_admin actor" "principal_role_of (inv_principal actor) \<noteq> TayyorlovMasteri"
    and keys: "distinct [ka, kd, kr]"
      "\<forall>k\<in>{ka, kd, kr}. k \<noteq> [] \<and> trim k = k \<and> bt_get (action_keys st) k = None"
  shows "\<exists>st' t'. serve_all actor now (map (action_request i) [(TaApprove, ka), (TaDispatch, kd), (TaReceive, kr)]) st
      = (Inr (), st')
    \<and> bt_get (inv_transfers st') i = Some t' \<and> transfer_status t' = TrReceived
    \<and> transfer_lines t' = transfer_lines t \<and> destination_warehouse_id t' = destination_warehouse_id t
    \<and> (\<forall>k\<in>line_key ` set (transfer_lines t). \<exists>a. bt_get (inv_assets st') k = Some a
       \<and> asset_transfer_id a = [] \<and> asset_status a = ''available''
       \<and> custody_warehouse_id a = destination_warehouse_id t \<and> custody_warehouse a = destination_warehouse t)"
proof -
  note ok = run_ok [OF run start]
  have way: "on_its_way st i t (ready_statuses TaApprove)"
    using t by (cases "transfer_status t") (auto simp: on_its_way_def)
  let ?in = "\<lambda>k. \<lparr> action_note = [], action_key = k \<rparr>"
  obtain s1 where s1: "serve actor now (ReqAction i TaApprove (?in ka)) st = (Inr (), s1)" "inventory_ok s1"
    "on_its_way s1 i t (ready_statuses TaDispatch)" "action_keys s1 = bt_insert ka (i, TaApprove) (action_keys st)"
    using action_moves_on [OF ok way _ actor t(3), of "?in ka" now] keys by auto
  obtain s2 where s2: "serve actor now (ReqAction i TaDispatch (?in kd)) s1 = (Inr (), s2)" "inventory_ok s2"
    "on_its_way s2 i t (ready_statuses TaReceive)" "action_keys s2 = bt_insert kd (i, TaDispatch) (action_keys s1)"
    using action_moves_on [OF s1(2,3) _ actor t(3), of "?in kd" now] keys s1(4) by auto
  obtain s3 where s3: "serve actor now (ReqAction i TaReceive (?in kr)) s2 = (Inr (), s3)"
    "on_its_way s3 i t []"
    using action_moves_on [OF s2(2,3) _ actor t(3), of "?in kr" now] keys s1(4) s2(4) by auto
  have "serve_all actor now (map (action_request i) [(TaApprove, ka), (TaDispatch, kd), (TaReceive, kr)]) st
      = (Inr (), s3)"
    using s1(1) s2(1) s3(1) by (simp add: action_request_def del: serve.simps)
  then show ?thesis using s3(2) by (auto simp: on_its_way_def delivered_def)
qed

theorem transfer_can_complete_witness:
  "\<exists>st' t'. serve_all sample_actor 9
      (map (action_request ''t1'') [(TaApprove, ''a1''), (TaDispatch, ''d1''), (TaReceive, ''r1'')]) sample_under_way
      = (Inr (), st')
    \<and> bt_get (inv_transfers st') ''t1'' = Some t' \<and> transfer_status t' = TrReceived"
proof -
  obtain t where t: "bt_get (inv_transfers sample_under_way) ''t1'' = Some t"
    "transfer_is_active (transfer_status t) \<and> (RawMaterial, ''r1'') \<in> line_key ` set (transfer_lines t)"
    using sample_store_transfer by blast
  have "trim ''t1'' = ''t1''" "inv_is_admin sample_actor"
    "principal_role_of (inv_principal sample_actor) \<noteq> TayyorlovMasteri" "distinct [''a1'', ''d1'', ''r1'']"
    "\<forall>k\<in>{''a1'', ''d1'', ''r1''}. k \<noteq> [] \<and> trim k = k \<and> bt_get (action_keys sample_under_way) k = None"
    by code_simp+
  from transfer_can_complete [OF sample_store_start(1) sample_store_run t(1) conjunct1 [OF t(2)] this] show ?thesis by blast
qed

end
