(* ===== verification/Session_Manager.thy ===== *)
theory Session_Manager
  imports Principals Erp_Text
begin

text \<open>
  Sessions (\<^verbatim>\<open>core/session/models.rs\<close>, \<^verbatim>\<open>manager.rs\<close>, \<^verbatim>\<open>access.rs\<close>, \<^verbatim>\<open>store.rs\<close>): the record of a
  session and the manager, which keeps a cache in front of a store.

  The operations of the manager are asynchronous, and between two awaits other requests run.  An
  operation is therefore a value of \<open>session_code\<close>: what it awaits next (the clock, the validator,
  the cache, the store) and how it goes on with the answer.  \<open>micro\<close> makes one such access, which is
  atomic in the program because it happens under the lock of the cache or of the store; \<open>exec\<close> runs an
  operation without interference, and \<open>sys_step\<close> runs any number of them interleaved under the
  read-write lock \<^verbatim>\<open>operations\<close>.
\<close>

section \<open>Records\<close>

datatype app_error =
    Unauthorized | InvalidConfig string string | Io string | Json string | Storage string | TimeParse string

type_synonym 'a session_result = "(app_error, 'a) outcome"

text \<open>Times are counted in nanoseconds.\<close>

record session_record =
  session_principal :: principal
  session_created_at :: "int option"
  session_updated_at :: "int option"
  session_expires_at :: "int option"

text \<open>
  The sum of a time and a duration panics when it cannot be represented; which times can is a
  parameter.  The configured number of seconds is cast to \<^verbatim>\<open>i64\<close>.
\<close>

definition session_record_new ::
  "(int \<Rightarrow> bool) \<Rightarrow> principal \<Rightarrow> int \<Rightarrow> int option \<Rightarrow> nat option \<Rightarrow> session_record session_result" where
  "session_record_new time_ok p now created ttl =
     bind_outcome
       (case ttl of
          None \<Rightarrow> Inr None
        | Some s \<Rightarrow>
            let e = now + wrap_i64 (int s) * 1000000000 in if time_ok e then Inr (Some e) else Inl Panic)
       (\<lambda>expires.
     Inr \<lparr> session_principal = p,
       session_created_at = Some (case created of None \<Rightarrow> now | Some c \<Rightarrow> c),
       session_updated_at = Some now, session_expires_at = expires \<rparr>)"

definition is_expired :: "session_record \<Rightarrow> int \<Rightarrow> bool" where
  "is_expired r now \<longleftrightarrow> (case session_expires_at r of None \<Rightarrow> False | Some e \<Rightarrow> e < now)"

definition belongs_to :: "principal_role \<Rightarrow> string \<Rightarrow> principal \<Rightarrow> bool" where
  "belongs_to role ref p \<longleftrightarrow> principal_role_of p = role \<and> trim (principal_ref p) = ref"

section \<open>The operations\<close>

datatype session_answer = AnsToken string | AnsPrincipal principal | AnsDone | AnsCount nat

datatype session_code =
    Finish "session_answer session_result"
  | ReadClock "int \<Rightarrow> session_code"
  | CheckActive principal "bool session_result \<Rightarrow> session_code"
  | NewToken "string \<Rightarrow> session_code"
  | CacheGet string "session_record option \<Rightarrow> session_code"
  | CachePut string session_record session_code
  | CacheRemove string session_code
  | CacheRetain principal_role string session_code
  | StoreGet string "session_record option session_result \<Rightarrow> session_code"
  | StoreMigrate string session_record "session_record option session_result \<Rightarrow> session_code"
  | StorePut string session_record "unit session_result \<Rightarrow> session_code"
  | StoreDelete string "unit session_result \<Rightarrow> session_code"
  | StoreDeleteFor principal_role string "nat session_result \<Rightarrow> session_code"

text \<open>The operator \<^verbatim>\<open>?\<close> on an awaited result.\<close>

definition attempt :: "'a session_result \<Rightarrow> ('a \<Rightarrow> session_code) \<Rightarrow> session_code" where
  "attempt r k = (case r of Inl e \<Rightarrow> Finish (Inl e) | Inr x \<Rightarrow> k x)"

abbreviation unauthorized :: session_code where
  "unauthorized \<equiv> Finish (Inl (Err Unauthorized))"

record session_manager =
  ttl_seconds :: "nat option"
  has_validator :: bool
  representable :: "int \<Rightarrow> bool"

definition delete_record :: "string \<Rightarrow> session_code \<Rightarrow> session_code" where
  "delete_record token k = StoreDelete token (\<lambda>r. attempt r (\<lambda>_. CacheRemove token k))"

definition delete_principal_records ::
  "principal_role \<Rightarrow> string \<Rightarrow> (nat \<Rightarrow> session_code) \<Rightarrow> session_code" where
  "delete_principal_records role ref k =
     (let ref = trim ref in
      if ref = [] then k 0
      else StoreDeleteFor role ref (\<lambda>r. attempt r (\<lambda>deleted. CacheRetain role ref (k deleted))))"

definition require_active :: "session_manager \<Rightarrow> principal \<Rightarrow> session_code \<Rightarrow> session_code" where
  "require_active m p k =
     (if has_validator m
      then CheckActive p (\<lambda>r. attempt r (\<lambda>active.
        if active then k
        else delete_principal_records (principal_role_of p) (principal_ref p) (\<lambda>_. unauthorized)))
      else k)"

definition session_create :: "session_manager \<Rightarrow> principal \<Rightarrow> session_code" where
  "session_create m p =
     require_active m p (NewToken (\<lambda>token. ReadClock (\<lambda>now.
       attempt (session_record_new (representable m) p now None (ttl_seconds m)) (\<lambda>record.
       StorePut token record (\<lambda>r. attempt r (\<lambda>_.
       CachePut token record (Finish (Inr (AnsToken token)))))))))"

definition session_get :: "session_manager \<Rightarrow> string \<Rightarrow> session_code" where
  "session_get m token =
     CacheGet token (\<lambda>cached. case cached of
       Some record \<Rightarrow>
         ReadClock (\<lambda>now.
           if is_expired record now then delete_record token unauthorized
           else require_active m (session_principal record)
             (Finish (Inr (AnsPrincipal (session_principal record)))))
     | None \<Rightarrow>
         StoreGet token (\<lambda>r. attempt r (\<lambda>found. case found of
           None \<Rightarrow> unauthorized
         | Some record \<Rightarrow>
             ReadClock (\<lambda>now.
               if is_expired record now then StoreDelete token (\<lambda>r. attempt r (\<lambda>_. unauthorized))
               else require_active m (session_principal record)
                 (CachePut token record (Finish (Inr (AnsPrincipal (session_principal record)))))))))"

definition session_delete :: "string \<Rightarrow> session_code" where
  "session_delete token = delete_record token (Finish (Inr AnsDone))"

definition session_delete_for_principal :: "principal_role \<Rightarrow> string \<Rightarrow> session_code" where
  "session_delete_for_principal role ref = delete_principal_records role ref (\<lambda>n. Finish (Inr (AnsCount n)))"

definition replace_record :: "session_manager \<Rightarrow> string \<Rightarrow> principal \<Rightarrow> session_record option \<Rightarrow> session_code" where
  "replace_record m token p existing =
     (case existing of
        None \<Rightarrow> unauthorized
      | Some existing \<Rightarrow>
          ReadClock (\<lambda>now.
            if is_expired existing now then delete_record token unauthorized
            else ReadClock (\<lambda>now.
              attempt (session_record_new (representable m) p now (session_created_at existing) (ttl_seconds m))
                (\<lambda>record.
              StorePut token record (\<lambda>r. attempt r (\<lambda>_. CachePut token record (Finish (Inr AnsDone))))))))"

definition session_update :: "session_manager \<Rightarrow> string \<Rightarrow> principal \<Rightarrow> session_code" where
  "session_update m token p =
     require_active m p (CacheGet token (\<lambda>cached. case cached of
       Some record \<Rightarrow> replace_record m token p (Some record)
     | None \<Rightarrow> StoreGet token (\<lambda>r. attempt r (replace_record m token p))))"

section \<open>The store interface and one access\<close>

text \<open>
  What a store offers.  Every operation is given the time, for stores that drop expired sessions, and
  a fault, the error with which its input or its output fails if one does.  A lookup may also find a record
  in an old place; the operation then moves it in a second access, \<open>store_migrate\<close>.
\<close>

datatype io_fault = ReadFault app_error | WriteFault app_error

record 's session_store =
  store_get :: "'s \<Rightarrow> int \<Rightarrow> io_fault option \<Rightarrow> string \<Rightarrow> (session_record option \<times> bool) session_result \<times> 's"
  store_migrate :: "'s \<Rightarrow> int \<Rightarrow> io_fault option \<Rightarrow> string \<Rightarrow> session_record \<Rightarrow> unit session_result \<times> 's"
  store_put :: "'s \<Rightarrow> int \<Rightarrow> io_fault option \<Rightarrow> string \<Rightarrow> session_record \<Rightarrow> unit session_result \<times> 's"
  store_delete :: "'s \<Rightarrow> int \<Rightarrow> io_fault option \<Rightarrow> string \<Rightarrow> unit session_result \<times> 's"
  store_delete_for :: "'s \<Rightarrow> int \<Rightarrow> io_fault option \<Rightarrow> principal_role \<Rightarrow> string \<Rightarrow> nat session_result \<times> 's"

type_synonym session_cache = "(string, session_record) btree_map"

text \<open>What the world answers to one access: the time, the validator, a random token, a fault.\<close>

record session_env =
  env_now :: int
  env_active :: "bool session_result"
  env_token :: string
  env_fault :: "io_fault option"

definition not_of :: "principal_role \<Rightarrow> string \<Rightarrow> string \<Rightarrow> session_record \<Rightarrow> bool" where
  "not_of role ref _ r \<longleftrightarrow> \<not> belongs_to role ref (session_principal r)"

definition found_record ::
  "string \<Rightarrow> (session_record option session_result \<Rightarrow> session_code)
   \<Rightarrow> (session_record option \<times> bool) session_result \<Rightarrow> session_code" where
  "found_record token k r =
     (case r of
        Inl e \<Rightarrow> k (Inl e)
      | Inr (None, _) \<Rightarrow> k (Inr None)
      | Inr (Some record, legacy) \<Rightarrow> if legacy then StoreMigrate token record k else k (Inr (Some record)))"

fun micro ::
  "'s session_store \<Rightarrow> session_env \<Rightarrow> session_code \<Rightarrow> 's \<Rightarrow> session_cache \<Rightarrow> session_code \<times> 's \<times> session_cache" where
  "micro ops env (Finish r) s c = (Finish r, s, c)"
| "micro ops env (ReadClock k) s c = (k (env_now env), s, c)"
| "micro ops env (CheckActive p k) s c = (k (env_active env), s, c)"
| "micro ops env (NewToken k) s c = (k (env_token env), s, c)"
| "micro ops env (CacheGet t k) s c = (k (bt_get c t), s, c)"
| "micro ops env (CachePut t r k) s c = (k, s, bt_insert t r c)"
| "micro ops env (CacheRemove t k) s c = (k, s, bt_remove t c)"
| "micro ops env (CacheRetain role ref k) s c = (k, s, bt_retain (not_of role ref) c)"
| "micro ops env (StoreGet t k) s c =
     (case store_get ops s (env_now env) (env_fault env) t of (r, s) \<Rightarrow> (found_record t k r, s, c))"
| "micro ops env (StoreMigrate t record k) s c =
     (case store_migrate ops s (env_now env) (env_fault env) t record of
        (r, s) \<Rightarrow> (k (bind_outcome r (\<lambda>_. Inr (Some record))), s, c))"
| "micro ops env (StorePut t record k) s c =
     (case store_put ops s (env_now env) (env_fault env) t record of (r, s) \<Rightarrow> (k r, s, c))"
| "micro ops env (StoreDelete t k) s c =
     (case store_delete ops s (env_now env) (env_fault env) t of (r, s) \<Rightarrow> (k r, s, c))"
| "micro ops env (StoreDeleteFor role ref k) s c =
     (case store_delete_for ops s (env_now env) (env_fault env) role ref of (r, s) \<Rightarrow> (k r, s, c))"

section \<open>Interleaved runs\<close>

datatype session_request =
    ReqOpen principal | ReqLookup string | ReqClose string | ReqRevoke principal_role string
  | ReqReplace string principal

datatype lock_mode = Shared | Exclusive

fun request_code :: "session_manager \<Rightarrow> session_request \<Rightarrow> session_code" where
  "request_code m (ReqOpen p) = session_create m p"
| "request_code m (ReqLookup t) = session_get m t"
| "request_code m (ReqClose t) = session_delete t"
| "request_code m (ReqRevoke role ref) = session_delete_for_principal role ref"
| "request_code m (ReqReplace t p) = session_update m t p"

fun request_lock :: "session_request \<Rightarrow> lock_mode" where
  "request_lock (ReqOpen _) = Shared"
| "request_lock (ReqLookup _) = Shared"
| "request_lock (ReqClose _) = Exclusive"
| "request_lock (ReqRevoke _ _) = Exclusive"
| "request_lock (ReqReplace _ _) = Shared"

type_synonym session_thread = "session_request \<times> session_code"

record 's session_system =
  sys_store :: 's
  sys_cache :: session_cache
  sys_threads :: "session_thread list"

text \<open>The read-write lock: readers share it, a writer has it alone.\<close>

definition may_enter :: "session_request \<Rightarrow> session_thread list \<Rightarrow> bool" where
  "may_enter req ts \<longleftrightarrow>
     (case request_lock req of
        Shared \<Rightarrow> list_all (\<lambda>(q, _). request_lock q = Shared) ts
      | Exclusive \<Rightarrow> ts = [])"

datatype session_event =
    Started session_request | Acted | Answered session_request "session_answer session_result"
  | Dropped session_request

text \<open>
  A request enters when the lock admits it, makes one access at a time, and gives its answer and the
  lock back at the end.  A request whose client goes away is dropped between two accesses.
\<close>

inductive sys_step ::
  "'s session_store \<Rightarrow> session_manager \<Rightarrow> 's session_system \<Rightarrow> session_event \<Rightarrow> 's session_system \<Rightarrow> bool"
  for ops m where
  enter: "may_enter req (sys_threads st) \<Longrightarrow>
    sys_step ops m st (Started req) (st \<lparr> sys_threads := sys_threads st @ [(req, request_code m req)] \<rparr>)"
| act: "\<lbrakk> sys_threads st = ts1 @ (req, c) # ts2; micro ops env c (sys_store st) (sys_cache st) = (c', s', k') \<rbrakk> \<Longrightarrow>
    sys_step ops m st Acted \<lparr> sys_store = s', sys_cache = k', sys_threads = ts1 @ (req, c') # ts2 \<rparr>"
| finish: "sys_threads st = ts1 @ (req, Finish r) # ts2 \<Longrightarrow>
    sys_step ops m st (Answered req r) (st \<lparr> sys_threads := ts1 @ ts2 \<rparr>)"
| drop: "sys_threads st = ts1 @ (req, c) # ts2 \<Longrightarrow>
    sys_step ops m st (Dropped req) (st \<lparr> sys_threads := ts1 @ ts2 \<rparr>)"

inductive sys_run ::
  "'s session_store \<Rightarrow> session_manager \<Rightarrow> 's session_system \<Rightarrow> session_event list \<Rightarrow> 's session_system \<Rightarrow> bool"
  for ops m where
  sys_here: "sys_run ops m st [] st"
| sys_next: "\<lbrakk> sys_step ops m st e st1; sys_run ops m st1 es st2 \<rbrakk> \<Longrightarrow> sys_run ops m st (e # es) st2"

section \<open>Runs without interference\<close>

primrec exec ::
  "'s session_store \<Rightarrow> session_env \<Rightarrow> session_code \<Rightarrow> 's \<Rightarrow> session_cache
   \<Rightarrow> session_answer session_result \<times> 's \<times> session_cache" where
  "exec ops env (Finish r) = (\<lambda>s c. (r, s, c))"
| "exec ops env (ReadClock k) = exec ops env (k (env_now env))"
| "exec ops env (CheckActive p k) = exec ops env (k (env_active env))"
| "exec ops env (NewToken k) = exec ops env (k (env_token env))"
| "exec ops env (CacheGet t k) = (\<lambda>s c. exec ops env (k (bt_get c t)) s c)"
| "exec ops env (CachePut t r k) = (\<lambda>s c. exec ops env k s (bt_insert t r c))"
| "exec ops env (CacheRemove t k) = (\<lambda>s c. exec ops env k s (bt_remove t c))"
| "exec ops env (CacheRetain role ref k) = (\<lambda>s c. exec ops env k s (bt_retain (not_of role ref) c))"
| "exec ops env (StoreGet t k) =
     (\<lambda>s c. case store_get ops s (env_now env) (env_fault env) t of
        (Inl e, s) \<Rightarrow> exec ops env (k (Inl e)) s c
      | (Inr (None, _), s) \<Rightarrow> exec ops env (k (Inr None)) s c
      | (Inr (Some record, legacy), s) \<Rightarrow>
          if legacy
          then (case store_migrate ops s (env_now env) (env_fault env) t record of
                  (r, s) \<Rightarrow> exec ops env (k (bind_outcome r (\<lambda>_. Inr (Some record)))) s c)
          else exec ops env (k (Inr (Some record))) s c)"
| "exec ops env (StoreMigrate t record k) =
     (\<lambda>s c. case store_migrate ops s (env_now env) (env_fault env) t record of
        (r, s) \<Rightarrow> exec ops env (k (bind_outcome r (\<lambda>_. Inr (Some record)))) s c)"
| "exec ops env (StorePut t record k) =
     (\<lambda>s c. case store_put ops s (env_now env) (env_fault env) t record of (r, s) \<Rightarrow> exec ops env (k r) s c)"
| "exec ops env (StoreDelete t k) =
     (\<lambda>s c. case store_delete ops s (env_now env) (env_fault env) t of (r, s) \<Rightarrow> exec ops env (k r) s c)"
| "exec ops env (StoreDeleteFor role ref k) =
     (\<lambda>s c. case store_delete_for ops s (env_now env) (env_fault env) role ref of
        (r, s) \<Rightarrow> exec ops env (k r) s c)"

text \<open>It is the iteration of single accesses.\<close>

lemma exec_micro:
  "micro ops env code s c = (code', s', c') \<Longrightarrow> exec ops env code s c = exec ops env code' s' c'"
  by (cases code) (auto simp: found_record_def split: prod.splits sum.splits option.splits)

end
