(* ===== verification/Session_Stores.thy ===== *)
theory Session_Stores
  imports Session_Manager "HOL-Library.Word"
begin

unbundle bit_operations_syntax

text \<open>
  The two stores of sessions: a map in memory that is written to a JSON file after each change
  (\<^verbatim>\<open>store/json.rs\<close>), and an LMDB database with an index by expiry (\<^verbatim>\<open>store/lmdb.rs\<close>,
  \<^verbatim>\<open>lmdb_expiry.rs\<close>, \<^verbatim>\<open>lmdb_codec.rs\<close>).  Files and databases are ordered maps.  Parameters stand
  for the digest SHA-256, for \<^verbatim>\<open>bincode\<close> and \<^verbatim>\<open>serde_json\<close>, and for the range of times.
\<close>

section \<open>The JSON store\<close>

text \<open>Without a file the store lives in memory only.\<close>

record json_session_state =
  json_loaded :: bool
  json_sessions :: "(string, session_record) btree_map"
  json_file :: "(string, session_record) btree_map option"

definition json_persistent :: "(string, session_record) btree_map \<Rightarrow> json_session_state" where
  "json_persistent file = \<lparr> json_loaded = False, json_sessions = [], json_file = Some file \<rparr>"

definition json_memory :: json_session_state where
  "json_memory = \<lparr> json_loaded = True, json_sessions = [], json_file = None \<rparr>"

fun read_fault :: "io_fault option \<Rightarrow> unit session_result" where
  "read_fault (Some (ReadFault e)) = Inl (Err e)"
| "read_fault _ = Inr ()"

fun write_fault :: "io_fault option \<Rightarrow> unit session_result" where
  "write_fault (Some (WriteFault e)) = Inl (Err e)"
| "write_fault _ = Inr ()"

definition load_if_needed ::
  "json_session_state \<Rightarrow> int \<Rightarrow> io_fault option \<Rightarrow> unit session_result \<times> json_session_state" where
  "load_if_needed s now fault =
     (if json_loaded s then (Inr (), s)
      else
        case (case json_file s of None \<Rightarrow> Inr [] | Some f \<Rightarrow> bind_outcome (read_fault fault) (\<lambda>_. Inr f)) of
          Inl e \<Rightarrow> (Inl e, s)
        | Inr f \<Rightarrow> (Inr (), s \<lparr> json_loaded := True, json_sessions := bt_retain (\<lambda>_ r. \<not> is_expired r now) f \<rparr>))"

definition json_save ::
  "json_session_state \<Rightarrow> io_fault option \<Rightarrow> unit session_result \<times> json_session_state" where
  "json_save s fault =
     (case json_file s of
        None \<Rightarrow> (Inr (), s)
      | Some _ \<Rightarrow>
          (case write_fault fault of
             Inl e \<Rightarrow> (Inl e, s)
           | Inr _ \<Rightarrow> (Inr (), s \<lparr> json_file := Some (json_sessions s) \<rparr>)))"

text \<open>An operation on the loaded sessions.\<close>

definition json_loaded_then ::
  "json_session_state \<Rightarrow> int \<Rightarrow> io_fault option \<Rightarrow> (json_session_state \<Rightarrow> 'a session_result \<times> json_session_state)
   \<Rightarrow> 'a session_result \<times> json_session_state" where
  "json_loaded_then s now fault k =
     (case load_if_needed s now fault of (Inl e, s) \<Rightarrow> (Inl e, s) | (Inr _, s) \<Rightarrow> k s)"

definition json_get ::
  "json_session_state \<Rightarrow> int \<Rightarrow> io_fault option \<Rightarrow> string
   \<Rightarrow> (session_record option \<times> bool) session_result \<times> json_session_state" where
  "json_get s now fault token =
     json_loaded_then s now fault (\<lambda>s. (Inr (bt_get (json_sessions s) token, False), s))"

definition json_put ::
  "json_session_state \<Rightarrow> int \<Rightarrow> io_fault option \<Rightarrow> string \<Rightarrow> session_record
   \<Rightarrow> unit session_result \<times> json_session_state" where
  "json_put s now fault token record =
     json_loaded_then s now fault (\<lambda>s.
       json_save (s \<lparr> json_sessions := bt_insert token record (json_sessions s) \<rparr>) fault)"

definition json_delete ::
  "json_session_state \<Rightarrow> int \<Rightarrow> io_fault option \<Rightarrow> string \<Rightarrow> unit session_result \<times> json_session_state" where
  "json_delete s now fault token =
     json_loaded_then s now fault (\<lambda>s.
       if bt_get (json_sessions s) token = None then (Inr (), s)
       else json_save (s \<lparr> json_sessions := bt_remove token (json_sessions s) \<rparr>) fault)"

definition json_delete_for ::
  "json_session_state \<Rightarrow> int \<Rightarrow> io_fault option \<Rightarrow> principal_role \<Rightarrow> string
   \<Rightarrow> nat session_result \<times> json_session_state" where
  "json_delete_for s now fault role ref =
     (let ref = trim ref in
      if ref = [] then (Inr 0, s)
      else
        json_loaded_then s now fault (\<lambda>s.
          let previous_len = length (json_sessions s);
              s = s \<lparr> json_sessions := bt_retain (not_of role ref) (json_sessions s) \<rparr>;
              deleted = previous_len - length (json_sessions s) in
          if 0 < deleted
          then (case json_save s fault of (Inl e, s) \<Rightarrow> (Inl e, s) | (Inr _, s) \<Rightarrow> (Inr deleted, s))
          else (Inr deleted, s)))"

text \<open>Records are never found in an old place; there is nothing to migrate.\<close>

definition json_store :: "json_session_state session_store" where
  "json_store = \<lparr> store_get = json_get, store_migrate = (\<lambda>s now fault token record. (Inr (), s)),
     store_put = json_put, store_delete = json_delete, store_delete_for = json_delete_for \<rparr>"

section \<open>Keys of the LMDB store\<close>

type_synonym byte = "8 word"

text \<open>\<^verbatim>\<open>str::as_bytes\<close> below U+0100.\<close>

definition char_bytes :: "char \<Rightarrow> byte list" where
  "char_bytes c =
     (let n = of_char c :: nat in
      if n < 128 then [of_nat n] else [of_nat (192 + n div 64), of_nat (128 + n mod 64)])"

definition as_bytes :: "string \<Rightarrow> byte list" where
  "as_bytes s = concat (map char_bytes s)"

definition session_key :: "(byte list \<Rightarrow> byte list) \<Rightarrow> string \<Rightarrow> byte list" where
  "session_key sha token = sha (as_bytes token)"

record expiry_key =
  expires_at_nanos :: int
  expiry_session_key :: "byte list"

text \<open>\<^verbatim>\<open>u128::to_be_bytes\<close> and \<^verbatim>\<open>u128::from_be_bytes\<close>.\<close>

definition to_be_bytes :: "128 word \<Rightarrow> byte list" where
  "to_be_bytes w = map (\<lambda>i. ucast (drop_bit (8 * i) w)) (rev [0..<16])"

definition from_be_bytes :: "byte list \<Rightarrow> 128 word" where
  "from_be_bytes bs = foldl (\<lambda>w b. push_bit 8 w OR ucast b) 0 bs"

definition encode_ordered_i128 :: "int \<Rightarrow> byte list" where
  "encode_ordered_i128 v = to_be_bytes (word_of_int v XOR push_bit 127 1)"

definition decode_ordered_i128 :: "byte list \<Rightarrow> int" where
  "decode_ordered_i128 bs = sint (from_be_bytes bs XOR push_bit 127 1)"

definition expiry_key_encode :: "expiry_key \<Rightarrow> byte list" where
  "expiry_key_encode k = encode_ordered_i128 (expires_at_nanos k) @ expiry_session_key k"

definition expiry_key_decode :: "byte list \<Rightarrow> expiry_key session_result" where
  "expiry_key_decode bs =
     (if length bs < 16 then Inl (Err (Storage ''invalid expiry key timestamp''))
      else if length bs < 48 then Inl (Err (Storage ''invalid expiry key session hash''))
      else Inr \<lparr> expires_at_nanos = decode_ordered_i128 (take 16 bs), expiry_session_key = take 32 (drop 16 bs) \<rparr>)"

section \<open>The LMDB store\<close>

text \<open>The database of records by key, and the keys of the expiry index in their order as bytes.\<close>

record lmdb_state =
  lmdb_db :: "(byte list, session_record) btree_map"
  lmdb_expires :: "byte list btree_set"

definition expiry_entry :: "byte list \<Rightarrow> session_record \<Rightarrow> byte list option" where
  "expiry_entry key r =
     map_option (\<lambda>e. expiry_key_encode \<lparr> expires_at_nanos = e, expiry_session_key = key \<rparr>) (session_expires_at r)"

definition put_expiry_index :: "byte list \<Rightarrow> session_record \<Rightarrow> lmdb_state \<Rightarrow> lmdb_state" where
  "put_expiry_index key r s =
     (case expiry_entry key r of None \<Rightarrow> s | Some k \<Rightarrow> s \<lparr> lmdb_expires := bs_insert k (lmdb_expires s) \<rparr>)"

definition delete_expiry_index :: "byte list \<Rightarrow> session_record \<Rightarrow> lmdb_state \<Rightarrow> lmdb_state" where
  "delete_expiry_index key r s =
     (case expiry_entry key r of None \<Rightarrow> s | Some k \<Rightarrow> s \<lparr> lmdb_expires := filter (\<lambda>x. x \<noteq> k) (lmdb_expires s) \<rparr>)"

definition db_delete :: "byte list \<Rightarrow> lmdb_state \<Rightarrow> lmdb_state" where
  "db_delete key s = s \<lparr> lmdb_db := bt_remove key (lmdb_db s) \<rparr>"

definition put_session_in_txn :: "byte list \<Rightarrow> session_record \<Rightarrow> lmdb_state \<Rightarrow> lmdb_state" where
  "put_session_in_txn key r s =
     (let s = (case bt_get (lmdb_db s) key of None \<Rightarrow> s | Some previous \<Rightarrow> delete_expiry_index key previous s) in
      put_expiry_index key r (s \<lparr> lmdb_db := bt_insert key r (lmdb_db s) \<rparr>))"

definition purge_one :: "expiry_key \<Rightarrow> lmdb_state \<Rightarrow> lmdb_state" where
  "purge_one k s =
     (let s = db_delete (expiry_session_key k) s in
      s \<lparr> lmdb_expires := filter (\<lambda>x. x \<noteq> expiry_key_encode k) (lmdb_expires s) \<rparr>)"

definition purge_expired_in_txn :: "int \<Rightarrow> lmdb_state \<Rightarrow> (nat \<times> lmdb_state) session_result" where
  "purge_expired_in_txn now s =
     (let upper = expiry_key_encode \<lparr> expires_at_nanos = now, expiry_session_key = replicate 32 255 \<rparr> in
      bind_outcome (map_outcome expiry_key_decode (filter (\<lambda>k. k \<le> upper) (lmdb_expires s))) (\<lambda>expired.
      Inr (length expired, fold purge_one expired s)))"

text \<open>A write transaction takes effect as a whole or not at all.\<close>

definition in_txn ::
  "lmdb_state \<Rightarrow> io_fault option \<Rightarrow> ('a \<times> lmdb_state) session_result \<Rightarrow> 'a session_result \<times> lmdb_state" where
  "in_txn s fault body =
     (case bind_outcome (read_fault fault) (\<lambda>_. bind_outcome body (\<lambda>x. bind_outcome (write_fault fault) (\<lambda>_. Inr x))) of
        Inl e \<Rightarrow> (Inl e, s)
      | Inr (x, s) \<Rightarrow> (Inr x, s))"

definition lmdb_get ::
  "(byte list \<Rightarrow> byte list) \<Rightarrow> lmdb_state \<Rightarrow> int \<Rightarrow> io_fault option \<Rightarrow> string
   \<Rightarrow> (session_record option \<times> bool) session_result \<times> lmdb_state" where
  "lmdb_get sha s now fault token =
     (bind_outcome (read_fault fault) (\<lambda>_.
        case bt_get (lmdb_db s) (session_key sha token) of
          Some r \<Rightarrow> Inr (Some r, False)
        | None \<Rightarrow> Inr (bt_get (lmdb_db s) (as_bytes token), True)), s)"

definition lmdb_put ::
  "(byte list \<Rightarrow> byte list) \<Rightarrow> lmdb_state \<Rightarrow> int \<Rightarrow> io_fault option \<Rightarrow> string \<Rightarrow> session_record
   \<Rightarrow> unit session_result \<times> lmdb_state" where
  "lmdb_put sha s now fault token r =
     in_txn s fault (bind_outcome (purge_expired_in_txn now s) (\<lambda>(_, s).
       Inr ((), put_session_in_txn (session_key sha token) r s)))"

definition migrate_legacy_record ::
  "(byte list \<Rightarrow> byte list) \<Rightarrow> lmdb_state \<Rightarrow> int \<Rightarrow> io_fault option \<Rightarrow> string \<Rightarrow> session_record
   \<Rightarrow> unit session_result \<times> lmdb_state" where
  "migrate_legacy_record sha s now fault token r =
     in_txn s fault (bind_outcome (purge_expired_in_txn now s) (\<lambda>(_, s).
       Inr ((), db_delete (as_bytes token) (put_session_in_txn (session_key sha token) r s))))"

definition lmdb_delete ::
  "(byte list \<Rightarrow> byte list) \<Rightarrow> lmdb_state \<Rightarrow> int \<Rightarrow> io_fault option \<Rightarrow> string
   \<Rightarrow> unit session_result \<times> lmdb_state" where
  "lmdb_delete sha s now fault token =
     (let key = session_key sha token in
      in_txn s fault
        (let s = (case bt_get (lmdb_db s) key of None \<Rightarrow> s | Some previous \<Rightarrow> delete_expiry_index key previous s) in
         Inr ((), db_delete (as_bytes token) (db_delete key s))))"

definition delete_match :: "byte list \<times> session_record \<Rightarrow> lmdb_state \<Rightarrow> lmdb_state" where
  "delete_match = (\<lambda>(key, r) s. db_delete key (if length key = 32 then delete_expiry_index key r s else s))"

definition lmdb_delete_for ::
  "lmdb_state \<Rightarrow> int \<Rightarrow> io_fault option \<Rightarrow> principal_role \<Rightarrow> string \<Rightarrow> nat session_result \<times> lmdb_state" where
  "lmdb_delete_for s now fault role ref =
     (let ref = trim ref in
      if ref = [] then (Inr 0, s)
      else
        in_txn s fault
          (let matches = filter (\<lambda>(_, r). belongs_to role ref (session_principal r)) (lmdb_db s) in
           Inr (length matches, fold delete_match matches s)))"

definition lmdb_store :: "(byte list \<Rightarrow> byte list) \<Rightarrow> lmdb_state session_store" where
  "lmdb_store sha = \<lparr> store_get = lmdb_get sha, store_migrate = migrate_legacy_record sha,
     store_put = lmdb_put sha, store_delete = lmdb_delete sha, store_delete_for = lmdb_delete_for \<rparr>"

section \<open>The stored form of a record\<close>

fun encode_role :: "principal_role \<Rightarrow> byte" where
  "encode_role Supplier = 0"
| "encode_role Werka = 1"
| "encode_role Customer = 2"
| "encode_role Admin = 3"
| "encode_role Aparatchi = 4"
| "encode_role Qolipchi = 5"
| "encode_role MaterialTaminotchi = 6"
| "encode_role Boyoqchi = 7"
| "encode_role TayyorlovMasteri = 9"
| "encode_role HomashyoRezkachi = 10"
| "encode_role SalesManager = 11"
| "encode_role Brigader = 12"
| "encode_role RezkaMaster = 13"

definition decode_role :: "byte \<Rightarrow> (string, principal_role) outcome" where
  "decode_role b =
     ok_or (map_of [(0, Supplier), (1, Werka), (2, Customer), (3, Admin), (4, Aparatchi), (5, Qolipchi),
       (6, MaterialTaminotchi), (7, Boyoqchi), (9, TayyorlovMasteri), (10, HomashyoRezkachi), (11, SalesManager),
       (12, Brigader), (13, RezkaMaster)] b) ''invalid stored session principal role''"

record stored_principal =
  stored_role :: byte
  stored_display_name :: string
  stored_legal_name :: string
  stored_ref :: string
  stored_phone :: string
  stored_avatar_url :: string

record stored_session_record =
  stored_session_principal :: stored_principal
  created_at_nanos :: "int option"
  updated_at_nanos :: "int option"
  expires_nanos :: "int option"

definition from_principal :: "principal \<Rightarrow> stored_principal" where
  "from_principal p = \<lparr> stored_role = encode_role (principal_role_of p), stored_display_name = principal_display_name p,
     stored_legal_name = principal_legal_name p, stored_ref = principal_ref p, stored_phone = principal_phone p,
     stored_avatar_url = principal_avatar_url p \<rparr>"

definition into_principal :: "stored_principal \<Rightarrow> (string, principal) outcome" where
  "into_principal p =
     bind_outcome (decode_role (stored_role p)) (\<lambda>role.
     Inr \<lparr> principal_role_of = role, principal_display_name = stored_display_name p,
       principal_legal_name = stored_legal_name p, principal_ref = stored_ref p, principal_phone = stored_phone p,
       principal_avatar_url = stored_avatar_url p \<rparr>)"

definition from_record :: "session_record \<Rightarrow> stored_session_record" where
  "from_record r = \<lparr> stored_session_principal = from_principal (session_principal r),
     created_at_nanos = session_created_at r, updated_at_nanos = session_updated_at r,
     expires_nanos = session_expires_at r \<rparr>"

definition decode_timestamp :: "(int \<Rightarrow> bool) \<Rightarrow> int option \<Rightarrow> (string, int option) outcome" where
  "decode_timestamp time_ok t =
     (case t of None \<Rightarrow> Inr None | Some n \<Rightarrow> if time_ok n then Inr (Some n) else Inl (Err ''component range''))"

definition into_record :: "(int \<Rightarrow> bool) \<Rightarrow> stored_session_record \<Rightarrow> (string, session_record) outcome" where
  "into_record time_ok r =
     bind_outcome (into_principal (stored_session_principal r)) (\<lambda>p.
     bind_outcome (decode_timestamp time_ok (created_at_nanos r)) (\<lambda>c.
     bind_outcome (decode_timestamp time_ok (updated_at_nanos r)) (\<lambda>u.
     bind_outcome (decode_timestamp time_ok (expires_nanos r)) (\<lambda>e.
     Inr \<lparr> session_principal = p, session_created_at = c, session_updated_at = u, session_expires_at = e \<rparr>))))"

text \<open>The magic bytes AMS2 tell the stored form from the JSON of older versions.\<close>

definition session_record_magic :: "byte list" where
  "session_record_magic = as_bytes ''AMS2''"

definition record_encode ::
  "(stored_session_record \<Rightarrow> (string, byte list) outcome) \<Rightarrow> session_record \<Rightarrow> (string, byte list) outcome" where
  "record_encode serialize r =
     bind_outcome (serialize (from_record r)) (\<lambda>payload. Inr (session_record_magic @ payload))"

definition record_decode ::
  "(int \<Rightarrow> bool) \<Rightarrow> (byte list \<Rightarrow> (string, stored_session_record) outcome)
   \<Rightarrow> (byte list \<Rightarrow> (string, session_record) outcome) \<Rightarrow> byte list \<Rightarrow> (string, session_record) outcome" where
  "record_decode time_ok deserialize from_json bs =
     (if take 4 bs = session_record_magic
      then bind_outcome (deserialize (drop 4 bs)) (into_record time_ok)
      else from_json bs)"

end
