(* ===== verification/Session_Spec.thy ===== *)
theory Session_Spec
  imports Session_Stores
begin

text \<open>
  What the session manager promises when requests come one after the other: it behaves like a single
  map from tokens to records.  The locale \<open>session_lookup\<close> states what a store must do for it,
  operation by operation; that the manager with its cache then refines the map is proved once inside.
\<close>

section \<open>The specification\<close>

type_synonym session_map = "string \<rightharpoonup> session_record"

definition revoked :: "principal_role \<Rightarrow> string \<Rightarrow> session_map \<Rightarrow> session_map" where
  "revoked role ref m =
     (if ref = [] then m
      else (\<lambda>u. case m u of
        None \<Rightarrow> None
      | Some r \<Rightarrow> if belongs_to role ref (session_principal r) then None else Some r))"

definition spec_active ::
  "session_manager \<Rightarrow> session_env \<Rightarrow> principal \<Rightarrow> session_map \<Rightarrow> session_answer session_result \<times> session_map
   \<Rightarrow> session_answer session_result \<times> session_map" where
  "spec_active m env p f k =
     (if has_validator m
      then (case env_active env of
              Inl e \<Rightarrow> (Inl e, f)
            | Inr active \<Rightarrow>
                if active then k
                else (Inl (Err Unauthorized), revoked (principal_role_of p) (trim (principal_ref p)) f))
      else k)"

fun spec_serve ::
  "session_manager \<Rightarrow> session_env \<Rightarrow> session_request \<Rightarrow> session_map \<Rightarrow> session_answer session_result \<times> session_map"
where
  "spec_serve m env (ReqOpen p) f =
     spec_active m env p f
       (case session_record_new (representable m) p (env_now env) None (ttl_seconds m) of
          Inl e \<Rightarrow> (Inl e, f)
        | Inr r \<Rightarrow> (Inr (AnsToken (env_token env)), f(env_token env \<mapsto> r)))"
| "spec_serve m env (ReqLookup t) f =
     (case f t of
        None \<Rightarrow> (Inl (Err Unauthorized), f)
      | Some r \<Rightarrow>
          if is_expired r (env_now env) then (Inl (Err Unauthorized), f(t := None))
          else spec_active m env (session_principal r) f (Inr (AnsPrincipal (session_principal r)), f))"
| "spec_serve m env (ReqClose t) f = (Inr AnsDone, f(t := None))"
| "spec_serve m env (ReqRevoke role ref) f = (Inr (AnsCount 0), revoked role (trim ref) f)"
| "spec_serve m env (ReqReplace t p) f =
     spec_active m env p f
       (case f t of
          None \<Rightarrow> (Inl (Err Unauthorized), f)
        | Some r \<Rightarrow>
            if is_expired r (env_now env) then (Inl (Err Unauthorized), f(t := None))
            else
              (case session_record_new (representable m) p (env_now env) (session_created_at r) (ttl_seconds m) of
                 Inl e \<Rightarrow> (Inl e, f)
               | Inr r \<Rightarrow> (Inr AnsDone, f(t \<mapsto> r))))"

text \<open>The number of sessions a revocation removes is not specified.\<close>

fun agree :: "session_answer session_result \<Rightarrow> session_answer session_result \<Rightarrow> bool" where
  "agree (Inr (AnsCount _)) (Inr (AnsCount _)) = True"
| "agree a b = (a = b)"

lemma agree_refl [simp]: "agree a a"
  by (cases "(a, a)" rule: agree.cases) auto

section \<open>What a store may forget\<close>

text \<open>A store may drop a session whose time has come; nothing else is lost.\<close>

definition kept :: "string list \<Rightarrow> int \<Rightarrow> session_map \<Rightarrow> session_map \<Rightarrow> bool" where
  "kept T now f g \<longleftrightarrow>
     (\<forall>u\<in>set T. g u = f u \<or> g u = None \<and> (\<exists>r e. f u = Some r \<and> session_expires_at r = Some e \<and> e \<le> now))"

lemma kept_refl [simp]: "kept T now f f"
  by (simp add: kept_def)

lemma kept_trans:
  assumes "kept T t1 f g" "kept T t2 g h" "t1 \<le> t2"
  shows "kept T t2 f h"
  unfolding kept_def
proof
  fix u assume "u \<in> set T"
  then have "g u = f u \<or> g u = None \<and> (\<exists>r e. f u = Some r \<and> session_expires_at r = Some e \<and> e \<le> t1)"
    "h u = g u \<or> h u = None \<and> (\<exists>r e. g u = Some r \<and> session_expires_at r = Some e \<and> e \<le> t2)"
    using assms(1,2) unfolding kept_def by blast+
  then show "h u = f u \<or> h u = None \<and> (\<exists>r e. f u = Some r \<and> session_expires_at r = Some e \<and> e \<le> t2)"
    using assms(3) by (elim disjE) auto
qed

lemma kept_upd: "kept T now f g \<Longrightarrow> kept T now (f(t := x)) (g(t := x))"
  by (auto simp: kept_def)

lemma kept_revoked: "kept T now f g \<Longrightarrow> kept T now (revoked role ref f) (revoked role ref g)"
  by (auto simp: kept_def revoked_def split: option.splits)

lemma kept_mono: "kept T t1 f g \<Longrightarrow> t1 \<le> t2 \<Longrightarrow> kept T t2 f g"
  using kept_trans [OF _ kept_refl] .

lemma kept_some: "kept T now f g \<Longrightarrow> u \<in> set T \<Longrightarrow> g u = Some r \<Longrightarrow> f u = Some r"
  unfolding kept_def by (metis option.distinct(1))

section \<open>Requests one after the other\<close>

text \<open>
  A request that is served without a fault, at a time no session expires at.  Its tokens are among
  \<open>T\<close>, and a new one is not among those, in \<open>L\<close>, that have a record in an old place.
\<close>

definition admitted ::
  "string list \<Rightarrow> string list \<Rightarrow> (int \<Rightarrow> bool) \<Rightarrow> session_env \<Rightarrow> session_request \<Rightarrow> session_map \<Rightarrow> bool" where
  "admitted T L fits env req f \<longleftrightarrow>
     env_fault env = None \<and> fits (env_now env) \<and>
     list_all (\<lambda>u. case f u of None \<Rightarrow> True | Some r \<Rightarrow> session_expires_at r \<noteq> Some (env_now env)) T \<and>
     (case req of
        ReqOpen p \<Rightarrow> env_token env \<in> set T \<and> env_token env \<notin> set L
      | ReqLookup t \<Rightarrow> t \<in> set T
      | ReqClose t \<Rightarrow> t \<in> set T
      | ReqRevoke _ _ \<Rightarrow> True
      | ReqReplace t p \<Rightarrow> t \<in> set T)"

fun admissible ::
  "string list \<Rightarrow> string list \<Rightarrow> (int \<Rightarrow> bool) \<Rightarrow> session_manager \<Rightarrow> int \<Rightarrow> session_map
   \<Rightarrow> (session_env \<times> session_request) list \<Rightarrow> bool" where
  "admissible T L fits m clock f [] \<longleftrightarrow> True"
| "admissible T L fits m clock f ((env, req) # rs) \<longleftrightarrow>
     clock \<le> env_now env \<and> admitted T L fits env req f
     \<and> admissible T L fits m (env_now env) (snd (spec_serve m env req f)) rs"

fun spec_all ::
  "session_manager \<Rightarrow> (session_env \<times> session_request) list \<Rightarrow> session_map \<Rightarrow> session_answer session_result list" where
  "spec_all m [] f = []"
| "spec_all m ((env, req) # rs) f = (case spec_serve m env req f of (a, f) \<Rightarrow> a # spec_all m rs f)"

fun exec_all ::
  "'s session_store \<Rightarrow> session_manager \<Rightarrow> (session_env \<times> session_request) list \<Rightarrow> 's \<Rightarrow> session_cache
   \<Rightarrow> session_answer session_result list" where
  "exec_all ops m [] s c = []"
| "exec_all ops m ((env, req) # rs) s c =
     (case exec ops env (request_code m req) s c of (a, s, c) \<Rightarrow> a # exec_all ops m rs s c)"

section \<open>Refinement\<close>

locale session_lookup =
  fixes ops :: "'s session_store" and T :: "string list"
    and inv :: "'s \<Rightarrow> bool" and look :: "'s \<Rightarrow> session_map" and legacy :: "'s \<Rightarrow> string \<Rightarrow> bool"
    and time_fits :: "int \<Rightarrow> bool" and L :: "string list"
  assumes look_get: "inv s \<Longrightarrow> t \<in> set T \<Longrightarrow> time_fits now \<Longrightarrow>
      \<exists>x l s'. store_get ops s now None t = (Inr (x, l), s') \<and> inv s' \<and> kept T now (look s) (look s')
        \<and> x = look s' t \<and> (legacy s' t \<longleftrightarrow> l \<and> x \<noteq> None) \<and> (\<forall>u\<in>set T. legacy s' u \<longrightarrow> legacy s u)"
    and look_migrate: "inv s \<Longrightarrow> t \<in> set T \<Longrightarrow> time_fits now \<Longrightarrow> look s t = Some r \<Longrightarrow> legacy s t \<Longrightarrow>
      \<exists>s'. store_migrate ops s now None t r = (Inr (), s') \<and> inv s' \<and> kept T now (look s) (look s')
        \<and> \<not> legacy s' t \<and> (\<forall>u\<in>set T. legacy s' u \<longrightarrow> legacy s u)"
    and look_put: "inv s \<Longrightarrow> t \<in> set T \<Longrightarrow> time_fits now \<Longrightarrow> \<not> legacy s t \<Longrightarrow>
        (\<forall>e. session_expires_at r = Some e \<longrightarrow> time_fits e) \<Longrightarrow>
      \<exists>s'. store_put ops s now None t r = (Inr (), s') \<and> inv s' \<and> kept T now ((look s)(t \<mapsto> r)) (look s')
        \<and> (\<forall>u\<in>set T. legacy s' u \<longrightarrow> legacy s u)"
    and look_delete: "inv s \<Longrightarrow> t \<in> set T \<Longrightarrow> time_fits now \<Longrightarrow>
      \<exists>s'. store_delete ops s now None t = (Inr (), s') \<and> inv s' \<and> kept T now ((look s)(t := None)) (look s')
        \<and> (\<forall>u\<in>set T. legacy s' u \<longrightarrow> legacy s u)"
    and look_delete_for: "inv s \<Longrightarrow> time_fits now \<Longrightarrow> trim ref = ref \<Longrightarrow> ref \<noteq> [] \<Longrightarrow>
      \<exists>n s'. store_delete_for ops s now None role ref = (Inr n, s') \<and> inv s' \<and> kept T now (revoked role ref (look s)) (look s')
        \<and> (\<forall>u\<in>set T. legacy s' u \<longrightarrow> legacy s u)"
begin

definition refines :: "int \<Rightarrow> session_map \<Rightarrow> 's \<Rightarrow> session_cache \<Rightarrow> bool" where
  "refines clock f s c \<longleftrightarrow> inv s \<and> bt_wf c \<and> kept T clock f (look s) \<and>
     (\<forall>u\<in>set T. legacy s u \<longrightarrow> u \<in> set L) \<and>
     (\<forall>u\<in>set T. \<forall>r. bt_get c u = Some r \<longrightarrow> f u = Some r \<and> \<not> legacy s u)"

text \<open>The rest of an operation, run without a fault, answers and leaves the state as specified.\<close>

definition does :: "session_env \<Rightarrow> session_code \<Rightarrow> 's \<Rightarrow> session_cache \<Rightarrow> session_answer session_result \<times> session_map \<Rightarrow> bool"
where
  "does env code s c spec \<longleftrightarrow>
     (case exec ops env code s c of (a, s', c') \<Rightarrow> agree a (fst spec) \<and> refines (env_now env) (snd spec) s' c')"

lemma refines_mono: "refines t1 f s c \<Longrightarrow> t1 \<le> t2 \<Longrightarrow> refines t2 f s c"
  by (auto simp: refines_def intro: kept_mono)

lemma does_finish: "refines (env_now env) f s c \<Longrightarrow> agree a b \<Longrightarrow> does env (Finish a) s c (b, f)"
  by (simp add: does_def)

lemma does_clock: "does env (k (env_now env)) s c spec \<Longrightarrow> does env (ReadClock k) s c spec"
  by (simp add: does_def)

lemma does_cache_get: "does env (k (bt_get c t)) s c spec \<Longrightarrow> does env (CacheGet t k) s c spec"
  by (simp add: does_def)

definition calm :: "session_env \<Rightarrow> bool" where
  "calm env \<longleftrightarrow> env_fault env = None \<and> time_fits (env_now env)"

lemma refines_step:
  assumes "refines now f s c" "inv s'" "kept T now g (look s')" "\<forall>u\<in>set T. legacy s' u \<longrightarrow> legacy s u" "bt_wf c'"
    and "\<And>u r. u \<in> set T \<Longrightarrow> bt_get c' u = Some r \<Longrightarrow> g u = Some r \<and> \<not> legacy s u"
  shows "refines now g s' c'"
  using assms unfolding refines_def by blast

lemma does_store_delete:
  assumes "calm env" "refines (env_now env) f s c" "t \<in> set T" "c' = bt_remove t c \<or> c' = c \<and> bt_get c t = None"
  shows "\<exists>s'. store_delete ops s (env_now env) (env_fault env) t = (Inr (), s')
    \<and> refines (env_now env) (f(t := None)) s' c'"
proof -
  obtain s' where s': "store_delete ops s (env_now env) None t = (Inr (), s')" "inv s'"
    "kept T (env_now env) ((look s)(t := None)) (look s')" "\<forall>u\<in>set T. legacy s' u \<longrightarrow> legacy s u"
    using look_delete [of s t "env_now env"] assms by (auto simp: refines_def calm_def)
  have "refines (env_now env) (f(t := None)) s' c'"
  proof (rule refines_step [OF assms(2) s'(2) _ s'(4)])
    show "kept T (env_now env) (f(t := None)) (look s')"
      using assms(2) s'(3) kept_trans [OF kept_upd] by (auto simp: refines_def)
  qed (use assms(2,4) in \<open>auto simp: refines_def split: if_splits\<close>)
  then show ?thesis using s'(1) assms(1) by (simp add: calm_def)
qed

lemma does_delete_record:
  assumes "calm env" "refines (env_now env) f s c" "t \<in> set T"
  shows "does env (delete_record t (Finish a)) s c (a, f(t := None))"
  using does_store_delete [OF assms, of "bt_remove t c"] by (auto simp: does_def delete_record_def attempt_def)

lemma does_delete_stored:
  assumes "calm env" "refines (env_now env) f s c" "t \<in> set T" "bt_get c t = None"
  shows "does env (StoreDelete t (\<lambda>r. attempt r (\<lambda>_. Finish a))) s c (a, f(t := None))"
  using does_store_delete [OF assms(1-3), of c] assms(4) by (auto simp: does_def attempt_def)

lemma does_revoke:
  assumes "calm env" "refines (env_now env) f s c" "\<And>n. agree (a n) b"
  shows "does env (delete_principal_records role ref (\<lambda>n. Finish (a n))) s c (b, revoked role (trim ref) f)"
proof (cases "trim ref = []")
  case True
  then show ?thesis using assms by (simp add: does_def delete_principal_records_def revoked_def)
next
  case False
  obtain n s' where s': "store_delete_for ops s (env_now env) None role (trim ref) = (Inr n, s')" "inv s'"
    "kept T (env_now env) (revoked role (trim ref) (look s)) (look s')" "\<forall>u\<in>set T. legacy s' u \<longrightarrow> legacy s u"
    using look_delete_for [of s "env_now env" "trim ref" role] assms False by (auto simp: refines_def calm_def)
  have "refines (env_now env) (revoked role (trim ref) f) s' (bt_retain (not_of role (trim ref)) c)"
  proof (rule refines_step [OF assms(2) s'(2) _ s'(4)])
    show "kept T (env_now env) (revoked role (trim ref) f) (look s')"
      using assms(2) s'(3) kept_trans [OF kept_revoked] by (auto simp: refines_def)
    have wf: "bt_wf c" using assms(2) by (simp add: refines_def)
    then show "bt_wf (bt_retain (not_of role (trim ref)) c)" by auto
    show "revoked role (trim ref) f u = Some r \<and> \<not> legacy s u"
      if "u \<in> set T" "bt_get (bt_retain (not_of role (trim ref)) c) u = Some r" for u r
      using that assms(2)
      by (auto simp: refines_def revoked_def bt_retain_def bt_get_filter [OF wf] not_of_def split: option.splits if_splits)
  qed
  then show ?thesis
    using s'(1) assms(1,3) False by (simp add: does_def delete_principal_records_def attempt_def calm_def Let_def)
qed

lemma does_active:
  assumes "calm env" "refines (env_now env) f s c" "does env k s c spec"
  shows "does env (require_active m p k) s c (spec_active m env p f spec)"
proof -
  have "does env (delete_principal_records (principal_role_of p) (principal_ref p) (\<lambda>_. unauthorized)) s c
      (Inl (Err Unauthorized), revoked (principal_role_of p) (trim (principal_ref p)) f)"
    by (rule does_revoke [OF assms(1,2)]) simp
  then show ?thesis
    using assms by (auto simp: does_def require_active_def spec_active_def attempt_def split: sum.split)
qed

lemma does_put:
  assumes "calm env" "refines (env_now env) f s c" "t \<in> set T" "\<not> legacy s t"
    "\<And>e. session_expires_at r = Some e \<Longrightarrow> time_fits e"
  shows "does env (StorePut t r (\<lambda>x. attempt x (\<lambda>_. CachePut t r (Finish a)))) s c (a, f(t \<mapsto> r))"
proof -
  obtain s' where s': "store_put ops s (env_now env) None t r = (Inr (), s')" "inv s'"
    "kept T (env_now env) ((look s)(t \<mapsto> r)) (look s')" "\<forall>u\<in>set T. legacy s' u \<longrightarrow> legacy s u"
    using look_put [of s t "env_now env" r] assms by (auto simp: refines_def calm_def)
  have "refines (env_now env) (f(t \<mapsto> r)) s' (bt_insert t r c)"
  proof (rule refines_step [OF assms(2) s'(2) _ s'(4)])
    show "kept T (env_now env) (f(t \<mapsto> r)) (look s')"
      using assms(2) s'(3) kept_trans [OF kept_upd] by (auto simp: refines_def)
  qed (use assms(2,4) in \<open>auto simp: refines_def split: if_splits\<close>)
  then show ?thesis using s'(1) assms(1) by (simp add: does_def attempt_def calm_def)
qed

text \<open>A lookup in the store, with the move out of an old place if one is needed.\<close>

lemma does_store_get:
  assumes "calm env" "refines (env_now env) f s c" "t \<in> set T"
    and k: "\<And>s' x. refines (env_now env) f s' c \<Longrightarrow> \<not> legacy s' t \<Longrightarrow>
      x = f t \<or> x = None \<and> look s' t = None \<and> (\<exists>r e. f t = Some r \<and> session_expires_at r = Some e \<and> e \<le> env_now env) \<Longrightarrow>
      does env (k x) s' c spec"
  shows "does env (StoreGet t (\<lambda>r. attempt r k)) s c spec"
proof -
  obtain x l s1 where s1: "store_get ops s (env_now env) None t = (Inr (x, l), s1)" "inv s1"
    "kept T (env_now env) (look s) (look s1)" "x = look s1 t" "legacy s1 t \<longleftrightarrow> l \<and> x \<noteq> None"
    "\<forall>u\<in>set T. legacy s1 u \<longrightarrow> legacy s u"
    using look_get [of s t "env_now env"] assms by (auto simp: refines_def calm_def)
  have kept1: "kept T (env_now env) f (look s1)"
    using assms(2) s1(3) kept_trans by (auto simp: refines_def)
  have ref1: "refines (env_now env) f s1 c"
    by (rule refines_step [OF assms(2) s1(2) kept1 s1(6)]) (use assms(2) in \<open>auto simp: refines_def\<close>)
  have x: "x = f t \<or> x = None \<and> look s1 t = None \<and> (\<exists>r e. f t = Some r \<and> session_expires_at r = Some e \<and> e \<le> env_now env)"
    using kept1 assms(3) s1(4) by (auto simp: kept_def)
  show ?thesis
  proof (cases "l \<and> x \<noteq> None")
    case False
    then have "does env (k x) s1 c spec" using k [OF ref1 _ x] s1(5) by blast
    then show ?thesis
      using s1(1) assms(1) False by (cases x) (auto simp: does_def attempt_def calm_def)
  next
    case True
    then obtain r where r: "x = Some r" by auto
    then obtain s2 where s2: "store_migrate ops s1 (env_now env) None t r = (Inr (), s2)" "inv s2"
      "kept T (env_now env) (look s1) (look s2)" "\<not> legacy s2 t" "\<forall>u\<in>set T. legacy s2 u \<longrightarrow> legacy s1 u"
      using look_migrate [OF s1(2) assms(3), of "env_now env" r] s1(4,5) True assms(1) by (auto simp: calm_def)
    have "refines (env_now env) f s2 c"
      by (rule refines_step [OF ref1 s2(2) kept_trans [OF kept1 s2(3)] s2(5)]) (use ref1 in \<open>auto simp: refines_def\<close>)
    then have "does env (k x) s2 c spec" using k s2(4) x r by blast
    then show ?thesis
      using s1(1) s2(1) r True assms(1) by (simp add: does_def attempt_def calm_def)
  qed
qed

abbreviation request_ok :: "session_manager \<Rightarrow> session_env \<Rightarrow> session_request \<Rightarrow> session_map \<Rightarrow> bool" where
  "request_ok m env req f \<equiv> admitted T L time_fits env req f \<and> (\<forall>e. representable m e \<longrightarrow> time_fits e)"

lemma new_record_fits:
  assumes "request_ok m env req f" "session_record_new (representable m) p now created ttl = Inr r"
    "session_expires_at r = Some e"
  shows "time_fits e"
  using assms by (auto simp: admitted_def calm_def session_record_new_def bind_outcome_eq_Inr Let_def split: option.splits if_splits)

lemma dropped_expired:
  assumes "request_ok m env req f" "t \<in> set T" "f t = Some r" "session_expires_at r = Some e" "e \<le> env_now env"
  shows "is_expired r (env_now env)"
proof -
  have "case f t of None \<Rightarrow> True | Some r \<Rightarrow> session_expires_at r \<noteq> Some (env_now env)"
    using assms(1,2) by (simp add: admitted_def list_all_iff)
  then show ?thesis using assms(3-5) by (simp add: is_expired_def)
qed

text \<open>A session that is gone from the store and from the cache is gone.\<close>

lemma refines_gone:
  assumes "refines now f s c" "bt_get c t = None" "look s t = None"
  shows "refines now (f(t := None)) s c"
  using assms by (auto simp: refines_def kept_def)

lemma does_lookup:
  assumes ok: "request_ok m env (ReqLookup t) f" and ref: "refines (env_now env) f s c"
  shows "does env (session_get m t) s c (spec_serve m env (ReqLookup t) f)"
proof -
  have calm: "calm env" and t: "t \<in> set T" using ok by (simp_all add: admitted_def calm_def)
  show ?thesis
  proof (cases "bt_get c t")
    case (Some r)
    then have f: "f t = Some r" using ref t by (simp add: refines_def)
    show ?thesis
      using does_delete_record [OF calm ref t] does_active [OF calm ref does_finish [OF ref agree_refl]] Some f
      by (auto simp: session_get_def intro!: does_cache_get does_clock)
  next
    case None
    have "does env (case x of None \<Rightarrow> unauthorized
          | Some r \<Rightarrow> ReadClock (\<lambda>now. if is_expired r now then StoreDelete t (\<lambda>r. attempt r (\<lambda>_. unauthorized))
              else require_active m (session_principal r)
                (CachePut t r (Finish (Inr (AnsPrincipal (session_principal r)))))))
        s' c (spec_serve m env (ReqLookup t) f)"
      if s': "refines (env_now env) f s' c" "\<not> legacy s' t"
        and x: "x = f t \<or> x = None \<and> look s' t = None
          \<and> (\<exists>r e. f t = Some r \<and> session_expires_at r = Some e \<and> e \<le> env_now env)" for s' x
    proof (cases "x = f t")
      case True
      show ?thesis
      proof (cases "f t")
        case (Some r)
        have "does env (CachePut t r (Finish (Inr (AnsPrincipal (session_principal r))))) s' c
            (Inr (AnsPrincipal (session_principal r)), f)"
          using s' Some by (auto simp: does_def refines_def)
        then show ?thesis
          using does_delete_stored [OF calm s'(1) t None] does_active [OF calm s'(1)] True Some
          by (auto intro!: does_clock)
      qed (use True s'(1) in \<open>simp add: does_finish\<close>)
    next
      case False
      then show ?thesis
        using x refines_gone [OF s'(1) None] dropped_expired [OF ok t] by (auto simp: does_finish)
    qed
    from does_store_get [OF calm ref t this] show ?thesis
      using None unfolding session_get_def by (intro does_cache_get) (simp del: spec_serve.simps)
  qed
qed

lemma does_replace:
  assumes ok: "request_ok m env (ReqReplace t p) f" and ref: "refines (env_now env) f s c" and leg: "\<not> legacy s t"
    and x: "x = f t \<or> x = None \<and> look s t = None \<and> bt_get c t = None
      \<and> (\<exists>r e. f t = Some r \<and> session_expires_at r = Some e \<and> e \<le> env_now env)"
  shows "does env (replace_record m t p x) s c
    (case f t of
       None \<Rightarrow> (Inl (Err Unauthorized), f)
     | Some r \<Rightarrow>
         if is_expired r (env_now env) then (Inl (Err Unauthorized), f(t := None))
         else
           (case session_record_new (representable m) p (env_now env) (session_created_at r) (ttl_seconds m) of
              Inl e \<Rightarrow> (Inl e, f)
            | Inr r \<Rightarrow> (Inr AnsDone, f(t \<mapsto> r))))"
proof -
  have calm: "calm env" and t: "t \<in> set T" using ok by (simp_all add: admitted_def calm_def)
  show ?thesis
  proof (cases "x = f t")
    case True
    then show ?thesis
      using does_delete_record [OF calm ref t] does_put [OF calm ref t leg new_record_fits [OF ok]] does_finish [OF ref]
      by (auto simp: replace_record_def attempt_def split: option.split sum.split intro!: does_clock)
  next
    case False
    then show ?thesis
      using x refines_gone [OF ref, of t] dropped_expired [OF ok t] by (auto simp: replace_record_def does_finish)
  qed
qed

lemma does_update:
  assumes ok: "request_ok m env (ReqReplace t p) f" and ref: "refines (env_now env) f s c"
  shows "does env (session_update m t p) s c (spec_serve m env (ReqReplace t p) f)"
proof -
  have calm: "calm env" and t: "t \<in> set T" using ok by (simp_all add: admitted_def calm_def)
  note replace = does_replace [OF ok]
  show ?thesis
  proof (cases "bt_get c t")
    case (Some r)
    then have f: "f t = Some r" "\<not> legacy s t" using ref t by (simp_all add: refines_def)
    show ?thesis
      unfolding session_update_def spec_serve.simps
      by (intro does_active [OF calm ref] does_cache_get) (use Some replace [OF ref f(2), of "Some r"] f(1) in simp)
  next
    case None
    have "does env (StoreGet t (\<lambda>r. attempt r (replace_record m t p))) s c
        (case f t of
           None \<Rightarrow> (Inl (Err Unauthorized), f)
         | Some r \<Rightarrow>
             if is_expired r (env_now env) then (Inl (Err Unauthorized), f(t := None))
             else
               (case session_record_new (representable m) p (env_now env) (session_created_at r) (ttl_seconds m) of
                  Inl e \<Rightarrow> (Inl e, f)
                | Inr r \<Rightarrow> (Inr AnsDone, f(t \<mapsto> r))))"
      by (rule does_store_get [OF calm ref t], rule replace) (use None in auto)
    then show ?thesis
      unfolding session_update_def spec_serve.simps
      by (intro does_active [OF calm ref] does_cache_get) (use None in simp)
  qed
qed

lemma serve_refines:
  assumes ok: "request_ok m env req f" and ref: "refines (env_now env) f s c"
  shows "does env (request_code m req) s c (spec_serve m env req f)"
proof (cases req)
  case (ReqOpen p)
  have calm: "calm env" and t: "env_token env \<in> set T" "\<not> legacy s (env_token env)"
    using ok ReqOpen ref by (auto simp: admitted_def calm_def refines_def)
  have "does env (NewToken (\<lambda>token. ReadClock (\<lambda>now.
       attempt (session_record_new (representable m) p now None (ttl_seconds m)) (\<lambda>record.
       StorePut token record (\<lambda>r. attempt r (\<lambda>_. CachePut token record (Finish (Inr (AnsToken token)))))))))
     s c (case session_record_new (representable m) p (env_now env) None (ttl_seconds m) of
          Inl e \<Rightarrow> (Inl e, f)
        | Inr r \<Rightarrow> (Inr (AnsToken (env_token env)), f(env_token env \<mapsto> r)))"
  proof (cases "session_record_new (representable m) p (env_now env) None (ttl_seconds m)")
    case (Inl e)
    then show ?thesis using ref by (simp add: does_def attempt_def)
  next
    case (Inr r)
    let ?tok = "env_token env"
    have "does env (StorePut ?tok r (\<lambda>x. attempt x (\<lambda>_. CachePut ?tok r (Finish (Inr (AnsToken ?tok)))))) s c
        (Inr (AnsToken ?tok), f(?tok \<mapsto> r))"
      by (rule does_put [OF calm ref t]) (rule new_record_fits [OF ok Inr])
    then show ?thesis using Inr by (simp add: does_def attempt_def)
  qed
  then show ?thesis using ReqOpen does_active [OF calm ref] by (simp add: session_create_def)
next
  case (ReqClose t)
  then show ?thesis using does_delete_record [OF _ ref] ok by (simp add: session_delete_def admitted_def calm_def)
next
  case (ReqRevoke role r)
  then show ?thesis
    using does_revoke [OF _ ref, of "\<lambda>n. Inr (AnsCount n)" "Inr (AnsCount 0)"] ok
    by (simp add: session_delete_for_principal_def admitted_def calm_def)
qed (use does_lookup [OF _ ref] does_update [OF _ ref] ok in simp_all)

lemma run_refines:
  assumes "\<And>e. representable m e \<Longrightarrow> time_fits e" "refines clock f s c" "admissible T L time_fits m clock f rs"
  shows "list_all2 agree (exec_all ops m rs s c) (spec_all m rs f)"
  using assms(2,3)
proof (induction rs arbitrary: clock f s c)
  case (Cons e rs)
  obtain env req where e: "e = (env, req)" by (cases e)
  have "does env (request_code m req) s c (spec_serve m env req f)"
    using Cons.prems assms(1) refines_mono [OF Cons.prems(1)] e by (intro serve_refines) auto
  then show ?case
    using Cons.IH Cons.prems e by (auto simp: does_def split: prod.splits)
qed simp

lemma start_refines:
  assumes "inv s" "\<And>u. u \<in> set T \<Longrightarrow> legacy s u \<Longrightarrow> u \<in> set L"
  shows "refines clock (look s) s []"
  using assms by (simp add: refines_def)

end

end
