(* ===== verification/Session_Keys.thy ===== *)
theory Session_Keys
  imports Session_Stores
begin

unbundle bit_operations_syntax

text \<open>
  The stored forms of the session stores: big-endian bytes keep the order of the numbers, and so do
  the keys of the expiry index; keys and records can be read back.
\<close>

section \<open>Big-endian bytes\<close>

fun bytes_val :: "byte list \<Rightarrow> nat" where
  "bytes_val [] = 0"
| "bytes_val (b # bs) = unat b * 256 ^ length bs + bytes_val bs"

lemma bytes_val_bound: "bytes_val bs < 256 ^ length bs"
proof (induction bs)
  case (Cons b bs)
  have "unat b \<le> 255" using unsigned_less [of b, where ?'a = nat] by simp
  then have "unat b * 256 ^ length bs \<le> 255 * 256 ^ length bs" by (rule mult_le_mono1)
  then show ?case using Cons unfolding bytes_val.simps length_Cons power_Suc by linarith
qed simp

lemma bytes_val_less:
  assumes "length xs = length ys"
  shows "xs < ys \<longleftrightarrow> bytes_val xs < bytes_val ys"
  using assms
proof (induction xs ys rule: list_induct2)
  case (Cons x xs y ys)
  have bound: "bytes_val zs < 256 ^ length ys" if "length zs = length ys" for zs
    using bytes_val_bound [of zs] that by simp
  have less: "bytes_val (u # us) < bytes_val (v # vs)"
    if "unat u < unat v" "length us = length ys" "length vs = length ys" for u v us vs
  proof -
    have "(unat u + 1) * 256 ^ length ys \<le> unat v * 256 ^ length ys" using that(1) by (intro mult_le_mono1) simp
    then show ?thesis using bound [OF that(2)] unfolding bytes_val.simps that(2,3) by (simp only: distrib_right)
  qed
  show ?case
  proof (cases "x = y")
    case True
    then show ?thesis using Cons by simp
  next
    case False
    then have "unat x < unat y \<or> unat y < unat x" by (metis linorder_neqE_nat word_unat_eq_iff)
    then show ?thesis using less [of x y xs ys] less [of y x ys xs] Cons(1) False by (auto simp: word_less_nat_alt)
  qed
qed simp

lemma bytes_val_digits:
  "bytes_val (map (\<lambda>i. ucast (drop_bit (8 * i) (w :: 128 word))) (rev [0..<n])) = unat w mod 256 ^ n"
proof (induction n)
  case (Suc n)
  have "unat (ucast (drop_bit (8 * n) w) :: byte) = unat w div 256 ^ n mod 256"
    unfolding unsigned_ucast_eq unat_drop_bit_eq by (simp add: drop_bit_eq_div take_bit_eq_mod power_mult)
  then show ?case
    using Suc mod_mult2_eq [of "unat w" "256 ^ n" 256] by (simp add: ac_simps)
qed simp

lemma to_be_bytes_val: "bytes_val (to_be_bytes w) = unat w" "length (to_be_bytes w) = 16"
proof -
  have "unat w < 256 ^ 16" using unsigned_less [of w, where ?'a = nat] by simp
  then show "bytes_val (to_be_bytes w) = unat w" unfolding to_be_bytes_def bytes_val_digits by simp
  show "length (to_be_bytes w) = 16" by (simp add: to_be_bytes_def)
qed

lemma to_be_bytes_less: "to_be_bytes v < to_be_bytes w \<longleftrightarrow> v < w"
  by (simp add: bytes_val_less to_be_bytes_val word_less_nat_alt)

lemma push_or_byte: "push_bit 8 w OR ucast (b :: byte) = w * 256 + (ucast b :: 128 word)"
proof -
  have "push_bit 8 w OR ucast b = push_bit 8 w + (ucast b :: 128 word)"
    by (rule disjunctive_add [symmetric]) (auto simp: bit_push_bit_iff bit_ucast_iff dest: bit_imp_le_length)
  then show ?thesis by (simp add: push_bit_eq_mult)
qed

lemma from_be_bytes_val: "from_be_bytes bs = of_nat (bytes_val bs)"
proof -
  have "foldl (\<lambda>w b. push_bit 8 w OR ucast b) w bs = w * 256 ^ length bs + (of_nat (bytes_val bs) :: 128 word)" for w
  proof (induction bs arbitrary: w)
    case (Cons b bs)
    then show ?case by (simp add: push_or_byte algebra_simps)
  qed simp
  then show ?thesis by (simp add: from_be_bytes_def)
qed

lemma from_to_be_bytes [simp]: "from_be_bytes (to_be_bytes w) = w"
  by (simp add: from_be_bytes_val to_be_bytes_val)

section \<open>Keys of the expiry index\<close>

definition in_i128 :: "int \<Rightarrow> bool" where
  "in_i128 v \<longleftrightarrow> - (2 ^ 127) \<le> v \<and> v < 2 ^ 127"

lemma xor_one_bit:
  assumes "\<And>n. bit (m :: 'a::len word) n \<longleftrightarrow> n = i" "m + m = 0"
  shows "w XOR m = w + m"
proof (cases "bit w i")
  case False
  have "w XOR m = w OR m" using False assms by (intro bit_word_eqI) (auto simp: bit_simps)
  moreover have "w OR m = w + m" using False assms by (intro disjunctive_add [symmetric]) auto
  ultimately show ?thesis by simp
next
  case True
  have "w = (w XOR m) OR m" using True assms by (intro bit_word_eqI) (auto simp: bit_simps)
  moreover have "(w XOR m) OR m = (w XOR m) + m"
    using True assms by (intro disjunctive_add [symmetric]) (auto simp: bit_simps)
  ultimately have "w + m = (w XOR m) + (m + m)" by (metis add.assoc)
  then show ?thesis using assms(2) by simp
qed

lemma flip_sign: "w XOR push_bit 127 1 = w + (2 ^ 127 :: 128 word)"
proof -
  have "bit (push_bit 127 (1 :: 128 word)) n \<longleftrightarrow> n = 127" for n
    unfolding bit_push_bit_iff bit_1_iff by auto
  from xor_one_bit [OF this, of w] show ?thesis by simp
qed

lemma encode_ordered_val:
  assumes "in_i128 v"
  shows "int (bytes_val (encode_ordered_i128 v)) = v + 2 ^ 127"
proof -
  have "uint (word_of_int v + (2 ^ 127 :: 128 word)) = (v + 2 ^ 127) mod 2 ^ 128"
    using uint_word_of_int [of "v + 2 ^ 127", where ?'a = 128] by simp
  then show ?thesis
    unfolding encode_ordered_i128_def to_be_bytes_val flip_sign using assms by (simp add: in_i128_def)
qed

lemma encode_ordered_length [simp]: "length (encode_ordered_i128 v) = 16"
  by (simp add: encode_ordered_i128_def to_be_bytes_val)

lemma encode_ordered_less:
  assumes "in_i128 v" "in_i128 w"
  shows "encode_ordered_i128 v < encode_ordered_i128 w \<longleftrightarrow> v < w"
    "encode_ordered_i128 v = encode_ordered_i128 w \<longleftrightarrow> v = w"
proof -
  note val = encode_ordered_val [OF assms(1)] encode_ordered_val [OF assms(2)]
  have "length (encode_ordered_i128 v) = length (encode_ordered_i128 w)" by simp
  from bytes_val_less [OF this] show "encode_ordered_i128 v < encode_ordered_i128 w \<longleftrightarrow> v < w"
    using val by linarith
  show "encode_ordered_i128 v = encode_ordered_i128 w \<longleftrightarrow> v = w"
    using val by (metis add_right_cancel)
qed

lemma decode_encode_ordered [simp]:
  assumes "in_i128 v"
  shows "decode_ordered_i128 (encode_ordered_i128 v) = v"
proof -
  have "(word_of_int v XOR push_bit 127 1) XOR push_bit 127 1 = (word_of_int v :: 128 word)"
    unfolding xor.assoc xor_self_eq xor.right_neutral ..
  moreover have "sint (word_of_int v :: 128 word) = v"
    using assms by (simp add: in_i128_def signed_of_int signed_take_bit_int_eq_self)
  ultimately show ?thesis unfolding decode_ordered_i128_def encode_ordered_i128_def from_to_be_bytes by simp
qed

lemma decode_encode_key:
  assumes "in_i128 (expires_at_nanos k)" "length (expiry_session_key k) = 32"
  shows "expiry_key_decode (expiry_key_encode k) = Inr k"
  using assms by (simp add: expiry_key_decode_def expiry_key_encode_def)

lemma append_less_iff:
  "length xs = length ys \<Longrightarrow> xs @ us < ys @ (vs :: 'a::linorder list) \<longleftrightarrow> xs < ys \<or> xs = ys \<and> us < vs"
  by (induction xs ys rule: list_induct2) auto

lemma append_le_iff:
  "length xs = length ys \<Longrightarrow> xs @ us \<le> ys @ (vs :: 'a::linorder list) \<longleftrightarrow> xs < ys \<or> xs = ys \<and> us \<le> vs"
  unfolding order.order_iff_strict by (simp add: append_less_iff) blast

lemma max_bytes: "length bs = n \<Longrightarrow> bs \<le> replicate n (255 :: byte)"
proof (induction n arbitrary: bs)
  case (Suc n)
  then obtain b cs where bs: "bs = b # cs" "length cs = n" by (cases bs) auto
  have "b \<le> 255" using unsigned_less [of b, where ?'a = nat] by (simp add: word_le_nat_alt)
  then show ?case using Suc bs by (auto simp: less_le)
qed simp

text \<open>The keys up to the last one of an instant are those that expire by then.\<close>

lemma encode_key_upper:
  assumes "in_i128 (expires_at_nanos k)" "in_i128 now" "length (expiry_session_key k) = 32"
  shows "expiry_key_encode k \<le> expiry_key_encode \<lparr> expires_at_nanos = now, expiry_session_key = replicate 32 255 \<rparr>
    \<longleftrightarrow> expires_at_nanos k \<le> now"
  using encode_ordered_less [OF assms(1,2)] max_bytes [OF assms(3)]
  by (simp add: expiry_key_encode_def append_le_iff) linarith

section \<open>Records\<close>

lemma decode_encode_role [simp]: "decode_role (encode_role r) = Inr r"
  by (cases r) (simp_all add: decode_role_def)

lemma into_from_record:
  assumes "\<forall>t\<in>set_option (session_created_at r) \<union> set_option (session_updated_at r) \<union> set_option (session_expires_at r).
    time_ok t"
  shows "into_record time_ok (from_record r) = Inr r"
  using assms
  by (auto simp: into_record_def from_record_def into_principal_def from_principal_def decode_timestamp_def
      split: option.split)

end
