(* ===== verification/Session_Laws.thy ===== *)
theory Session_Laws
  imports Session_Stores
begin

text \<open>
  Revocation of sessions under interleaving.  The locale \<open>session_contract\<close> states what the manager
  needs of a store for it: no operation makes up records, and deleting the sessions of a principal
  leaves none of them.  Both stores are instances.
\<close>

section \<open>Operations that do not bring a principal back\<close>

text \<open>
  \<open>clean B c\<close>: whatever the world answers, as long as cache and store give out no session of a
  principal in \<open>B\<close>, the rest \<open>c\<close> of an operation stores none and returns none.
\<close>

definition free_of :: "(principal \<Rightarrow> bool) \<Rightarrow> session_record option \<Rightarrow> bool" where
  "free_of B x \<longleftrightarrow> (case x of None \<Rightarrow> True | Some r \<Rightarrow> \<not> B (session_principal r))"

primrec clean :: "(principal \<Rightarrow> bool) \<Rightarrow> session_code \<Rightarrow> bool" where
  "clean B (Finish r) \<longleftrightarrow> (\<forall>p. r = Inr (AnsPrincipal p) \<longrightarrow> \<not> B p)"
| "clean B (ReadClock k) \<longleftrightarrow> (\<forall>x. clean B (k x))"
| "clean B (CheckActive p k) \<longleftrightarrow> (\<forall>x. clean B (k x))"
| "clean B (NewToken k) \<longleftrightarrow> (\<forall>x. clean B (k x))"
| "clean B (CacheGet t k) \<longleftrightarrow> (\<forall>x. free_of B x \<longrightarrow> clean B (k x))"
| "clean B (CachePut t r k) \<longleftrightarrow> \<not> B (session_principal r) \<and> clean B k"
| "clean B (CacheRemove t k) \<longleftrightarrow> clean B k"
| "clean B (CacheRetain role ref k) \<longleftrightarrow> clean B k"
| "clean B (StoreGet t k) \<longleftrightarrow> (\<forall>x. (\<forall>v. x = Inr v \<longrightarrow> free_of B v) \<longrightarrow> clean B (k x))"
| "clean B (StoreMigrate t r k) \<longleftrightarrow>
     \<not> B (session_principal r) \<and> (\<forall>x. (\<forall>v. x = Inr v \<longrightarrow> free_of B v) \<longrightarrow> clean B (k x))"
| "clean B (StorePut t r k) \<longleftrightarrow> \<not> B (session_principal r) \<and> (\<forall>x. clean B (k x))"
| "clean B (StoreDelete t k) \<longleftrightarrow> (\<forall>x. clean B (k x))"
| "clean B (StoreDeleteFor role ref k) \<longleftrightarrow> (\<forall>x. clean B (k x))"

lemma free_of_simps [simp]: "free_of B None" "free_of B (Some r) \<longleftrightarrow> \<not> B (session_principal r)"
  by (simp_all add: free_of_def)

lemma clean_attempt: "(\<And>x. r = Inr x \<Longrightarrow> clean B (k x)) \<Longrightarrow> clean B (attempt r k)"
  by (simp add: attempt_def split: sum.split)

lemma clean_delete_record: "clean B k \<Longrightarrow> clean B (delete_record t k)"
  by (simp add: delete_record_def clean_attempt)

lemma clean_delete_principal: "(\<And>n. clean B (k n)) \<Longrightarrow> clean B (delete_principal_records role ref k)"
  by (simp add: delete_principal_records_def Let_def clean_attempt)

lemma clean_require: "clean B k \<Longrightarrow> clean B (require_active m p k)"
  by (auto simp: require_active_def intro!: clean_attempt clean_delete_principal)

lemma new_record_principal:
  "session_record_new ok p now created ttl = Inr r \<Longrightarrow> session_principal r = p"
  by (auto simp: session_record_new_def bind_outcome_eq_Inr)

lemmas clean_intros = clean_attempt clean_delete_record clean_delete_principal clean_require

fun brings :: "session_request \<Rightarrow> principal option" where
  "brings (ReqOpen p) = Some p"
| "brings (ReqReplace _ p) = Some p"
| "brings _ = None"

lemma request_clean:
  assumes "\<And>p. brings req = Some p \<Longrightarrow> \<not> B p"
  shows "clean B (request_code m req)"
proof (cases req)
  case (ReqOpen p)
  then show ?thesis
    using assms by (auto simp: session_create_def new_record_principal intro!: clean_intros)
next
  case (ReqReplace t p)
  have "clean B (replace_record m t p x)" for x
    using assms ReqReplace
    by (auto simp: replace_record_def new_record_principal split: option.split intro!: clean_intros)
  then show ?thesis
    using ReqReplace by (auto simp: session_update_def intro!: clean_require clean_attempt split: option.split)
next
  case (ReqLookup t)
  then show ?thesis
    by (auto simp: session_get_def split: option.split intro!: clean_intros)
qed (auto simp: session_delete_def session_delete_for_principal_def intro!: clean_intros)

section \<open>The contract of a store\<close>

locale session_contract =
  fixes ops :: "'s session_store" and holds :: "'s \<Rightarrow> session_record set"
  assumes get_holds: "store_get ops s now fault t = (r, s') \<Longrightarrow>
      holds s' \<subseteq> holds s \<and> (\<forall>x l. r = Inr (Some x, l) \<longrightarrow> x \<in> holds s)"
    and migrate_holds: "store_migrate ops s now fault t x = (r', s') \<Longrightarrow> holds s' \<subseteq> insert x (holds s)"
    and put_holds: "store_put ops s now fault t x = (r', s') \<Longrightarrow> holds s' \<subseteq> insert x (holds s)"
    and delete_holds: "store_delete ops s now fault t = (r', s') \<Longrightarrow> holds s' \<subseteq> holds s"
    and delete_for_holds: "store_delete_for ops s now fault role ref = (n, s') \<Longrightarrow> holds s' \<subseteq> holds s"
    and delete_for_all: "store_delete_for ops s now fault role ref = (Inr i, s') \<Longrightarrow> trim ref = ref \<Longrightarrow> ref \<noteq> [] \<Longrightarrow>
      x \<in> holds s' \<Longrightarrow> \<not> belongs_to role ref (session_principal x)"
begin

definition without :: "(principal \<Rightarrow> bool) \<Rightarrow> 's \<Rightarrow> session_cache \<Rightarrow> bool" where
  "without B s c \<longleftrightarrow> (\<forall>x\<in>holds s. \<not> B (session_principal x)) \<and> (\<forall>t. free_of B (bt_get c t))"

lemma free_retain: "free_of B (bt_get c t) \<Longrightarrow> bt_wf c \<Longrightarrow> free_of B (bt_get (bt_retain P c) t)"
  by (auto simp: free_of_def bt_retain_def bt_get_filter split: option.splits)

lemma micro_clean:
  assumes "micro ops env code s c = (code', s', c')" "clean B code" "without B s c" "bt_wf c"
  shows "clean B code' \<and> without B s' c' \<and> bt_wf c'"
proof (cases code)
  case (StoreGet t k)
  obtain r where r: "store_get ops s (env_now env) (env_fault env) t = (r, s')" "code' = found_record t k r" "c' = c"
    using assms(1) StoreGet by (auto split: prod.splits)
  have "clean B (found_record t k r)"
    using get_holds [OF r(1)] assms(2,3) StoreGet
    by (auto simp: found_record_def without_def split: sum.split option.split)
  then show ?thesis using get_holds [OF r(1)] r assms by (auto simp: without_def)
next
  case (StoreMigrate t x k)
  then show ?thesis
    using assms migrate_holds [of s "env_now env" "env_fault env" t x]
    by (auto simp: without_def bind_outcome_eq_Inr split: prod.splits)
next
  case (StorePut t x k)
  then show ?thesis
    using assms put_holds [of s "env_now env" "env_fault env" t x]
    by (auto simp: without_def split: prod.splits)
next
  case (StoreDelete t k)
  then show ?thesis
    using assms delete_holds [of s "env_now env" "env_fault env" t]
    by (auto simp: without_def split: prod.splits)
next
  case (StoreDeleteFor role ref k)
  then show ?thesis
    using assms delete_for_holds [of s "env_now env" "env_fault env" role ref]
    by (auto simp: without_def split: prod.splits)
qed (use assms in \<open>auto simp: without_def free_retain\<close>)

text \<open>While nobody brings a principal of \<open>B\<close> in, no answer names one.\<close>

definition sys_clean :: "(principal \<Rightarrow> bool) \<Rightarrow> 's session_system \<Rightarrow> bool" where
  "sys_clean B st \<longleftrightarrow> without B (sys_store st) (sys_cache st) \<and> bt_wf (sys_cache st)
     \<and> (\<forall>(q, c)\<in>set (sys_threads st). clean B c)"

lemma step_clean:
  assumes "sys_step ops m st e st'" "sys_clean B st" "\<And>req p. e = Started req \<Longrightarrow> brings req = Some p \<Longrightarrow> \<not> B p"
  shows "sys_clean B st' \<and> (\<forall>t p. e = Answered (ReqLookup t) (Inr (AnsPrincipal p)) \<longrightarrow> \<not> B p)"
  using assms
proof (cases rule: sys_step.cases)
  case (enter req)
  then show ?thesis using assms(2,3) request_clean [of req B m] by (auto simp: sys_clean_def)
next
  case (act ts1 req c ts2 env c' s' k')
  then show ?thesis
    using assms(2) micro_clean [OF act(4), of B] by (auto simp: sys_clean_def)
qed (use assms(2) in \<open>auto simp: sys_clean_def\<close>)

lemma run_clean:
  assumes "sys_run ops m st es st'" "sys_clean B st"
    "\<And>req p. Started req \<in> set es \<Longrightarrow> brings req = Some p \<Longrightarrow> \<not> B p"
  shows "Answered (ReqLookup t) (Inr (AnsPrincipal p)) \<in> set es \<Longrightarrow> \<not> B p"
  using assms
proof (induction rule: sys_run.induct)
  case (sys_next st e st1 es st2)
  then show ?case using step_clean [OF sys_next(1), of B] by (metis list.set_intros set_ConsD)
qed simp

text \<open>How far a revocation has come; it has the lock, and thus the system, to itself.\<close>

definition revoking :: "principal_role \<Rightarrow> string \<Rightarrow> 's session_system \<Rightarrow> session_code \<Rightarrow> bool" where
  "revoking role ref st c \<longleftrightarrow>
     (let free = (\<forall>x\<in>holds (sys_store st). \<not> belongs_to role (trim ref) (session_principal x)) in
      c = session_delete_for_principal role ref
      \<or> (\<exists>n. c = CacheRetain role (trim ref) (Finish (Inr (AnsCount n)))) \<and> free
      \<or> (\<exists>n. c = Finish (Inr (AnsCount n))) \<and> without (belongs_to role (trim ref)) (sys_store st) (sys_cache st)
      \<or> (\<exists>e. c = Finish (Inl e)))"

definition lock_held :: "principal_role \<Rightarrow> string \<Rightarrow> 's session_system \<Rightarrow> bool" where
  "lock_held role ref st \<longleftrightarrow> bt_wf (sys_cache st) \<and>
     (list_all (\<lambda>(q, _). request_lock q = Shared) (sys_threads st) \<or> (\<exists>q c. sys_threads st = [(q, c)])) \<and>
     (\<forall>c. (ReqRevoke role ref, c) \<in> set (sys_threads st) \<longrightarrow> revoking role ref st c)"

lemma retain_without:
  assumes "\<forall>x\<in>holds s. \<not> belongs_to role ref (session_principal x)" "bt_wf c"
  shows "without (belongs_to role ref) s (bt_retain (not_of role ref) c)"
proof -
  have "free_of (belongs_to role ref) (bt_get (bt_retain (not_of role ref) c) t)" for t
    using assms(2) by (auto simp: free_of_def bt_retain_def bt_get_filter not_of_def split: option.splits if_splits)
  then show ?thesis using assms(1) by (simp add: without_def)
qed

lemma micro_wf: "micro ops env c s k = (c', s', k') \<Longrightarrow> bt_wf k \<Longrightarrow> bt_wf k'"
  by (cases c) (auto split: prod.splits)

lemma revoking_micro:
  assumes "revoking role ref st c" "trim ref \<noteq> []" "bt_wf (sys_cache st)"
    "micro ops env c (sys_store st) (sys_cache st) = (c', s', k')"
  shows "revoking role ref \<lparr> sys_store = s', sys_cache = k', sys_threads = ts \<rparr> c'"
proof -
  let ?B = "belongs_to role (trim ref)"
  consider "c = session_delete_for_principal role ref"
    | n where "c = CacheRetain role (trim ref) (Finish (Inr (AnsCount n)))"
      "\<forall>x\<in>holds (sys_store st). \<not> ?B (session_principal x)"
    | n where "c = Finish (Inr (AnsCount n))" "without ?B (sys_store st) (sys_cache st)"
    | e where "c = Finish (Inl e)"
    using assms(1) unfolding revoking_def Let_def by blast
  then show ?thesis
  proof cases
    case 1
    then obtain r where r: "store_delete_for ops (sys_store st) (env_now env) (env_fault env) role (trim ref) = (r, s')"
      "c' = attempt r (\<lambda>n. CacheRetain role (trim ref) (Finish (Inr (AnsCount n))))"
      using assms(2,4) by (auto simp: session_delete_for_principal_def delete_principal_records_def Let_def split: prod.splits)
    then show ?thesis
      using delete_for_all [of "sys_store st" "env_now env" "env_fault env" role "trim ref"] assms(2)
      by (cases r) (auto simp: revoking_def attempt_def)
  next
    case 2
    then show ?thesis using assms(3,4) retain_without by (auto simp: revoking_def)
  qed (use assms(4) in \<open>auto simp: revoking_def\<close>)
qed

lemma held_alone:
  assumes "lock_held role ref st" "sys_threads st = ts1 @ (ReqRevoke role ref, c) # ts2"
  shows "ts1 = []" "ts2 = []" "revoking role ref st c"
  using assms by (auto simp: lock_held_def append_eq_Cons_conv)

lemma step_held:
  assumes step: "sys_step ops m st e st'" and held: "lock_held role ref st" and ref: "trim ref \<noteq> []"
  shows "lock_held role ref st'"
  using step
proof (cases rule: sys_step.cases)
  case (enter req)
  have "lock_held role ref (st \<lparr> sys_threads := sys_threads st @ [(req, request_code m req)] \<rparr>)"
    if "may_enter req (sys_threads st)"
    using that held unfolding lock_held_def may_enter_def revoking_def Let_def
    by (cases "request_lock req") auto
  then show ?thesis using enter by simp
next
  case (act ts1 req c ts2 env c' s' k')
  note wf = micro_wf [OF act(4)]
  show ?thesis
  proof (cases "\<exists>d. (ReqRevoke role ref, d) \<in> set (ts1 @ (req, c') # ts2)")
    case True
    then obtain d where "(ReqRevoke role ref, d) \<in> set (sys_threads st)" using act(3) by auto
    then obtain us vs where "sys_threads st = us @ (ReqRevoke role ref, d) # vs" by (metis split_list)
    then have one: "ts1 = [] \<and> ts2 = [] \<and> req = ReqRevoke role ref \<and> c = d \<and> revoking role ref st d"
      using held_alone [OF held, of us d vs] act(3) by (auto simp: append_eq_Cons_conv)
    then show ?thesis
      using revoking_micro [of role ref st c env c' s' k'] act ref held wf by (auto simp: lock_held_def)
  next
    case False
    then show ?thesis using held act wf by (auto simp: lock_held_def append_eq_Cons_conv)
  qed
qed (use held in \<open>auto simp: lock_held_def revoking_def append_eq_Cons_conv\<close>)

lemma run_held:
  assumes "sys_run ops m st es st'" "lock_held role ref st" "trim ref \<noteq> []"
  shows "lock_held role ref st'"
  using assms by (induction rule: sys_run.induct) (auto intro: step_held)

lemma run_append:
  "sys_run ops m st (es1 @ es2) st' \<longleftrightarrow> (\<exists>st1. sys_run ops m st es1 st1 \<and> sys_run ops m st1 es2 st')"
proof (induction es1 arbitrary: st)
  case Nil
  then show ?case by (auto intro: sys_here elim: sys_run.cases)
next
  case (Cons e es1)
  show ?case
  proof
    assume "sys_run ops m st ((e # es1) @ es2) st'"
    then obtain s where "sys_step ops m st e s" "sys_run ops m s (es1 @ es2) st'" by (auto elim: sys_run.cases)
    then show "\<exists>st1. sys_run ops m st (e # es1) st1 \<and> sys_run ops m st1 es2 st'"
      using Cons.IH by (auto intro: sys_next)
  next
    assume "\<exists>st1. sys_run ops m st (e # es1) st1 \<and> sys_run ops m st1 es2 st'"
    then obtain st1 s where "sys_step ops m st e s" "sys_run ops m s es1 st1" "sys_run ops m st1 es2 st'"
      by (auto elim: sys_run.cases)
    then show "sys_run ops m st ((e # es1) @ es2) st'" using Cons.IH by (auto intro: sys_next)
  qed
qed

lemma revoked_stays_out:
  assumes idle: "sys_threads st = []" "bt_wf (sys_cache st)"
    and run: "sys_run ops m st (es1 @ Answered (ReqRevoke role ref) (Inr (AnsCount n)) # es2) st'"
    and ref: "trim ref \<noteq> []"
    and none: "\<And>req p. Started req \<in> set es2 \<Longrightarrow> brings req = Some p \<Longrightarrow> \<not> belongs_to role (trim ref) p"
    and answer: "Answered (ReqLookup t) (Inr (AnsPrincipal p)) \<in> set es2"
  shows "\<not> belongs_to role (trim ref) p"
proof -
  obtain s1 s2 where s: "sys_run ops m st es1 s1" "sys_step ops m s1 (Answered (ReqRevoke role ref) (Inr (AnsCount n))) s2"
    "sys_run ops m s2 es2 st'"
    using run by (auto simp: run_append elim: sys_run.cases)
  have held: "lock_held role ref s1"
    using run_held [OF s(1) _ ref] idle by (simp add: lock_held_def)
  obtain ts1 ts2 where ts: "sys_threads s1 = ts1 @ (ReqRevoke role ref, Finish (Inr (AnsCount n))) # ts2"
    "s2 = s1 \<lparr> sys_threads := ts1 @ ts2 \<rparr>"
    using s(2) by (auto elim: sys_step.cases)
  have clean: "sys_clean (belongs_to role (trim ref)) s2"
    using held_alone [OF held ts(1)] ts(2) held
    by (auto simp: revoking_def sys_clean_def lock_held_def session_delete_for_principal_def
        delete_principal_records_def Let_def ref)
  show ?thesis by (rule run_clean [OF s(3) clean _ answer]) (rule none)
qed

end

section \<open>Both stores keep the contract\<close>

definition json_holds :: "json_session_state \<Rightarrow> session_record set" where
  "json_holds s = snd ` set (if json_loaded s then json_sessions s
     else case json_file s of None \<Rightarrow> [] | Some f \<Rightarrow> f)"

definition lmdb_holds :: "lmdb_state \<Rightarrow> session_record set" where
  "lmdb_holds s = snd ` set (lmdb_db s)"

lemma json_holds_loaded: "json_loaded s \<Longrightarrow> json_holds s = snd ` set (json_sessions s)"
  by (simp add: json_holds_def)

lemma json_found: "json_loaded s \<Longrightarrow> bt_get (json_sessions s) t = Some x \<Longrightarrow> x \<in> json_holds s"
  by (force simp: json_holds_loaded dest: map_of_SomeD)

lemma loaded_holds:
  "load_if_needed s now fault = (Inr u, s') \<Longrightarrow> json_loaded s' \<and> json_holds s' \<subseteq> json_holds s"
  "load_if_needed s now fault = (Inl e, s') \<Longrightarrow> s' = s"
  by (force simp: load_if_needed_def json_holds_def bt_retain_def bind_outcome_eq_Inr
      split: if_splits option.splits sum.splits)+

lemma loaded_then:
  assumes "json_loaded_then s now fault k = (r, s')"
  obtains e where "r = Inl e" "s' = s"
    | s1 where "json_loaded s1" "json_holds s1 \<subseteq> json_holds s" "k s1 = (r, s')"
proof -
  obtain q s1 where q: "load_if_needed s now fault = (q, s1)" by (metis surj_pair)
  show thesis
    using assms q loaded_holds [of s now fault] that by (cases q) (auto simp: json_loaded_then_def)
qed

lemma save_keeps: "json_save s fault = (r, s') \<Longrightarrow> json_sessions s' = json_sessions s \<and> json_loaded s' = json_loaded s"
  by (auto simp: json_save_def split: option.splits sum.splits)

lemma set_bt_insert_subset: "set (bt_insert k v m) \<subseteq> insert (k, v) (set m)"
  by (induction m) auto

interpretation js: session_contract json_store json_holds
proof
  fix s now fault t r s'
  show "json_holds s' \<subseteq> json_holds s \<and> (\<forall>x l. r = Inr (Some x, l) \<longrightarrow> x \<in> json_holds s)"
    if "store_get json_store s now fault t = (r, s')"
    using that unfolding json_store_def session_store.simps json_get_def
    by (elim loaded_then) (auto dest!: json_found)
next
  fix s now fault t x r s'
  show "json_holds s' \<subseteq> insert x (json_holds s)" if "store_migrate json_store s now fault t x = (r, s')"
    using that by (auto simp: json_store_def)
  show "json_holds s' \<subseteq> insert x (json_holds s)" if "store_put json_store s now fault t x = (r, s')"
    using that unfolding json_store_def session_store.simps json_put_def
    by (elim loaded_then) (use set_bt_insert_subset [of t x] in \<open>fastforce simp: json_holds_loaded dest!: save_keeps\<close>)+
  show "json_holds s' \<subseteq> json_holds s" if "store_delete json_store s now fault t = (r, s')"
    using that unfolding json_store_def session_store.simps json_delete_def
    by (elim loaded_then) (force simp: json_holds_loaded bt_remove_def split: if_splits dest!: save_keeps)+
next
  fix s now fault role ref n s'
  show "json_holds s' \<subseteq> json_holds s" if "store_delete_for json_store s now fault role ref = (n, s')"
    using that unfolding json_store_def session_store.simps json_delete_for_def Let_def
    by (auto split: if_splits prod.splits sum.splits simp: json_holds_loaded bt_retain_def image_subset_iff
        dest!: save_keeps elim!: loaded_then) (metis snd_conv)+
next
  fix s now fault role ref i s' x
  show "\<not> belongs_to role ref (session_principal x)"
    if "store_delete_for json_store s now fault role ref = (Inr i, s')" "trim ref = ref" "ref \<noteq> []" "x \<in> json_holds s'"
    using that unfolding json_store_def session_store.simps json_delete_for_def Let_def
    by (auto split: if_splits prod.splits sum.splits simp: json_holds_loaded bt_retain_def not_of_def dest!: save_keeps elim!: loaded_then)
qed

lemma map_of_mem: "map_of m k = Some x \<Longrightarrow> x \<in> snd ` set m"
  by (force dest: map_of_SomeD)

lemma index_db [simp]:
  "lmdb_db (put_expiry_index key r s) = lmdb_db s" "lmdb_db (delete_expiry_index key r s) = lmdb_db s"
  by (simp_all add: put_expiry_index_def delete_expiry_index_def split: option.split)

lemma db_delete_db [simp]: "lmdb_db (db_delete key s) = bt_remove key (lmdb_db s)"
  by (simp add: db_delete_def)

lemma put_session_db [simp]: "lmdb_db (put_session_in_txn key r s) = bt_insert key r (lmdb_db s)"
  by (simp add: put_session_in_txn_def Let_def split: option.split)

lemma purge_db: "purge_expired_in_txn now s = Inr (n, s') \<Longrightarrow> set (lmdb_db s') \<subseteq> set (lmdb_db s)"
proof -
  have "set (lmdb_db (fold purge_one ks s)) \<subseteq> set (lmdb_db s)" for ks
  proof (induction ks arbitrary: s)
    case (Cons k ks)
    have "set (lmdb_db (purge_one k s)) \<subseteq> set (lmdb_db s)" by (auto simp: purge_one_def Let_def bt_remove_def)
    then show ?case using Cons [of "purge_one k s"] by simp
  qed simp
  then show "purge_expired_in_txn now s = Inr (n, s') \<Longrightarrow> set (lmdb_db s') \<subseteq> set (lmdb_db s)"
    by (auto simp: purge_expired_in_txn_def Let_def bind_outcome_eq_Inr)
qed

lemma delete_matches_db: "lmdb_db (fold delete_match ms s) = filter (\<lambda>e. fst e \<notin> fst ` set ms) (lmdb_db s)"
proof (induction ms arbitrary: s)
  case (Cons m ms)
  have "lmdb_db (delete_match m s) = filter (\<lambda>e. fst e \<noteq> fst m) (lmdb_db s)"
    by (cases m) (simp add: delete_match_def bt_remove_def)
  then show ?case using Cons by (simp add: conj_commute)
qed simp

lemma in_txnD:
  "in_txn s fault body = (r, s') \<Longrightarrow> s' = s \<and> (\<exists>e. r = Inl e) \<or> (\<exists>x. body = Inr (x, s') \<and> r = Inr x)"
  by (auto simp: in_txn_def bind_outcome_eq_Inr split: sum.splits)

lemma insert_holds:
  assumes "purge_expired_in_txn now s = Inr (n, s1)" "set m \<subseteq> set (bt_insert k x (lmdb_db s1))"
  shows "snd ` set m \<subseteq> insert x (snd ` set (lmdb_db s))"
proof -
  have "set m \<subseteq> insert (k, x) (set (lmdb_db s))"
    using assms(2) set_bt_insert_subset [of k x "lmdb_db s1"] purge_db [OF assms(1)] by blast
  from image_mono [OF this, of snd] show ?thesis by simp
qed

lemma lmdb_putD:
  "lmdb_put sha s now fault t x = (r, s') \<Longrightarrow>
     s' = s \<or> (\<exists>n s1. purge_expired_in_txn now s = Inr (n, s1) \<and> s' = put_session_in_txn (session_key sha t) x s1)"
  by (auto simp: lmdb_put_def bind_outcome_eq_Inr dest!: in_txnD)

lemma migrateD:
  "migrate_legacy_record sha s now fault t x = (r, s') \<Longrightarrow>
     s' = s \<or> (\<exists>n s1. purge_expired_in_txn now s = Inr (n, s1)
       \<and> s' = db_delete (as_bytes t) (put_session_in_txn (session_key sha t) x s1))"
  by (auto simp: migrate_legacy_record_def bind_outcome_eq_Inr dest!: in_txnD)

interpretation lm: session_contract "lmdb_store sha" lmdb_holds
proof
  fix s now fault t r s'
  show "lmdb_holds s' \<subseteq> lmdb_holds s \<and> (\<forall>x l. r = Inr (Some x, l) \<longrightarrow> x \<in> lmdb_holds s)"
    if "store_get (lmdb_store sha) s now fault t = (r, s')"
    using that
    by (auto simp: lmdb_store_def lmdb_get_def lmdb_holds_def bind_outcome_eq_Inr split: option.splits dest: map_of_mem)
next
  fix s now fault t x r s'
  show "lmdb_holds s' \<subseteq> insert x (lmdb_holds s)" if "store_put (lmdb_store sha) s now fault t x = (r, s')"
  proof -
    have "s' = s \<or> (\<exists>n s1. purge_expired_in_txn now s = Inr (n, s1) \<and> s' = put_session_in_txn (session_key sha t) x s1)"
      using that lmdb_putD by (simp add: lmdb_store_def)
    then show ?thesis
      unfolding lmdb_holds_def using insert_holds [of now s _ s1 for s1] by (metis order_refl put_session_db subset_insertI)
  qed
  show "lmdb_holds s' \<subseteq> insert x (lmdb_holds s)" if "store_migrate (lmdb_store sha) s now fault t x = (r, s')"
  proof -
    have "s' = s \<or> (\<exists>n s1. purge_expired_in_txn now s = Inr (n, s1)
        \<and> lmdb_db s' = bt_remove (as_bytes t) (bt_insert (session_key sha t) x (lmdb_db s1)))"
      using that migrateD by (fastforce simp: lmdb_store_def)
    then show ?thesis
      unfolding lmdb_holds_def using insert_holds [of now s _ s1 for s1] by (metis bt_remove_def filter_is_subset subset_insertI)
  qed
  show "lmdb_holds s' \<subseteq> lmdb_holds s" if "store_delete (lmdb_store sha) s now fault t = (r, s')"
    using that
    by (auto simp: lmdb_store_def lmdb_delete_def lmdb_holds_def Let_def bt_remove_def split: option.splits dest!: in_txnD)
next
  fix s now fault role ref n s'
  show "lmdb_holds s' \<subseteq> lmdb_holds s" if "store_delete_for (lmdb_store sha) s now fault role ref = (n, s')"
    using that
    by (auto simp: lmdb_store_def lmdb_delete_for_def lmdb_holds_def Let_def delete_matches_db split: if_splits dest!: in_txnD)
next
  fix s now fault role ref i s' x
  show "\<not> belongs_to role ref (session_principal x)"
    if "store_delete_for (lmdb_store sha) s now fault role ref = (Inr i, s')" "trim ref = ref" "ref \<noteq> []" "x \<in> lmdb_holds s'"
    using that
    by (auto simp: lmdb_store_def lmdb_delete_for_def lmdb_holds_def Let_def delete_matches_db image_iff dest!: in_txnD)
qed

end
