(* ===== verification/Session_Refinement.thy ===== *)
theory Session_Refinement
  imports Session_Spec Session_Keys Session_Laws
begin

text \<open>
  Both session stores do what the manager relies on, so that the manager over either of them refines
  the map of sessions; and the properties of the component.
\<close>

section \<open>The JSON store\<close>

definition json_inv :: "json_session_state \<Rightarrow> bool" where
  "json_inv s \<longleftrightarrow> bt_wf (json_sessions s) \<and> (\<forall>f. json_file s = Some f \<longrightarrow> bt_wf f)"

definition json_look :: "json_session_state \<Rightarrow> session_map" where
  "json_look s = bt_get (if json_loaded s then json_sessions s
     else case json_file s of None \<Rightarrow> [] | Some f \<Rightarrow> f)"

lemma kept_unexpired: "bt_wf f \<Longrightarrow> kept T now (bt_get f) (bt_get (bt_retain (\<lambda>_ r. \<not> is_expired r now) f))"
  by (fastforce simp: kept_def bt_retain_def bt_get_filter is_expired_def split: option.splits)

lemma json_load:
  assumes "json_inv s"
  shows "\<exists>s'. load_if_needed s now None = (Inr (), s') \<and> json_loaded s' \<and> json_inv s'
    \<and> kept T now (json_look s) (json_look s')"
proof (cases "json_loaded s")
  case True
  then show ?thesis using assms by (simp add: load_if_needed_def)
next
  case False
  define f where "f = (case json_file s of None \<Rightarrow> [] | Some f \<Rightarrow> f)"
  have f: "bt_wf f" "json_look s = bt_get f"
    using assms False by (auto simp: f_def json_inv_def json_look_def split: option.split)
  have "load_if_needed s now None =
      (Inr (), s \<lparr> json_loaded := True, json_sessions := bt_retain (\<lambda>_ r. \<not> is_expired r now) f \<rparr>)"
    using False by (cases "json_file s") (simp_all add: load_if_needed_def f_def)
  then show ?thesis using f assms kept_unexpired [OF f(1)] by (auto simp: json_inv_def json_look_def)
qed

lemma json_save_ok: "\<exists>s'. json_save s None = (Inr (), s') \<and> json_sessions s' = json_sessions s \<and> json_loaded s' = json_loaded s
    \<and> (bt_wf (json_sessions s) \<longrightarrow> json_inv s \<longrightarrow> json_inv s')"
  by (auto simp: json_save_def json_inv_def split: option.split)

lemma json_change:
  assumes "json_inv s"
    and k: "\<And>s1. json_loaded s1 \<Longrightarrow> json_inv s1 \<Longrightarrow>
      \<exists>n s'. k s1 = (Inr n, s') \<and> json_loaded s' \<and> json_inv s' \<and> bt_get (json_sessions s') = h (bt_get (json_sessions s1))"
    and h: "\<And>f f'. kept T now f f' \<Longrightarrow> kept T now (h f) (h f')"
  shows "\<exists>n s'. json_loaded_then s now None k = (Inr n, s') \<and> json_inv s' \<and> kept T now (h (json_look s)) (json_look s')"
proof -
  obtain s1 where s1: "load_if_needed s now None = (Inr (), s1)" "json_loaded s1" "json_inv s1"
    "kept T now (json_look s) (json_look s1)"
    using json_load [OF assms(1)] by blast
  obtain n s' where s': "k s1 = (Inr n, s')" "json_loaded s'" "json_inv s'"
    "bt_get (json_sessions s') = h (bt_get (json_sessions s1))"
    using k [OF s1(2,3)] by blast
  show ?thesis using s1 s' h [OF s1(4)] by (auto simp: json_loaded_then_def json_look_def)
qed

interpretation jr: session_lookup json_store T json_inv json_look "\<lambda>_ _. False" "\<lambda>_. True" L for T L
proof
  fix s :: json_session_state and t now
  assume s: "json_inv s"
  show "\<exists>x l s'. store_get json_store s now None t = (Inr (x, l), s') \<and> json_inv s' \<and> kept T now (json_look s) (json_look s')
      \<and> x = json_look s' t \<and> (False \<longleftrightarrow> l \<and> x \<noteq> None) \<and> (\<forall>u\<in>set T. False \<longrightarrow> False)"
  proof -
    obtain s' where s': "load_if_needed s now None = (Inr (), s')" "json_loaded s'" "json_inv s'"
      "kept T now (json_look s) (json_look s')"
      using json_load [OF s] by blast
    then have "store_get json_store s now None t = (Inr (json_look s' t, False), s')"
      by (simp add: json_store_def json_get_def json_loaded_then_def json_look_def)
    then show ?thesis using s' by auto
  qed
  show "\<exists>s'. store_put json_store s now None t r = (Inr (), s') \<and> json_inv s'
      \<and> kept T now ((json_look s)(t \<mapsto> r)) (json_look s') \<and> (\<forall>u\<in>set T. False \<longrightarrow> False)" for r
  proof -
    have "\<exists>n s'. json_loaded_then s now None (\<lambda>s. json_save (s \<lparr> json_sessions := bt_insert t r (json_sessions s) \<rparr>) None)
        = (Inr n, s') \<and> json_inv s' \<and> kept T now ((json_look s)(t \<mapsto> r)) (json_look s')"
    proof (rule json_change [OF s])
      fix s1 assume s1: "json_loaded s1" "json_inv s1"
      then show "\<exists>n s'. json_save (s1 \<lparr> json_sessions := bt_insert t r (json_sessions s1) \<rparr>) None = (Inr n, s')
          \<and> json_loaded s' \<and> json_inv s' \<and> bt_get (json_sessions s') = (bt_get (json_sessions s1))(t \<mapsto> r)"
        using json_save_ok [of "s1 \<lparr> json_sessions := bt_insert t r (json_sessions s1) \<rparr>"] by (auto simp: json_inv_def)
    qed (rule kept_upd)
    then show ?thesis by (simp add: json_store_def json_put_def)
  qed
  show "\<exists>s'. store_delete json_store s now None t = (Inr (), s') \<and> json_inv s'
      \<and> kept T now ((json_look s)(t := None)) (json_look s') \<and> (\<forall>u\<in>set T. False \<longrightarrow> False)"
  proof -
    let ?k = "\<lambda>s. if bt_get (json_sessions s) t = None then (Inr (), s)
      else json_save (s \<lparr> json_sessions := bt_remove t (json_sessions s) \<rparr>) None"
    have "\<exists>n s'. json_loaded_then s now None ?k = (Inr n, s') \<and> json_inv s'
        \<and> kept T now ((json_look s)(t := None)) (json_look s')"
    proof (rule json_change [OF s])
      fix s1 assume s1: "json_loaded s1" "json_inv s1"
      then show "\<exists>n s'. ?k s1 = (Inr n, s')
          \<and> json_loaded s' \<and> json_inv s' \<and> bt_get (json_sessions s') = (bt_get (json_sessions s1))(t := None)"
        using json_save_ok [of "s1 \<lparr> json_sessions := bt_remove t (json_sessions s1) \<rparr>"]
        by (auto simp: json_inv_def fun_upd_idem)
    qed (rule kept_upd)
    then show ?thesis by (simp add: json_store_def json_delete_def)
  qed
next
  fix s now ref role
  assume s: "json_inv s" and ref: "trim ref = ref" "ref \<noteq> []"
  let ?rest = "\<lambda>s. bt_retain (not_of role ref) (json_sessions s)"
  let ?n = "\<lambda>s. length (json_sessions s) - length (json_sessions (s \<lparr> json_sessions := ?rest s \<rparr>))"
  let ?k = "\<lambda>s. if 0 < ?n s
    then (case json_save (s \<lparr> json_sessions := ?rest s \<rparr>) None of (Inl e, s') \<Rightarrow> (Inl e, s') | (Inr _, s') \<Rightarrow> (Inr (?n s), s'))
    else (Inr (?n s), s \<lparr> json_sessions := ?rest s \<rparr>)"
  have "\<exists>n s'. json_loaded_then s now None ?k = (Inr n, s') \<and> json_inv s'
      \<and> kept T now (revoked role ref (json_look s)) (json_look s')"
  proof (rule json_change [OF s])
    fix s1 assume s1: "json_loaded s1" "json_inv s1"
    have "bt_get (?rest s1) = revoked role ref (bt_get (json_sessions s1))"
      using s1(2) ref(2)
      by (auto simp: json_inv_def bt_retain_def bt_get_filter revoked_def not_of_def fun_eq_iff split: option.split)
    then show "\<exists>n s'. ?k s1 = (Inr n, s')
        \<and> json_loaded s' \<and> json_inv s' \<and> bt_get (json_sessions s') = revoked role ref (bt_get (json_sessions s1))"
      using json_save_ok [of "s1 \<lparr> json_sessions := ?rest s1 \<rparr>"] s1 by (auto simp: json_inv_def)
  qed (rule kept_revoked)
  then show "\<exists>n s'. store_delete_for json_store s now None role ref = (Inr n, s') \<and> json_inv s'
      \<and> kept T now (revoked role ref (json_look s)) (json_look s') \<and> (\<forall>u\<in>set T. False \<longrightarrow> False)"
    unfolding json_store_def session_store.simps json_delete_for_def Let_def ref(1) using ref(2) by simp
qed simp

section \<open>Keys\<close>

lemma unat_char_bytes:
  "map unat (char_bytes c) = (if code_of c < 128 then [code_of c] else [192 + code_of c div 64, 128 + code_of c mod 64])"
proof -
  have "code_of c < 256" "192 + code_of c div 64 < 256" "128 + code_of c mod 64 < 256"
    using nat_of_char_less_256 [of c] by linarith+
  then show ?thesis
    unfolding char_bytes_def Let_def by (simp del: of_nat_add add: unsigned_of_nat take_bit_nat_eq_self)
qed

lemma char_bytes_append:
  assumes "char_bytes c @ xs = char_bytes d @ ys"
  shows "c = d \<and> xs = ys"
proof -
  have *: "map unat (char_bytes c) @ map unat xs = map unat (char_bytes d) @ map unat ys"
    using assms by (metis map_append)
  have same: "code_of c = code_of d" if "code_of c div 64 = code_of d div 64" "code_of c mod 64 = code_of d mod 64"
    using that by (metis div_mult_mod_eq)
  have "code_of c = code_of d"
    using * same unfolding unat_char_bytes by (auto split: if_splits)
  then have "c = d" by simp
  then show ?thesis using assms by simp
qed

lemma as_bytes_eq [simp]: "as_bytes s = as_bytes t \<longleftrightarrow> s = t"
proof
  show "as_bytes s = as_bytes t \<Longrightarrow> s = t"
  proof (induction s arbitrary: t)
    case Nil
    then show ?case by (cases t) (simp_all add: as_bytes_def char_bytes_def Let_def split: if_splits)
  next
    case (Cons c s)
    then obtain d u where t: "t = d # u" by (cases t) (auto simp: as_bytes_def char_bytes_def Let_def split: if_splits)
    then have "char_bytes c @ as_bytes s = char_bytes d @ as_bytes u" using Cons.prems by (simp add: as_bytes_def)
    then show ?case using char_bytes_append Cons.IH t by blast
  qed
qed simp

text \<open>
  What is relied on of the digest: on the tokens in use it gives 32 bytes, no two of them the same,
  and none of them a token.
\<close>

definition digest_ok :: "(byte list \<Rightarrow> byte list) \<Rightarrow> string list \<Rightarrow> bool" where
  "digest_ok sha T \<longleftrightarrow>
     (\<forall>t\<in>set T. length (session_key sha t) = 32) \<and> inj_on (session_key sha) (set T) \<and>
     (\<forall>t\<in>set T. \<forall>u\<in>set T. session_key sha t \<noteq> as_bytes u)"

section \<open>The LMDB store\<close>

text \<open>
  The index holds keys of records that are there and expire when it says; every key of the database is
  that of a token, hashed or in the old form, and never in both.
\<close>

definition index_entry :: "(byte list \<Rightarrow> byte list) \<Rightarrow> string list \<Rightarrow> lmdb_state \<Rightarrow> byte list \<Rightarrow> bool" where
  "index_entry sha T s x \<longleftrightarrow>
     (\<exists>t\<in>set T. \<exists>r e. bt_get (lmdb_db s) (session_key sha t) = Some r \<and> session_expires_at r = Some e
       \<and> x = expiry_key_encode \<lparr> expires_at_nanos = e, expiry_session_key = session_key sha t \<rparr>)"

definition lmdb_inv :: "(byte list \<Rightarrow> byte list) \<Rightarrow> string list \<Rightarrow> lmdb_state \<Rightarrow> bool" where
  "lmdb_inv sha T s \<longleftrightarrow>
     digest_ok sha T \<and> bt_wf (lmdb_db s) \<and> (\<forall>x\<in>set (lmdb_expires s). index_entry sha T s x) \<and>
     (\<forall>k r. bt_get (lmdb_db s) k = Some r \<longrightarrow>
       k \<in> session_key sha ` set T \<union> as_bytes ` set T \<and> (\<forall>e. session_expires_at r = Some e \<longrightarrow> in_i128 e)) \<and>
     (\<forall>t\<in>set T. bt_get (lmdb_db s) (session_key sha t) \<noteq> None \<longrightarrow> bt_get (lmdb_db s) (as_bytes t) = None)"

definition lmdb_look :: "(byte list \<Rightarrow> byte list) \<Rightarrow> lmdb_state \<Rightarrow> session_map" where
  "lmdb_look sha s t =
     (case bt_get (lmdb_db s) (session_key sha t) of Some r \<Rightarrow> Some r | None \<Rightarrow> bt_get (lmdb_db s) (as_bytes t))"

definition lmdb_legacy :: "lmdb_state \<Rightarrow> string \<Rightarrow> bool" where
  "lmdb_legacy s t \<longleftrightarrow> bt_get (lmdb_db s) (as_bytes t) \<noteq> None"

lemma digest_okD:
  assumes "digest_ok sha T" "t \<in> set T" "u \<in> set T"
  shows "length (session_key sha t) = 32" "session_key sha t = session_key sha u \<longleftrightarrow> t = u"
    "session_key sha t \<noteq> as_bytes u" "as_bytes u \<noteq> session_key sha t"
  using assms unfolding digest_ok_def inj_on_def by metis+

lemma lmdb_invD:
  assumes "lmdb_inv sha T s"
  shows "digest_ok sha T" "bt_wf (lmdb_db s)" "\<And>x. x \<in> set (lmdb_expires s) \<Longrightarrow> index_entry sha T s x"
    "\<And>k r. bt_get (lmdb_db s) k = Some r \<Longrightarrow> k \<in> session_key sha ` set T \<union> as_bytes ` set T"
    "\<And>k r e. bt_get (lmdb_db s) k = Some r \<Longrightarrow> session_expires_at r = Some e \<Longrightarrow> in_i128 e"
    "\<And>t. t \<in> set T \<Longrightarrow> bt_get (lmdb_db s) (session_key sha t) \<noteq> None \<Longrightarrow> bt_get (lmdb_db s) (as_bytes t) = None"
  using assms unfolding lmdb_inv_def by blast+

text \<open>A smaller database, with an index that has no entries left of what was removed.\<close>

lemma lmdb_inv_shrink:
  assumes s: "lmdb_inv sha T s" and db: "lmdb_db s' = filter P (lmdb_db s)"
    and index: "set (lmdb_expires s') \<subseteq> set (lmdb_expires s)"
    and gone: "\<And>t r e. t \<in> set T \<Longrightarrow> bt_get (lmdb_db s) (session_key sha t) = Some r \<Longrightarrow> session_expires_at r = Some e \<Longrightarrow>
      expiry_key_encode \<lparr> expires_at_nanos = e, expiry_session_key = session_key sha t \<rparr> \<in> set (lmdb_expires s') \<Longrightarrow>
      P (session_key sha t, r)"
  shows "lmdb_inv sha T s'"
proof -
  note d = lmdb_invD [OF s]
  have get: "bt_get (lmdb_db s') k = Some r \<longleftrightarrow> bt_get (lmdb_db s) k = Some r \<and> P (k, r)" for k r
    unfolding db bt_get_filter [OF d(2)] by (auto split: option.split)
  have "index_entry sha T s' x" if x: "x \<in> set (lmdb_expires s')" for x
  proof -
    obtain t r e where "t \<in> set T" "bt_get (lmdb_db s) (session_key sha t) = Some r" "session_expires_at r = Some e"
      "x = expiry_key_encode \<lparr> expires_at_nanos = e, expiry_session_key = session_key sha t \<rparr>"
      using d(3) [of x] x index unfolding index_entry_def by blast
    then show ?thesis using gone x get unfolding index_entry_def by blast
  qed
  moreover have "bt_get (lmdb_db s') (as_bytes t) = None"
    if "t \<in> set T" "bt_get (lmdb_db s') (session_key sha t) \<noteq> None" for t
    using d(6) [OF that(1)] that(2) get by (metis not_Some_eq)
  ultimately show ?thesis
    using d(1,4,5) get bt_wf_filter [OF d(2)] unfolding lmdb_inv_def db by (metis (no_types, lifting))
qed

lemma look_shrink:
  assumes s: "lmdb_inv sha T s" and db: "lmdb_db s' = filter P (lmdb_db s)" and t: "t \<in> set T"
  shows "lmdb_look sha s' t = (case lmdb_look sha s t of
      None \<Rightarrow> None
    | Some r \<Rightarrow> if bt_get (lmdb_db s) (session_key sha t) \<noteq> None \<and> P (session_key sha t, r)
        \<or> bt_get (lmdb_db s) (session_key sha t) = None \<and> P (as_bytes t, r) then Some r else None)"
    "lmdb_legacy s' t \<Longrightarrow> lmdb_legacy s t"
  using lmdb_invD(6) [OF s t] unfolding lmdb_look_def lmdb_legacy_def db bt_get_filter [OF lmdb_invD(2) [OF s]]
  by (auto split: option.splits if_splits)

lemma purge_ones:
  "lmdb_db (fold purge_one ks s) = filter (\<lambda>e. fst e \<notin> expiry_session_key ` set ks) (lmdb_db s)"
  "lmdb_expires (fold purge_one ks s) = filter (\<lambda>x. x \<notin> expiry_key_encode ` set ks) (lmdb_expires s)"
  by (induction ks arbitrary: s) (simp_all add: purge_one_def Let_def db_delete_def bt_remove_def conj_commute)

text \<open>An entry of the index can be read, and comes before the bound of an instant if it expires by then.\<close>

lemma index_key:
  assumes s: "lmdb_inv sha T s" and now: "in_i128 now" and x: "x \<in> set (lmdb_expires s)"
  shows "\<exists>k. expiry_key_decode x = Inr k \<and> (\<exists>t\<in>set T. expiry_session_key k = session_key sha t
      \<and> (\<exists>r. bt_get (lmdb_db s) (session_key sha t) = Some r \<and> session_expires_at r = Some (expires_at_nanos k)))
      \<and> (x \<le> expiry_key_encode \<lparr> expires_at_nanos = now, expiry_session_key = replicate 32 255 \<rparr>
          \<longleftrightarrow> expires_at_nanos k \<le> now)"
proof -
  note d = lmdb_invD [OF s]
  obtain t r e where t: "t \<in> set T" "bt_get (lmdb_db s) (session_key sha t) = Some r" "session_expires_at r = Some e"
    "x = expiry_key_encode \<lparr> expires_at_nanos = e, expiry_session_key = session_key sha t \<rparr>"
    using d(3) [OF x] unfolding index_entry_def by blast
  let ?k = "\<lparr> expires_at_nanos = e, expiry_session_key = session_key sha t \<rparr>"
  have fits: "in_i128 (expires_at_nanos ?k)" "length (expiry_session_key ?k) = 32"
    using d(5) [OF t(2,3)] digest_okD(1) [OF d(1) t(1,1)] by simp_all
  show ?thesis
    unfolding t(4) using decode_encode_key [OF fits] encode_key_upper [OF fits(1) now fits(2)] t(1-3)
    by (intro exI [of _ ?k]) auto
qed

lemma purged_keys:
  assumes s: "lmdb_inv sha T s" and now: "in_i128 now"
  obtains ks where "purge_expired_in_txn now s = Inr (length ks, fold purge_one ks s)"
    "\<And>k. k \<in> set ks \<Longrightarrow> expires_at_nanos k \<le> now \<and> (\<exists>t\<in>set T. expiry_session_key k = session_key sha t
      \<and> (\<exists>r. bt_get (lmdb_db s) (session_key sha t) = Some r \<and> session_expires_at r = Some (expires_at_nanos k)))"
proof -
  let ?upper = "expiry_key_encode \<lparr> expires_at_nanos = now, expiry_session_key = replicate 32 255 \<rparr>"
  let ?xs = "filter (\<lambda>x. x \<le> ?upper) (lmdb_expires s)"
  have "\<forall>x\<in>set ?xs. \<exists>k. expiry_key_decode x = Inr k" using index_key [OF s now] by fastforce
  then obtain key where key: "\<And>x. x \<in> set ?xs \<Longrightarrow> expiry_key_decode x = Inr (key x)" by metis
  have "map_outcome expiry_key_decode ?xs = Inr (map key ?xs)"
    unfolding map_outcome_Inr_iff list.rel_map using key by (intro list.rel_refl_strong)
  then have "purge_expired_in_txn now s = Inr (length (map key ?xs), fold purge_one (map key ?xs) s)"
    by (simp add: purge_expired_in_txn_def)
  then show thesis
  proof (rule that)
    fix k assume "k \<in> set (map key ?xs)"
    then obtain x where "x \<in> set ?xs" "k = key x" by auto
    then show "expires_at_nanos k \<le> now \<and> (\<exists>t\<in>set T. expiry_session_key k = session_key sha t
        \<and> (\<exists>r. bt_get (lmdb_db s) (session_key sha t) = Some r \<and> session_expires_at r = Some (expires_at_nanos k)))"
      using index_key [OF s now, of x] key [of x] by auto
  qed
qed

lemma purge_ok:
  assumes s: "lmdb_inv sha T s" and now: "in_i128 now"
  shows "\<exists>n s'. purge_expired_in_txn now s = Inr (n, s') \<and> lmdb_inv sha T s'
    \<and> kept T now (lmdb_look sha s) (lmdb_look sha s') \<and> (\<forall>u\<in>set T. lmdb_legacy s' u \<longleftrightarrow> lmdb_legacy s u)"
proof -
  note d = lmdb_invD [OF s]
  obtain ks where purge: "purge_expired_in_txn now s = Inr (length ks, fold purge_one ks s)"
    and expired: "\<And>k. k \<in> set ks \<Longrightarrow> expires_at_nanos k \<le> now \<and> (\<exists>t\<in>set T. expiry_session_key k = session_key sha t
      \<and> (\<exists>r. bt_get (lmdb_db s) (session_key sha t) = Some r \<and> session_expires_at r = Some (expires_at_nanos k)))"
    using purged_keys [OF s now] by blast
  have raw: "as_bytes u \<notin> expiry_session_key ` set ks" if "u \<in> set T" for u
    using expired that digest_okD(3) [OF d(1)] by (metis imageE)
  let ?s' = "fold purge_one ks s"
  have "lmdb_inv sha T ?s'"
  proof (rule lmdb_inv_shrink [OF s purge_ones(1)])
    show "set (lmdb_expires ?s') \<subseteq> set (lmdb_expires s)" by (auto simp: purge_ones(2))
    fix t r e
    assume t: "t \<in> set T" "bt_get (lmdb_db s) (session_key sha t) = Some r" "session_expires_at r = Some e"
      and left: "expiry_key_encode \<lparr> expires_at_nanos = e, expiry_session_key = session_key sha t \<rparr> \<in> set (lmdb_expires ?s')"
    show "fst (session_key sha t, r) \<notin> expiry_session_key ` set ks"
    proof
      assume "fst (session_key sha t, r) \<in> expiry_session_key ` set ks"
      then obtain k where k: "k \<in> set ks" "expiry_session_key k = session_key sha t" by auto
      then have "k = \<lparr> expires_at_nanos = e, expiry_session_key = session_key sha t \<rparr>"
        using expired [OF k(1)] t by auto
      then show False using k(1) left by (auto simp: purge_ones(2))
    qed
  qed
  moreover have "kept T now (lmdb_look sha s) (lmdb_look sha ?s')"
    unfolding kept_def
  proof
    fix u assume u: "u \<in> set T"
    have "\<exists>r e. lmdb_look sha s u = Some r \<and> session_expires_at r = Some e \<and> e \<le> now"
      if mem: "session_key sha u \<in> expiry_session_key ` set ks"
    proof -
      obtain k where "k \<in> set ks" "expiry_session_key k = session_key sha u" using mem by auto
      then show ?thesis using expired [of k] by (auto simp: lmdb_look_def)
    qed
    then show "lmdb_look sha ?s' u = lmdb_look sha s u
        \<or> lmdb_look sha ?s' u = None \<and> (\<exists>r e. lmdb_look sha s u = Some r \<and> session_expires_at r = Some e \<and> e \<le> now)"
      using raw [OF u] look_shrink(1) [OF s purge_ones(1) u, of ks] by (auto split: option.splits)
  qed
  moreover have "lmdb_legacy ?s' u \<longleftrightarrow> lmdb_legacy s u" if u: "u \<in> set T" for u
    using raw [OF u] unfolding lmdb_legacy_def purge_ones(1) bt_get_filter [OF d(2)] by (auto split: option.splits)
  ultimately show ?thesis using purge by blast
qed

lemma index_changes:
  "set (lmdb_expires (put_expiry_index key r s)) = set (lmdb_expires s) \<union> set_option (expiry_entry key r)"
  "set (lmdb_expires (delete_expiry_index key r s)) = set (lmdb_expires s) - set_option (expiry_entry key r)"
  by (auto simp: put_expiry_index_def delete_expiry_index_def set_bs_insert split: option.split)

lemma put_index:
  "set (lmdb_expires (put_session_in_txn key r s)) =
     (set (lmdb_expires s) - (case bt_get (lmdb_db s) key of None \<Rightarrow> {} | Some p \<Rightarrow> set_option (expiry_entry key p)))
     \<union> set_option (expiry_entry key r)"
  by (simp add: put_session_in_txn_def Let_def index_changes split: option.split)

text \<open>The entry of a record under a key; the entries of two keys of tokens differ.\<close>

lemma entry_is: "expiry_entry key r = Some x \<longleftrightarrow>
    (\<exists>e. session_expires_at r = Some e \<and> x = expiry_key_encode \<lparr> expires_at_nanos = e, expiry_session_key = key \<rparr>)"
  by (auto simp: expiry_entry_def)

lemma put_ok:
  assumes s: "lmdb_inv sha T s" and t: "t \<in> set T" "\<not> lmdb_legacy s t"
    and r: "\<forall>e. session_expires_at r = Some e \<longrightarrow> in_i128 e"
  defines "s' \<equiv> put_session_in_txn (session_key sha t) r s"
  shows "lmdb_inv sha T s'" "\<And>u. u \<in> set T \<Longrightarrow> lmdb_look sha s' u = ((lmdb_look sha s)(t \<mapsto> r)) u"
    "\<And>u. u \<in> set T \<Longrightarrow> lmdb_legacy s' u \<longleftrightarrow> lmdb_legacy s u"
proof -
  note d = lmdb_invD [OF s]
  note k = digest_okD [OF d(1)]
  have db: "bt_get (lmdb_db s') = (bt_get (lmdb_db s))(session_key sha t \<mapsto> r)"
    by (simp add: s'_def fun_eq_iff)
  have "index_entry sha T s' x" if x: "x \<in> set (lmdb_expires s')" for x
  proof (cases "expiry_entry (session_key sha t) r = Some x")
    case True
    then show ?thesis using t(1) db unfolding entry_is index_entry_def by auto
  next
    case False
    then have x: "x \<in> set (lmdb_expires s)"
      "\<And>p. bt_get (lmdb_db s) (session_key sha t) = Some p \<Longrightarrow> expiry_entry (session_key sha t) p \<noteq> Some x"
      using x unfolding s'_def put_index by (auto split: option.splits)
    obtain u q e where u: "u \<in> set T" "bt_get (lmdb_db s) (session_key sha u) = Some q" "session_expires_at q = Some e"
      "x = expiry_key_encode \<lparr> expires_at_nanos = e, expiry_session_key = session_key sha u \<rparr>"
      using d(3) [OF x(1)] unfolding index_entry_def by blast
    have "session_key sha u \<noteq> session_key sha t" using x(2) u(2-4) unfolding entry_is by metis
    then show ?thesis using u db unfolding index_entry_def by (metis fun_upd_other)
  qed
  moreover have "bt_get (lmdb_db s') (as_bytes u) = None"
    if "u \<in> set T" "bt_get (lmdb_db s') (session_key sha u) \<noteq> None" for u
    using that d(6) [OF that(1)] db k(2) [OF that(1) t(1)] k(4) [OF t(1) that(1)] t(2)
    by (cases "u = t") (auto simp: lmdb_legacy_def)
  moreover have "bt_wf (lmdb_db s')" using d(2) by (auto simp: s'_def)
  ultimately show "lmdb_inv sha T s'"
    using d(1,4,5) t(1) r unfolding lmdb_inv_def db by (auto split: if_splits)
  show "lmdb_look sha s' u = ((lmdb_look sha s)(t \<mapsto> r)) u" if "u \<in> set T" for u
    using that k(2) [OF that t(1)] k(4) [OF t(1) that] unfolding lmdb_look_def db by (auto split: option.split)
  show "lmdb_legacy s' u \<longleftrightarrow> lmdb_legacy s u" if "u \<in> set T" for u
    using k(4) [OF t(1) that] unfolding lmdb_legacy_def db by auto
qed

lemma drop_raw_ok:
  assumes s: "lmdb_inv sha T s" and t: "t \<in> set T"
  defines "s' \<equiv> db_delete (as_bytes t) s"
  shows "lmdb_inv sha T s'" "\<not> lmdb_legacy s' t"
    "\<And>u. u \<in> set T \<Longrightarrow> lmdb_look sha s' u = (if u = t \<and> lmdb_legacy s t then None else lmdb_look sha s u)"
    "\<And>u. u \<in> set T \<Longrightarrow> u \<noteq> t \<Longrightarrow> lmdb_legacy s' u \<longleftrightarrow> lmdb_legacy s u"
proof -
  note d = lmdb_invD [OF s]
  note k = digest_okD [OF d(1)]
  have db: "lmdb_db s' = filter (\<lambda>e. fst e \<noteq> as_bytes t) (lmdb_db s)" "lmdb_expires s' = lmdb_expires s"
    by (simp_all add: s'_def db_delete_def bt_remove_def)
  have get: "bt_get (lmdb_db s') = (bt_get (lmdb_db s))(as_bytes t := None)" by (simp add: s'_def fun_eq_iff)
  show "lmdb_inv sha T s'" by (rule lmdb_inv_shrink [OF s db(1)]) (use db(2) k(3) t in auto)
  show "\<not> lmdb_legacy s' t" by (simp add: lmdb_legacy_def get)
  show "lmdb_look sha s' u = (if u = t \<and> lmdb_legacy s t then None else lmdb_look sha s u)" if "u \<in> set T" for u
    using k(3) [OF that t] d(6) [OF that] unfolding lmdb_look_def lmdb_legacy_def get by (auto split: option.split)
  show "lmdb_legacy s' u \<longleftrightarrow> lmdb_legacy s u" if "u \<in> set T" "u \<noteq> t" for u
    using that by (simp add: lmdb_legacy_def get)
qed

lemma drop_hashed_ok:
  assumes s: "lmdb_inv sha T s" and t: "t \<in> set T"
  defines "s' \<equiv> db_delete (session_key sha t)
    (case bt_get (lmdb_db s) (session_key sha t) of None \<Rightarrow> s | Some p \<Rightarrow> delete_expiry_index (session_key sha t) p s)"
  shows "lmdb_inv sha T s'"
    "\<And>u. u \<in> set T \<Longrightarrow> lmdb_look sha s' u = (if u = t \<and> \<not> lmdb_legacy s t then None else lmdb_look sha s u)"
    "\<And>u. u \<in> set T \<Longrightarrow> lmdb_legacy s' u \<longleftrightarrow> lmdb_legacy s u"
proof -
  note d = lmdb_invD [OF s]
  note k = digest_okD [OF d(1)]
  have db: "lmdb_db s' = filter (\<lambda>e. fst e \<noteq> session_key sha t) (lmdb_db s)"
    by (simp add: s'_def bt_remove_def split: option.split)
  have ex: "set (lmdb_expires s') = set (lmdb_expires s) -
      (case bt_get (lmdb_db s) (session_key sha t) of None \<Rightarrow> {} | Some p \<Rightarrow> set_option (expiry_entry (session_key sha t) p))"
    by (simp add: s'_def db_delete_def index_changes split: option.split)
  have get: "bt_get (lmdb_db s') = (bt_get (lmdb_db s))(session_key sha t := None)"
    by (simp add: s'_def fun_eq_iff split: option.split)
  show "lmdb_inv sha T s'"
  proof (rule lmdb_inv_shrink [OF s db])
    fix u r e
    assume "u \<in> set T" "bt_get (lmdb_db s) (session_key sha u) = Some r" "session_expires_at r = Some e"
      "expiry_key_encode \<lparr> expires_at_nanos = e, expiry_session_key = session_key sha u \<rparr> \<in> set (lmdb_expires s')"
    then show "fst (session_key sha u, r) \<noteq> session_key sha t"
      unfolding ex by (auto simp: expiry_entry_def split: option.splits)
  qed (auto simp: ex)
  show "lmdb_look sha s' u = (if u = t \<and> \<not> lmdb_legacy s t then None else lmdb_look sha s u)" if "u \<in> set T" for u
    using k(2) [OF that t] k(3) [OF t that] d(6) [OF t] unfolding lmdb_look_def lmdb_legacy_def get
    by (auto split: option.split)
  show "lmdb_legacy s' u \<longleftrightarrow> lmdb_legacy s u" if "u \<in> set T" for u
    using k(4) [OF t that] by (simp add: lmdb_legacy_def get)
qed

lemma matches_index:
  "set (lmdb_expires (fold delete_match ms s)) =
     {x \<in> set (lmdb_expires s). \<forall>(k, r)\<in>set ms. length k = 32 \<longrightarrow> expiry_entry k r \<noteq> Some x}"
proof (induction ms arbitrary: s)
  case (Cons m ms)
  obtain k r where m: "m = (k, r)" by (cases m)
  have "set (lmdb_expires (delete_match m s)) =
      {x \<in> set (lmdb_expires s). length k = 32 \<longrightarrow> expiry_entry k r \<noteq> Some x}"
    by (auto simp: m delete_match_def db_delete_def index_changes)
  then show ?case using Cons by (auto simp: m)
qed simp

lemma delete_for_ok:
  fixes role :: principal_role
  assumes s: "lmdb_inv sha T s" and ref: "ref \<noteq> []"
  defines "ms \<equiv> filter (\<lambda>(_, r). belongs_to role ref (session_principal r)) (lmdb_db s)"
  defines "s' \<equiv> fold delete_match ms s"
  shows "lmdb_inv sha T s'" "\<And>u. u \<in> set T \<Longrightarrow> lmdb_look sha s' u = revoked role ref (lmdb_look sha s) u"
    "\<And>u. u \<in> set T \<Longrightarrow> lmdb_legacy s' u \<Longrightarrow> lmdb_legacy s u"
proof -
  note d = lmdb_invD [OF s]
  have db: "lmdb_db s' = filter (\<lambda>e. fst e \<notin> fst ` set ms) (lmdb_db s)" by (simp add: s'_def delete_matches_db)
  have uniq: "(k, q) \<in> set (lmdb_db s) \<longleftrightarrow> q = r" if "bt_get (lmdb_db s) k = Some r" for k q r
    using that bt_get_in_set [OF d(2), of k] by (metis option.inject)
  have hit: "k \<in> fst ` set ms \<longleftrightarrow> belongs_to role ref (session_principal r)" if "bt_get (lmdb_db s) k = Some r" for k r
    using uniq [OF that] by (auto simp: ms_def image_iff)
  show "lmdb_inv sha T s'"
  proof (rule lmdb_inv_shrink [OF s db])
    show "set (lmdb_expires s') \<subseteq> set (lmdb_expires s)" by (auto simp: s'_def matches_index)
    fix t r e
    assume t: "t \<in> set T" "bt_get (lmdb_db s) (session_key sha t) = Some r" "session_expires_at r = Some e"
      "expiry_key_encode \<lparr> expires_at_nanos = e, expiry_session_key = session_key sha t \<rparr> \<in> set (lmdb_expires s')"
    have "(session_key sha t, q) \<notin> set ms" for q
      using t(3,4) uniq [OF t(2)] digest_okD(1) [OF d(1) t(1,1)]
      by (auto simp: s'_def matches_index ms_def expiry_entry_def)
    then show "fst (session_key sha t, r) \<notin> fst ` set ms" by auto
  qed
  show "lmdb_look sha s' u = revoked role ref (lmdb_look sha s) u" if u: "u \<in> set T" for u
    using look_shrink(1) [OF s db u] hit d(6) [OF u] ref
    by (auto simp: revoked_def lmdb_look_def split: option.splits)
  show "lmdb_legacy s' u \<Longrightarrow> lmdb_legacy s u" if u: "u \<in> set T" for u
    using look_shrink(2) [OF s db u] .
qed

text \<open>Moving a record: first the old place is cleared, then the new one written.\<close>

lemma move_commutes:
  assumes "bt_wf (lmdb_db s)" "key \<noteq> old"
  shows "db_delete old (put_session_in_txn key r s) = put_session_in_txn key r (db_delete old s)"
proof -
  have "bt_remove old (bt_insert key r (lmdb_db s)) = bt_insert key r (bt_remove old (lmdb_db s))"
    using assms by (intro bt_eqI) auto
  then show ?thesis
    using assms(2)
    by (auto simp: put_session_in_txn_def put_expiry_index_def delete_expiry_index_def db_delete_def Let_def
        split: option.split)
qed

lemma purge_put_ok:
  assumes s: "lmdb_inv sha T s" and now: "in_i128 now" and t: "t \<in> set T" "\<not> lmdb_legacy s t"
    and r: "\<forall>e. session_expires_at r = Some e \<longrightarrow> in_i128 e"
  shows "\<exists>s'. lmdb_put sha s now None t r = (Inr (), s') \<and> lmdb_inv sha T s'
    \<and> kept T now ((lmdb_look sha s)(t \<mapsto> r)) (lmdb_look sha s') \<and> (\<forall>u\<in>set T. lmdb_legacy s' u \<longrightarrow> lmdb_legacy s u)"
proof -
  obtain n s1 where s1: "purge_expired_in_txn now s = Inr (n, s1)" "lmdb_inv sha T s1"
    "kept T now (lmdb_look sha s) (lmdb_look sha s1)" "\<forall>u\<in>set T. lmdb_legacy s1 u \<longleftrightarrow> lmdb_legacy s u"
    using purge_ok [OF s now] by blast
  let ?s' = "put_session_in_txn (session_key sha t) r s1"
  have "\<not> lmdb_legacy s1 t" using s1(4) t by simp
  note p = put_ok [OF s1(2) t(1) this r]
  have "kept T now ((lmdb_look sha s)(t \<mapsto> r)) (lmdb_look sha ?s')"
    using kept_upd [OF s1(3), of t "Some r"] p(2) unfolding kept_def by simp
  moreover have "lmdb_put sha s now None t r = (Inr (), ?s')"
    using s1(1) by (simp add: lmdb_put_def in_txn_def)
  ultimately show ?thesis using p(1,3) s1(4) by blast
qed

lemma migrate_ok:
  assumes s: "lmdb_inv sha T s" and now: "in_i128 now" and t: "t \<in> set T" "lmdb_look sha s t = Some r" "lmdb_legacy s t"
  shows "\<exists>s'. migrate_legacy_record sha s now None t r = (Inr (), s') \<and> lmdb_inv sha T s'
    \<and> kept T now (lmdb_look sha s) (lmdb_look sha s') \<and> \<not> lmdb_legacy s' t
    \<and> (\<forall>u\<in>set T. lmdb_legacy s' u \<longrightarrow> lmdb_legacy s u)"
proof -
  obtain n s1 where s1: "purge_expired_in_txn now s = Inr (n, s1)" "lmdb_inv sha T s1"
    "kept T now (lmdb_look sha s) (lmdb_look sha s1)" "\<forall>u\<in>set T. lmdb_legacy s1 u \<longleftrightarrow> lmdb_legacy s u"
    using purge_ok [OF s now] by blast
  have key: "session_key sha t \<noteq> as_bytes t" using digest_okD(3) [OF lmdb_invD(1) [OF s] t(1,1)] .
  define s2 where "s2 = db_delete (as_bytes t) s1"
  note q = drop_raw_ok [OF s1(2) t(1), folded s2_def]
  have r: "\<forall>e. session_expires_at r = Some e \<longrightarrow> in_i128 e"
    using t(2) lmdb_invD(5) [OF s] by (auto simp: lmdb_look_def split: option.splits)
  let ?s' = "put_session_in_txn (session_key sha t) r s2"
  note p = put_ok [OF q(1) t(1) q(2) r]
  have "lmdb_look sha ?s' u = ((lmdb_look sha s1)(t \<mapsto> r)) u" if "u \<in> set T" for u
    using p(2) [OF that] q(3) [OF that] by simp
  moreover have "(lmdb_look sha s)(t \<mapsto> r) = lmdb_look sha s" using t(2) by (rule fun_upd_idem)
  ultimately have "kept T now (lmdb_look sha s) (lmdb_look sha ?s')"
    using kept_upd [OF s1(3), of t "Some r"] unfolding kept_def by simp
  moreover have "migrate_legacy_record sha s now None t r = (Inr (), ?s')"
    using s1(1) move_commutes [OF lmdb_invD(2) [OF s1(2)] key]
    by (simp add: migrate_legacy_record_def in_txn_def s2_def)
  moreover have "\<not> lmdb_legacy ?s' t" using p(3) q(2) t(1) by simp
  moreover have "lmdb_legacy ?s' u \<longrightarrow> lmdb_legacy s u" if "u \<in> set T" for u
    using p(3) [OF that] q(2) q(4) [OF that] s1(4) that by (cases "u = t") auto
  ultimately show ?thesis using p(1) by blast
qed

interpretation lr: session_lookup "lmdb_store sha" T "lmdb_inv sha T" "lmdb_look sha" lmdb_legacy in_i128 L for sha T L
proof
  fix s t now
  assume s: "lmdb_inv sha T s" and t: "t \<in> set T" and now: "in_i128 now"
  show "\<exists>x l s'. store_get (lmdb_store sha) s now None t = (Inr (x, l), s') \<and> lmdb_inv sha T s'
      \<and> kept T now (lmdb_look sha s) (lmdb_look sha s') \<and> x = lmdb_look sha s' t \<and> (lmdb_legacy s' t \<longleftrightarrow> l \<and> x \<noteq> None)
      \<and> (\<forall>u\<in>set T. lmdb_legacy s' u \<longrightarrow> lmdb_legacy s u)"
    using s lmdb_invD(6) [OF s t]
    by (auto simp: lmdb_store_def lmdb_get_def lmdb_look_def lmdb_legacy_def split: option.split)
  show "\<exists>s'. store_migrate (lmdb_store sha) s now None t r = (Inr (), s') \<and> lmdb_inv sha T s'
      \<and> kept T now (lmdb_look sha s) (lmdb_look sha s') \<and> \<not> lmdb_legacy s' t
      \<and> (\<forall>u\<in>set T. lmdb_legacy s' u \<longrightarrow> lmdb_legacy s u)"
    if "lmdb_look sha s t = Some r" "lmdb_legacy s t" for r
    using migrate_ok [OF s now t that] by (simp add: lmdb_store_def)
  show "\<exists>s'. store_put (lmdb_store sha) s now None t r = (Inr (), s') \<and> lmdb_inv sha T s'
      \<and> kept T now ((lmdb_look sha s)(t \<mapsto> r)) (lmdb_look sha s') \<and> (\<forall>u\<in>set T. lmdb_legacy s' u \<longrightarrow> lmdb_legacy s u)"
    if "\<not> lmdb_legacy s t" "\<forall>e. session_expires_at r = Some e \<longrightarrow> in_i128 e" for r
    using purge_put_ok [OF s now t that] by (simp add: lmdb_store_def)
  show "\<exists>s'. store_delete (lmdb_store sha) s now None t = (Inr (), s') \<and> lmdb_inv sha T s'
      \<and> kept T now ((lmdb_look sha s)(t := None)) (lmdb_look sha s') \<and> (\<forall>u\<in>set T. lmdb_legacy s' u \<longrightarrow> lmdb_legacy s u)"
  proof -
    define s1 where "s1 = db_delete (session_key sha t)
      (case bt_get (lmdb_db s) (session_key sha t) of None \<Rightarrow> s | Some p \<Rightarrow> delete_expiry_index (session_key sha t) p s)"
    note h = drop_hashed_ok [OF s t, folded s1_def]
    note q = drop_raw_ok [OF h(1) t]
    have "lmdb_look sha (db_delete (as_bytes t) s1) u = ((lmdb_look sha s)(t := None)) u" if "u \<in> set T" for u
      using q(3) [OF that] h(2,3) [OF that] h(3) [OF t] by (cases "u = t") simp_all
    then have "kept T now ((lmdb_look sha s)(t := None)) (lmdb_look sha (db_delete (as_bytes t) s1))"
      by (simp add: kept_def)
    moreover have "lmdb_legacy (db_delete (as_bytes t) s1) u \<longrightarrow> lmdb_legacy s u" if "u \<in> set T" for u
      using q(2) q(4) [OF that] h(3) [OF that] by (cases "u = t") simp_all
    ultimately show ?thesis
      using q(1) by (simp add: lmdb_store_def lmdb_delete_def in_txn_def s1_def Let_def)
  qed
next
  fix s now ref role
  assume s: "lmdb_inv sha T s" and ref: "trim ref = ref" "ref \<noteq> []"
  note d = delete_for_ok [OF s ref(2), where role = role]
  let ?ms = "filter (\<lambda>(_, r). belongs_to role ref (session_principal r)) (lmdb_db s)"
  have "kept T now (revoked role ref (lmdb_look sha s)) (lmdb_look sha (fold delete_match ?ms s))"
    using d(2) by (simp add: kept_def)
  then show "\<exists>n s'. store_delete_for (lmdb_store sha) s now None role ref = (Inr n, s') \<and> lmdb_inv sha T s'
      \<and> kept T now (revoked role ref (lmdb_look sha s)) (lmdb_look sha s') \<and> (\<forall>u\<in>set T. lmdb_legacy s' u \<longrightarrow> lmdb_legacy s u)"
    using ref d(1,3) by (auto simp: lmdb_store_def lmdb_delete_for_def in_txn_def Let_def)
qed

end
