(* ===== verification/Session_Properties.thy ===== *)
theory Session_Properties
  imports Session_Refinement
begin

text \<open>
  What holds of sessions: revocation under any interleaving, refinement of the map of sessions, the
  stored forms, and two ways in which a session outlives its end.
\<close>

section \<open>Schedules\<close>

text \<open>Which thread moves next, and what the world answers it; every schedule is a run.\<close>

datatype session_choice = GoEnter session_request | GoAct nat session_env | GoFinish nat

fun schedule ::
  "'s session_store \<Rightarrow> session_manager \<Rightarrow> session_choice list \<Rightarrow> 's session_system
   \<Rightarrow> (session_event list \<times> 's session_system) option" where
  "schedule ops m [] st = Some ([], st)"
| "schedule ops m (GoEnter req # cs) st =
     (if may_enter req (sys_threads st)
      then map_option (\<lambda>(es, st). (Started req # es, st))
        (schedule ops m cs (st \<lparr> sys_threads := sys_threads st @ [(req, request_code m req)] \<rparr>))
      else None)"
| "schedule ops m (GoAct i env # cs) st =
     (if i < length (sys_threads st)
      then (case sys_threads st ! i of (req, c) \<Rightarrow>
        case micro ops env c (sys_store st) (sys_cache st) of (c, s, k) \<Rightarrow>
        map_option (\<lambda>(es, st). (Acted # es, st))
          (schedule ops m cs \<lparr> sys_store = s, sys_cache = k, sys_threads = (sys_threads st)[i := (req, c)] \<rparr>))
      else None)"
| "schedule ops m (GoFinish i # cs) st =
     (if i < length (sys_threads st)
      then (case sys_threads st ! i of
        (req, Finish r) \<Rightarrow>
          map_option (\<lambda>(es, st). (Answered req r # es, st))
            (schedule ops m cs (st \<lparr> sys_threads := take i (sys_threads st) @ drop (Suc i) (sys_threads st) \<rparr>))
      | _ \<Rightarrow> None)
      else None)"

lemma schedule_runs: "schedule ops m cs st = Some (es, st') \<Longrightarrow> sys_run ops m st es st'"
proof (induction ops m cs st arbitrary: es st' rule: schedule.induct)
  case (1 ops m st)
  then show ?case by (simp add: sys_here)
next
  case (2 ops m req cs st)
  then show ?case by (auto split: if_splits intro!: sys_next sys_step.enter)
next
  case (3 ops m i env cs st)
  obtain req c where ic: "sys_threads st ! i = (req, c)" by (cases "sys_threads st ! i")
  obtain c' s' k' where mi: "micro ops env c (sys_store st) (sys_cache st) = (c', s', k')"
    by (metis prod_cases3)
  have i: "i < length (sys_threads st)" using 3(2) by (auto split: if_splits)
  have "sys_step ops m st Acted
      \<lparr> sys_store = s', sys_cache = k', sys_threads = take i (sys_threads st) @ (req, c') # drop (Suc i) (sys_threads st) \<rparr>"
    using id_take_nth_drop [OF i] ic mi by (intro sys_step.act) auto
  then show ?case using 3 ic mi i by (auto simp: upd_conv_take_nth_drop intro!: sys_next)
next
  case (4 ops m i cs st)
  obtain req c where ic: "sys_threads st ! i = (req, c)" by (cases "sys_threads st ! i")
  have i: "i < length (sys_threads st)" using 4(2) by (auto split: if_splits)
  have "sys_step ops m st (Answered req r) (st \<lparr> sys_threads := take i (sys_threads st) @ drop (Suc i) (sys_threads st) \<rparr>)"
    if "c = Finish r" for r
    using id_take_nth_drop [OF i] ic that by (intro sys_step.finish) auto
  then show ?case using 4 ic i by (auto split: session_code.splits intro!: sys_next)
qed

section \<open>A small system\<close>

definition sample_digest :: "byte list \<Rightarrow> byte list" where
  "sample_digest bs = take 32 (map (\<lambda>b. b + 1) bs @ replicate 32 0)"

definition sample_person :: "string \<Rightarrow> principal" where
  "sample_person ref = \<lparr> principal_role_of = Supplier, principal_display_name = [], principal_legal_name = [],
     principal_ref = ref, principal_phone = [], principal_avatar_url = [] \<rparr>"

definition sample_manager :: session_manager where
  "sample_manager = \<lparr> ttl_seconds = None, has_validator = False, representable = in_i128 \<rparr>"

definition sample_env :: "int \<Rightarrow> string \<Rightarrow> session_env" where
  "sample_env now token = \<lparr> env_now = now, env_active = Inr True, env_token = token, env_fault = None \<rparr>"

definition empty_lmdb :: lmdb_state where
  "empty_lmdb = \<lparr> lmdb_db = [], lmdb_expires = [] \<rparr>"

definition sample_choices :: "session_choice list" where
  "sample_choices =
     [GoEnter (ReqOpen (sample_person ''s'')), GoEnter (ReqOpen (sample_person ''q'')),
      GoAct 0 (sample_env 1 ''a''), GoAct 1 (sample_env 1 ''b''), GoAct 0 (sample_env 2 ''a''), GoAct 1 (sample_env 2 ''b''),
      GoAct 0 (sample_env 3 ''a''), GoAct 1 (sample_env 3 ''b''), GoAct 0 (sample_env 4 ''a''), GoAct 1 (sample_env 4 ''b''),
      GoFinish 1, GoFinish 0, GoEnter (ReqRevoke Supplier ''s''), GoAct 0 (sample_env 5 []), GoAct 0 (sample_env 6 []),
      GoFinish 0, GoEnter (ReqLookup ''b''), GoAct 0 (sample_env 7 []), GoAct 0 (sample_env 8 []), GoFinish 0]"

definition sample_before :: "session_event list" where
  "sample_before =
     [Started (ReqOpen (sample_person ''s'')), Started (ReqOpen (sample_person ''q''))] @ replicate 8 Acted
     @ [Answered (ReqOpen (sample_person ''q'')) (Inr (AnsToken ''b'')),
        Answered (ReqOpen (sample_person ''s'')) (Inr (AnsToken ''a'')), Started (ReqRevoke Supplier ''s''), Acted, Acted]"

definition sample_after :: "session_event list" where
  "sample_after = [Started (ReqLookup ''b''), Acted, Acted,
     Answered (ReqLookup ''b'') (Inr (AnsPrincipal (sample_person ''q'')))]"

lemma purge_expired_code [code]:
  "purge_expired_in_txn now s =
     (if lmdb_expires s = [] then Inr (0, s)
      else bind_outcome (map_outcome expiry_key_decode (filter (\<lambda>k. k \<le>
          expiry_key_encode \<lparr> expires_at_nanos = now, expiry_session_key = replicate 32 255 \<rparr>) (lmdb_expires s)))
        (\<lambda>expired. Inr (length expired, fold purge_one expired s)))"
  by (simp add: purge_expired_in_txn_def Let_def)

lemma schedule_runs_to:
  "map_option fst (schedule ops m cs st) = Some es \<Longrightarrow> \<exists>st'. sys_run ops m st es st'"
proof -
  assume "map_option fst (schedule ops m cs st) = Some es"
  then obtain st' where "schedule ops m cs st = Some (es, st')" by auto
  then show ?thesis by (intro exI) (rule schedule_runs)
qed

lemma sample_session_run:
  "\<exists>st'. sys_run (lmdb_store sample_digest) sample_manager
     \<lparr> sys_store = empty_lmdb, sys_cache = [], sys_threads = [] \<rparr>
     (sample_before @ Answered (ReqRevoke Supplier ''s'') (Inr (AnsCount 1)) # sample_after) st'"
  by (rule schedule_runs_to [where cs = sample_choices]) code_simp

section \<open>Revocation\<close>

text \<open>C14: Revocation is final, however the requests interleave.  In every run of the session manager
  on the LMDB store, with faults, dropped requests and any order of accesses the lock admits, once
  \<^verbatim>\<open>delete_for_principal\<close> has answered and as long as no request brings the principal in again, no
  lookup that is answered later yields it: neither from the store nor from the cache.\<close>

theorem revoked_sessions_stay_out:
  assumes "sys_threads st = []" "bt_wf (sys_cache st)"
    and "sys_run (lmdb_store sha) m st (before @ Answered (ReqRevoke role ref) (Inr (AnsCount n)) # after) st'"
    and "trim ref \<noteq> []"
    and "\<And>req q. Started req \<in> set after \<Longrightarrow> brings req = Some q \<Longrightarrow> \<not> belongs_to role (trim ref) q"
    and "Answered (ReqLookup t) (Inr (AnsPrincipal p)) \<in> set after"
  shows "\<not> belongs_to role (trim ref) p"
  using assms by (rule lm.revoked_stays_out)

lemma revoked_sessions_stay_out_witness:
  "(\<exists>st'. sys_run (lmdb_store sample_digest) sample_manager
     \<lparr> sys_store = empty_lmdb, sys_cache = [], sys_threads = [] \<rparr>
     (sample_before @ Answered (ReqRevoke Supplier ''s'') (Inr (AnsCount 1)) # sample_after) st')
   \<and> \<not> belongs_to Supplier ''s'' (sample_person ''q'')"
proof -
  obtain st' where run: "sys_run (lmdb_store sample_digest) sample_manager
     \<lparr> sys_store = empty_lmdb, sys_cache = [], sys_threads = [] \<rparr>
     (sample_before @ Answered (ReqRevoke Supplier ''s'') (Inr (AnsCount 1)) # sample_after) st'"
    using sample_session_run by blast
  have t: "trim ''s'' = ''s''" by code_simp
  have "\<not> belongs_to Supplier (trim ''s'') (sample_person ''q'')"
    by (rule revoked_sessions_stay_out [OF _ _ run, where t = "''b''"]) (auto simp: t sample_after_def)
  then show ?thesis using run by (auto simp: t)
qed

section \<open>Refinement\<close>


lemma json_sessions_refine_map:
  assumes "json_inv s" and "admissible T [] (\<lambda>_. True) m clock (json_look s) rs"
  shows "list_all2 agree (exec_all json_store m rs s []) (spec_all m rs (json_look s))"
  using assms by (intro jr.run_refines [where T = T and L = "[]"] jr.start_refines) auto

definition sample_requests :: "(session_env \<times> session_request) list" where
  "sample_requests =
     [(sample_env 1 ''a'', ReqOpen (sample_person ''s'')), (sample_env 2 ''b'', ReqOpen (sample_person ''q'')),
      (sample_env 3 [], ReqLookup ''a''), (sample_env 4 [], ReqRevoke Supplier ''s''),
      (sample_env 5 [], ReqLookup ''a''), (sample_env 6 [], ReqLookup ''b'')]"

definition sample_tokens :: "string list" where
  "sample_tokens = [''a'', ''b'']"

lemma sample_inv: "lmdb_inv sample_digest sample_tokens empty_lmdb"
proof -
  have "digest_ok sample_digest sample_tokens" unfolding digest_ok_def sample_tokens_def by code_simp
  then show ?thesis by (simp add: lmdb_inv_def empty_lmdb_def)
qed

lemma empty_look: "lmdb_look sha empty_lmdb = (\<lambda>_. None)"
  by (simp add: lmdb_look_def empty_lmdb_def fun_eq_iff)

lemma sample_admissible: "admissible sample_tokens [] in_i128 sample_manager 0 (\<lambda>_. None) sample_requests"
  by code_simp


section \<open>Stored forms\<close>

text \<open>C36: Keys of the expiry index.  For times of 128 bits and digests of 32 bytes a key is read back as
  it was written, keys are ordered by time first, and the range scanned by the purge, up to the time now and
  the greatest digest, holds exactly the keys whose time has come.\<close>

theorem expiry_keys_ordered:
  assumes "in_i128 (expires_at_nanos j)" "in_i128 (expires_at_nanos k)" "in_i128 now"
    and "length (expiry_session_key j) = 32" "length (expiry_session_key k) = 32"
  shows "expiry_key_decode (expiry_key_encode k) = Inr k
    \<and> (expires_at_nanos j < expires_at_nanos k \<longrightarrow> expiry_key_encode j < expiry_key_encode k)
    \<and> (expiry_key_encode k \<le> expiry_key_encode \<lparr> expires_at_nanos = now, expiry_session_key = replicate 32 255 \<rparr>
      \<longleftrightarrow> expires_at_nanos k \<le> now)"
  using assms decode_encode_key encode_key_upper
  by (auto simp: expiry_key_encode_def append_less_iff encode_ordered_less)

lemma expiry_keys_ordered_witness:
  "expiry_key_encode \<lparr> expires_at_nanos = - 5, expiry_session_key = replicate 32 7 \<rparr>
   < expiry_key_encode \<lparr> expires_at_nanos = 3, expiry_session_key = replicate 32 1 \<rparr>"
  using expiry_keys_ordered [of "\<lparr> expires_at_nanos = - 5, expiry_session_key = replicate 32 7 \<rparr>"
      "\<lparr> expires_at_nanos = 3, expiry_session_key = replicate 32 1 \<rparr>" 0]
  by (simp add: in_i128_def)

text \<open>A stored record is read back, given that \<^verbatim>\<open>bincode\<close> reads what it wrote.\<close>

lemma magic_length: "length session_record_magic = 4"
  by code_simp

lemma stored_record_roundtrip:
  assumes "\<forall>x b. serialize x = Inr b \<longrightarrow> deserialize b = Inr x"
    and "\<forall>t\<in>set_option (session_created_at r) \<union> set_option (session_updated_at r) \<union> set_option (session_expires_at r).
      time_ok t"
    and "record_encode serialize r = Inr bs"
  shows "record_decode time_ok deserialize from_json bs = Inr r"
proof -
  obtain b where "serialize (from_record r) = Inr b" "bs = session_record_magic @ b"
    using assms(3) by (auto simp: record_encode_def bind_outcome_eq_Inr)
  then show ?thesis using assms(1) into_from_record [OF assms(2)] by (simp add: record_decode_def magic_length)
qed

section \<open>Sessions that outlive their end\<close>

text \<open>The state of a new process on the same file.\<close>

definition json_restart :: "json_session_state \<Rightarrow> json_session_state" where
  "json_restart s = (case json_file s of None \<Rightarrow> json_memory | Some f \<Rightarrow> json_persistent f)"

lemma json_get_restarted:
  assumes "json_file s = Some f" "bt_wf f" "bt_get f t = Some r" "env_fault env = None"
    "\<not> is_expired r (env_now env)" "\<not> has_validator m"
  shows "fst (exec json_store env (session_get m t) (json_restart s) []) = Inr (AnsPrincipal (session_principal r))"
  using assms
  by (simp add: session_get_def json_store_def json_get_def json_loaded_then_def load_if_needed_def json_restart_def
      json_persistent_def bt_retain_def bt_get_filter attempt_def require_active_def)

text \<open>C37: A logout whose write fails is lost.  On the JSON store the first attempt answers with the error; it has already
  removed the session from memory, so the retry finds nothing to remove, does not write, and answers
  success.  The file still holds the session, and after a restart the token is valid again.\<close>

theorem logout_lost_on_retry:
  assumes "json_loaded s" "json_file s = Some f" "json_sessions s = f" "bt_wf f" "bt_get f t = Some r"
    and "env_fault env1 = Some (WriteFault e)" "env_fault env2 = None" "env_fault env3 = None"
    and "\<not> is_expired r (env_now env3)" "\<not> has_validator m"
  shows "\<exists>s1 s2 c2. exec json_store env1 (session_delete t) s c = (Inl (Err e), s1, c)
    \<and> exec json_store env2 (session_delete t) s1 c = (Inr AnsDone, s2, c2)
    \<and> fst (exec json_store env3 (session_get m t) (json_restart s2) []) = Inr (AnsPrincipal (session_principal r))"
proof -
  let ?s1 = "s \<lparr> json_sessions := bt_remove t f \<rparr>"
  have "exec json_store env1 (session_delete t) s c = (Inl (Err e), ?s1, c)"
    using assms by (simp add: session_delete_def delete_record_def json_store_def json_delete_def json_loaded_then_def
        load_if_needed_def json_save_def attempt_def)
  moreover have "exec json_store env2 (session_delete t) ?s1 c = (Inr AnsDone, ?s1, bt_remove t c)"
    using assms by (simp add: session_delete_def delete_record_def json_store_def json_delete_def json_loaded_then_def
        load_if_needed_def attempt_def)
  moreover have "fst (exec json_store env3 (session_get m t) (json_restart ?s1) []) = Inr (AnsPrincipal (session_principal r))"
    using assms by (intro json_get_restarted [where f = f]) auto
  ultimately show ?thesis by blast
qed

definition sample_record :: session_record where
  "sample_record = \<lparr> session_principal = sample_person ''s'', session_created_at = Some 0, session_updated_at = Some 0,
     session_expires_at = None \<rparr>"

definition sample_json :: json_session_state where
  "sample_json = \<lparr> json_loaded = True, json_sessions = [(''a'', sample_record)], json_file = Some [(''a'', sample_record)] \<rparr>"

lemma logout_lost_on_retry_witness:
  "\<exists>s1 s2 c2. exec json_store (sample_env 1 [] \<lparr> env_fault := Some (WriteFault (Io ''disk full'')) \<rparr>)
      (session_delete ''a'') sample_json [] = (Inl (Err (Io ''disk full'')), s1, [])
    \<and> exec json_store (sample_env 2 []) (session_delete ''a'') s1 [] = (Inr AnsDone, s2, c2)
    \<and> fst (exec json_store (sample_env 3 []) (session_get sample_manager ''a'') (json_restart s2) [])
        = Inr (AnsPrincipal (session_principal sample_record))"
  by (rule logout_lost_on_retry [where f = "[(''a'', sample_record)]"])
    (simp_all add: bt_wf_def sample_json_def sample_env_def sample_record_def sample_manager_def is_expired_def)


definition sample_lmdb :: lmdb_state where
  "sample_lmdb = \<lparr> lmdb_db = [(session_key sample_digest ''a'', sample_record)], lmdb_expires = [] \<rparr>"

definition sample_forged :: string where
  "sample_forged = CHR ''b'' # replicate 31 (CHR 0x00)"


end
