(* ===== verification/Spec2Isabelle.thy ===== *)
theory Spec2Isabelle
  imports Formula_Meaning Runner_Laws Contract_Laws Queue_Move_Runs Queue_Order_Laws Capacity_Plan
    Inventory_Runs Session_Properties
begin

text \<open>
  \<^bold>\<open>The program.\<close>  \<^verbatim>\<open>mini_rs_erp\<close> is the server of a factory that prints and laminates packaging.  An order
  is made along a \<^emph>\<open>production map\<close>, a graph of work nodes; each apparatus keeps a \<^emph>\<open>queue\<close> of orders and may be
  booked ahead; goods stand in warehouses or at apparatus and move between them by \<^emph>\<open>transfers\<close>; people are let in by
  \<^emph>\<open>sessions\<close>.  HTTP handlers call services, services call stores behind traits (in memory, JSON files, LMDB or
  PostgreSQL).  This development models the parts where decisions are made: the map compiler and
  runner, the route of an order, the queue, the apparatus contract, capacity, inventory movements
  and sessions.  Paths below are relative to \<^verbatim>\<open>src/src/core\<close>, except where \<^verbatim>\<open>crates\<close> are named.

  \<^bold>\<open>Foundations.\<close>
  \<^item> \<open>Erp_Prelude\<close>: the outcome of a Rust call.  \<open>Inr\<close> is \<^verbatim>\<open>Ok\<close>, \<open>Inl (Err e)\<close> is \<^verbatim>\<open>Err\<close>, \<open>Inl Panic\<close> a
    panic, \<open>Inl OutOfFuel\<close> the end of the fuel of a bounded loop; \<open>bind_outcome\<close> is the operator \<^verbatim>\<open>?\<close>.
    The operations of \<^verbatim>\<open>str\<close> that the sources use.  Strings are lists of characters below U+0100.
  \<^item> \<open>Ordered_Maps\<close>: \<^verbatim>\<open>BTreeMap\<close> and \<^verbatim>\<open>BTreeSet\<close> as lists sorted by key; the locale \<open>keyed_map\<close> is the
    contract of a map and is interpreted on them.
  \<^item> \<open>Erp_Text\<close>, \<open>Erp_Float\<close>: integers at their width with wrap-around and decimal texts; IEEE binary64 with
    rounding to nearest, ties to even.
  \<^item> \<open>Wire_Enums\<close>: the contract of enums that are stored as text, with an interpretation per enum.
  \<^item> \<open>Production_Errors\<close>, \<open>Principals\<close>: the error type of the production services (\<^verbatim>\<open>production_map/errors.rs\<close>); roles
    and principals (\<^verbatim>\<open>auth/models.rs\<close>).

  \<^bold>\<open>Queue of an apparatus\<close> (\<^verbatim>\<open>production_map/queue\<close>).  \<open>Queue_State\<close> has the state machine of an order
  (\<open>next_queue_state\<close>), the order of service (\<open>effective_apparatus_sequence\<close>, \<open>first_actionable_order_id\<close>), both policies
  (\<open>apply_queue_action\<close>, \<open>apply_unordered_queue_action\<close>) and the stored form.  \<open>Queue_Laws\<close> shows over every run of
  actions that one order at most is at work, that the strict policy serves first come first, what the effective
  sequence holds, and that the stored form loses nothing.  \<open>Apparatus_Identity\<close> gives the grammar of ids.
  \<open>Queue_Orders\<close> (\<^verbatim>\<open>queue/apparatus.rs\<close>) says which orders stand in a queue, \<open>Queue_Moves\<close> (\<^verbatim>\<open>sequence_move.rs\<close> and the end of
  \<^verbatim>\<open>queue/support.rs\<close>) moves one of them; \<open>Queue_Order_Laws\<close>, \<open>Queue_Move_Laws\<close> and \<open>Queue_Move_Runs\<close> show that a move takes
  the nearest slot that lets no order overtake a running one and that clients can follow the queue by its events.

  \<^bold>\<open>Production maps\<close> (\<^verbatim>\<open>production_map/compiler\<close>, \<^verbatim>\<open>catalog/definition.rs\<close>, \<^verbatim>\<open>order_layout.rs\<close>).  \<open>Formula\<close> is the parser and the
  evaluator of formulas by recursive descent with fuel; \<open>Formula_Laws\<close> shows that the fuel (linear in the length of the text)
  is enough for every text, \<open>Formula_Meaning\<close> that evaluation computes the value of the syntax tree.  \<open>Map_Definition\<close>,
  \<open>Map_Compiler\<close> and \<open>Map_Runner\<close> translate the data, normal form, validation, topological order, program
  and run; \<open>Compiler_Laws\<close> and \<open>Runner_Laws\<close> show the order topological and a cycle reported exactly when there is one,
  the program complete, a run a path of the map with the tasks of its work nodes, and that compiling and
  running end on every input (the topological loop has fuel for each node once, the runner for each node
  and one more round).  \<open>Order_Layout\<close> treats the lanes of an order and their grouping into frames.

  \<^bold>\<open>Route of an order\<close> (\<^verbatim>\<open>production_map/chain\<close>).  \<open>Route_Chain\<close> has work stages, stages before and after an occurrence, readiness;
  \<open>Route_Laws\<close> shows that they are what reachability in the graph says; \<open>Route_Projection\<close> that the
  cached reads answer like the uncached functions.

  \<^bold>\<open>Apparatus contract\<close> (\<^verbatim>\<open>crates/mini_rs_apparatus_contract\<close>).  \<open>Apparatus_Contract\<close> and \<open>Apparatus_Projection\<close> have drafts, revisions,
  validation and the runtime rows; \<open>Contract_Laws\<close> shows round trips and that the rows of a valid revision agree with it.
  SHA-256 is a parameter.

  \<^bold>\<open>Capacity\<close> (\<^verbatim>\<open>production_map/capacity\<close>).  \<open>Run_Session\<close> has the statuses and the session record of a production run, \<open>Capacity\<close> the data,
  the search for a slot and the store, \<open>Capacity_Service\<close> the service.  \<open>Capacity_Laws\<close> and
  \<open>Capacity_Plan\<close> show that bookings never exceed the slots of an apparatus in any run of the operations, that a slot is
  the earliest, the best candidate is picked, durations need no panic, and what happens at the end of the
  integers and on a retry.  Calendar and clock are parameters.

  \<^bold>\<open>Inventory\<close> (\<^verbatim>\<open>inventory_movements\<close>).  \<open>Inventory\<close> is the service, \<open>Inventory_Store\<close> the store in memory.  \<open>Inventory_Laws\<close> and
  \<open>Inventory_Custody\<close> prove the invariant of assets and transfers for every operation; \<open>Inventory_Runs\<close> states it over sequences of
  requests: goods are held by one transfer at most, change hands by receipt only, a failed request leaves no
  trace, and a transfer can always be completed.

  \<^bold>\<open>Sessions\<close> (\<^verbatim>\<open>session\<close>).  \<open>Session_Manager\<close> has each operation as a tree of single accesses to clock, validator, cache
  and store; \<open>sys_step\<close> interleaves requests under the read-write lock, with faults and dropped requests.
  \<open>Session_Stores\<close> has the JSON and the LMDB store, \<open>Session_Keys\<close> the byte keys and codecs.  The locale
  \<open>session_contract\<close> (\<open>Session_Laws\<close>) states what revocation needs of a store, \<open>session_lookup\<close> (\<open>Session_Spec\<close>) what
  refinement of a map of sessions needs; both are interpreted on both stores (\<open>Session_Laws\<close>, \<open>Session_Refinement\<close>).
  \<open>Session_Properties\<close> holds the results.

  \<^bold>\<open>Conventions.\<close>  An operation that holds its lock to the end is one step.  The clock, random values and new ids are
  arguments.  Code outside the repository is a parameter of the definitions that use it, with its documented
  behaviour as a hypothesis of the theorems that need it.

  \<^bold>\<open>Not modelled.\<close>
  \<^item> HTTP routes and handlers, web sockets, the Telegram, push, spreadsheet, AI and RPS clients, configuration and the
    binaries: input and output around the services.
  \<^item> The PostgreSQL stores (\<^verbatim>\<open>src/src/db\<close>, \<^verbatim>\<open>migrations\<close>): their behaviour is that of SQL text run by a database.
  \<^item> Of the production services: progress recording, order control and work in progress, which orchestrate many store calls through
    asynchronous traits whose meaning is given by the PostgreSQL stores.
  \<^item> Media, backups, diagnosis, mobile releases, tools and third-party crates.
  \<^item> Serde attributes; texts with characters beyond U+00FF.
\<close>

section \<open>Routes and queues\<close>

text \<open>C5: The queue of an apparatus is made of the routes of the orders.  For stored maps and an apparatus with a canonical
  identity, the queue that is read and reordered holds an order exactly once if the route of one of the maps with
  its id passes the apparatus or an alternative of it, the map is no template and the order is not
  frozen; on a printing apparatus the alternatives must in addition be settled on it.\<close>

theorem queue_holds_routed_orders:
  assumes "\<forall>m\<in>set maps. normal_map m" and "is_valid (source_apparatus_id (runtime_row c))"
  shows "distinct (queue_order_ids (from_data c maps stored raw frozen preflight))
    \<and> (\<forall>i. i \<in> set (queue_order_ids (from_data c maps stored raw frozen preflight)) \<longleftrightarrow>
      (\<exists>m\<in>set maps. i = trim (map_id m) \<and> i \<noteq> [] \<and> \<not> is_template_map m
        \<and> on_route (source_apparatus_id (runtime_row c)) m)
      \<and> (is_print_apparatus c \<longrightarrow> allowed_by_print maps c i) \<and> i \<notin> set frozen \<and> bt_get raw i \<noteq> Some ''frozen'')"
  by (intro conjI allI queue_members [OF assms(1) refl assms(2)]) (simp only: from_data_def from_visible_ok(1))

definition sample_configuration :: runtime_apparatus_configuration where
  "sample_configuration = configuration_of_set (project_apparatus_revision sample_revision [])"

lemma queue_holds_routed_orders_witness:
  "trim (map_id route_sample) \<in> set (queue_order_ids (from_data sample_configuration [route_sample] [] [] [] []))
   \<and> on_route (source_apparatus_id (runtime_row sample_configuration)) route_sample"
proof -
  let ?i = "trim (map_id route_sample)" and ?a = "source_apparatus_id (runtime_row sample_configuration)"
  let ?q = "queue_order_ids (from_data sample_configuration [route_sample] [] [] [] [])"
  have valid: "is_valid ?a" by code_simp
  have mem: "?i \<in> set ?q" by code_simp
  have "\<forall>m\<in>set [route_sample]. normal_map m" using route_sample_normal by simp
  from queue_holds_routed_orders [OF this valid, THEN conjunct2, THEN spec, of ?i "[]" "[]" "[]" "[]"] mem
  have "\<exists>m\<in>set [route_sample]. on_route ?a m" by blast
  then show ?thesis using mem by (simp only: list.set bex_simps) blast
qed

end
